(* ===== verification/Prelude.thy ===== *)
theory Prelude
  imports Main "HOL-Library.Multiset" "HOL-Library.Word" "HOL-Library.List_Lexorder" "HOL-Library.Char_ord"
begin

text \<open>
  Shared vocabulary of the development: the named fact collections, time as integer
  nanoseconds, decimal printing, and the list functions that stand for the SQL statements of
  \<open>crates/chatbotchat-core/src/storage.rs\<close> (an \<open>UPDATE \<dots> WHERE\<close>, a \<open>COUNT(*)\<close>, a
  \<open>COALESCE(MAX(\<dots>), 0)\<close> and an \<open>ORDER BY\<close>).
\<close>

named_theorems wire_simps \<open>wire words of the enumerations and their parsers\<close>
named_theorems row_simps \<open>effect of one storage operation on each table\<close>
named_theorems run_simps \<open>sequential execution of programs\<close>
named_theorems drive_simps \<open>execution of programs beside a changing environment\<close>
named_theorems typing \<open>the results of composed programs\<close>
named_theorems wf_keeps \<open>storage operations keep the well-formedness of the tables\<close>

section \<open>Time\<close>

text \<open>
  \<open>OffsetDateTime\<close> and \<open>time::Duration\<close> have nanosecond resolution; both are integers here, an
  instant counted from the Unix epoch.
\<close>

type_synonym time = int
type_synonym u32 = "32 word"

definition seconds :: "int \<Rightarrow> time" where
  "seconds n = n * 1000000000"

definition minutes :: "int \<Rightarrow> time" where
  "minutes n = seconds (60 * n)"

definition hours :: "int \<Rightarrow> time" where
  "hours n = seconds (3600 * n)"

definition days :: "int \<Rightarrow> time" where
  "days n = seconds (86400 * n)"

text \<open>\<open>Duration::whole_seconds\<close> truncates towards zero.\<close>

definition whole_seconds :: "time \<Rightarrow> int" where
  "whole_seconds d = (if 0 \<le> d then d div 1000000000 else - ((- d) div 1000000000))"

lemmas time_defs = seconds_def minutes_def hours_def days_def

lemma whole_seconds_nonneg: "0 \<le> d \<Longrightarrow> 0 \<le> whole_seconds d"
  by (simp add: whole_seconds_def)

lemma whole_seconds_seconds [simp]: "whole_seconds (seconds n) = n"
  by (auto simp: whole_seconds_def seconds_def minus_mult_left simp del: mult_minus_left)

lemma whole_seconds_mono: "a \<le> b \<Longrightarrow> whole_seconds a \<le> whole_seconds b"
proof (cases "0 \<le> a \<or> b < 0")
  case True
  assume "a \<le> b"
  with True show ?thesis by (auto simp: whole_seconds_def zdiv_mono1)
next
  case False
  then have "0 \<le> (- a) div 1000000000" and "0 \<le> b div 1000000000"
    by (simp_all add: pos_imp_zdiv_nonneg_iff)
  with False show ?thesis by (simp add: whole_seconds_def)
qed

section \<open>Decimal and hexadecimal printing\<close>

definition digit_char :: "nat \<Rightarrow> char" where
  "digit_char d = (if d < 10 then char_of (48 + d) else char_of (87 + d))"

fun show_nat :: "nat \<Rightarrow> string" where
  "show_nat n = (if n < 10 then [digit_char n] else show_nat (n div 10) @ [digit_char (n mod 10)])"

declare show_nat.simps [simp del]

definition pad_left :: "nat \<Rightarrow> string \<Rightarrow> string" where
  "pad_left w s = replicate (w - length s) (CHR ''0'') @ s"

definition show_padded :: "nat \<Rightarrow> nat \<Rightarrow> string" where
  "show_padded w n = pad_left w (show_nat n)"

definition show_u32 :: "u32 \<Rightarrow> string" where
  "show_u32 n = show_nat (unat n)"

definition digits_value :: "string \<Rightarrow> nat" where
  "digits_value s = foldl (\<lambda>acc c. 10 * acc + (of_char c - 48)) 0 s"

lemma of_char_digit: "d < 10 \<Longrightarrow> (of_char (digit_char d) :: nat) = 48 + d"
  by (simp add: digit_char_def)

lemma digits_value_show_nat: "digits_value (show_nat n) = n"
proof (induction n rule: show_nat.induct)
  case (1 n)
  show ?case
  proof (cases "n < 10")
    case True
    then show ?thesis
      by (simp add: show_nat.simps [of n] digits_value_def of_char_digit)
  next
    case False
    with "1.IH" have "digits_value (show_nat (n div 10)) = n div 10" by simp
    with False show ?thesis
      by (simp add: show_nat.simps [of n] digits_value_def of_char_digit)
  qed
qed

lemma show_nat_inject [simp]: "show_nat m = show_nat n \<longleftrightarrow> m = n"
  by (metis digits_value_show_nat)

lemma show_nat_nonempty [simp]: "show_nat n \<noteq> []"
  by (subst show_nat.simps) simp

section \<open>SQL statements as list functions\<close>

definition update_where :: "('a \<Rightarrow> bool) \<Rightarrow> ('a \<Rightarrow> 'a) \<Rightarrow> 'a list \<Rightarrow> 'a list" where
  "update_where P f xs = map (\<lambda>x. if P x then f x else x) xs"

definition count_where :: "('a \<Rightarrow> bool) \<Rightarrow> 'a list \<Rightarrow> nat" where
  "count_where P xs = length (filter P xs)"

fun max_or_zero :: "int list \<Rightarrow> int" where
  "max_or_zero [] = 0"
| "max_or_zero (x # xs) = fold max xs x"

definition order_by :: "('a \<Rightarrow> 'k::linorder) \<Rightarrow> 'a list \<Rightarrow> 'a list" where
  "order_by k xs = sort_key k xs"

definition order_by_desc :: "('a \<Rightarrow> 'k::linorder) \<Rightarrow> 'a list \<Rightarrow> 'a list" where
  "order_by_desc k xs = rev (sort_key k (rev xs))"

fun first_row :: "'a list \<Rightarrow> 'a option" where
  "first_row [] = None"
| "first_row (x # _) = Some x"

lemma order_by_code [code]: "order_by k xs = foldr (insort_key k) xs []"
  by (simp add: order_by_def sort_key_def)

lemma set_order_by [simp]: "set (order_by k xs) = set xs"
  by (simp add: order_by_def)

lemma length_order_by [simp]: "length (order_by k xs) = length xs"
  by (simp add: order_by_def)

lemma mset_order_by [simp]: "mset (order_by k xs) = mset xs"
  by (simp add: order_by_def)

lemma order_by_desc_code [code]: "order_by_desc k xs = rev (foldr (insort_key k) (rev xs) [])"
  by (simp add: order_by_desc_def sort_key_def)

lemma set_order_by_desc [simp]: "set (order_by_desc k xs) = set xs"
  by (simp add: order_by_desc_def)

lemma count_where_order_by [simp]: "count_where P (order_by k xs) = count_where P xs"
  unfolding count_where_def order_by_def
  by (metis length_sort filter_sort)

lemma order_by_sorted: "sorted (map k xs) \<Longrightarrow> order_by k xs = xs"
  by (simp add: order_by_def sorted_sort_id sort_key_id_if_sorted)

lemma count_where_Nil [simp]: "count_where P [] = 0"
  by (simp add: count_where_def)

lemma count_where_Cons [simp]:
  "count_where P (x # xs) = (if P x then Suc (count_where P xs) else count_where P xs)"
  by (simp add: count_where_def)

lemma count_where_append [simp]: "count_where P (xs @ ys) = count_where P xs + count_where P ys"
  by (simp add: count_where_def)

lemma count_where_le_imp: "(\<And>x. x \<in> set xs \<Longrightarrow> P x \<Longrightarrow> Q x) \<Longrightarrow> count_where P xs \<le> count_where Q xs"
  by (induction xs) auto

lemma count_where_cong:
  "(\<And>x. x \<in> set xs \<Longrightarrow> P x \<longleftrightarrow> Q x) \<Longrightarrow> count_where P xs = count_where Q xs"
  by (induction xs) auto

lemma count_where_eq_0: "count_where P xs = 0 \<longleftrightarrow> (\<forall>x\<in>set xs. \<not> P x)"
  by (induction xs) auto

lemma count_where_pos: "0 < count_where P xs \<longleftrightarrow> (\<exists>x\<in>set xs. P x)"
  by (induction xs) auto

lemma count_where_less:
  "(\<And>x. P x \<Longrightarrow> Q x) \<Longrightarrow> y \<in> set xs \<Longrightarrow> Q y \<Longrightarrow> \<not> P y \<Longrightarrow> count_where P xs < count_where Q xs"
proof (induction xs)
  case (Cons x xs)
  then show ?case
    using count_where_le_imp [of xs P Q] by (auto simp: less_Suc_eq_le)
qed simp

lemma length_update_where [simp]: "length (update_where P f xs) = length xs"
  by (simp add: update_where_def)

lemma update_where_Nil [simp]: "update_where P f [] = []"
  by (simp add: update_where_def)

lemma update_where_Cons [simp]:
  "update_where P f (x # xs) = (if P x then f x else x) # update_where P f xs"
  by (simp add: update_where_def)

lemma update_where_append [simp]:
  "update_where P f (xs @ ys) = update_where P f xs @ update_where P f ys"
  by (simp add: update_where_def)

lemma set_update_where: "set (update_where P f xs) = (\<lambda>x. if P x then f x else x) ` set xs"
  by (simp add: update_where_def)

lemma map_update_where:
  "(\<And>x. g (f x) = g x) \<Longrightarrow> map g (update_where P f xs) = map g xs"
  by (induction xs) auto

lemma count_where_update_where:
  "count_where Q (update_where P f xs) = count_where (\<lambda>x. if P x then Q (f x) else Q x) xs"
  by (induction xs) auto

lemma update_where_none: "(\<And>x. x \<in> set xs \<Longrightarrow> \<not> P x) \<Longrightarrow> update_where P f xs = xs"
  by (induction xs) auto

lemma update_where_same: "(\<And>x. x \<in> set xs \<Longrightarrow> P x \<Longrightarrow> f x = x) \<Longrightarrow> update_where P f xs = xs"
  by (induction xs) auto

lemma find_update_where:
  "(\<And>x. Q (f x) \<longleftrightarrow> Q x) \<Longrightarrow>
   find Q (update_where P f xs) = map_option (\<lambda>x. if P x then f x else x) (find Q xs)"
  by (induction xs) auto

lemma list_ex_update_where:
  "(\<And>x. Q (f x) \<longleftrightarrow> Q x) \<Longrightarrow> list_ex Q (update_where P f xs) \<longleftrightarrow> list_ex Q xs"
  by (induction xs) auto

lemma find_SomeD: "find P xs = Some x \<Longrightarrow> x \<in> set xs \<and> P x"
  by (auto simp: find_Some_iff)

lemma find_exists: "x \<in> set xs \<Longrightarrow> P x \<Longrightarrow> \<exists>y. find P xs = Some y"
  by (induction xs) auto

lemma find_unique:
  assumes "x \<in> set xs" and "P x" and "\<And>y. y \<in> set xs \<Longrightarrow> P y \<Longrightarrow> y = x"
  shows "find P xs = Some x"
  using find_exists [OF assms(1), of P] assms by (metis find_SomeD)

lemma find_append: "find P (xs @ ys) = (case find P xs of None \<Rightarrow> find P ys | Some x \<Rightarrow> Some x)"
  by (induction xs) auto

lemma find_map_same: "(\<And>x. P (f x) = P x) \<Longrightarrow> find P (map f xs) = map_option f (find P xs)"
  by (induction xs) auto

lemma count_where_filter: "count_where P (filter Q xs) = count_where (\<lambda>x. Q x \<and> P x) xs"
  by (induction xs) auto

lemma count_where_map: "count_where P (map f xs) = count_where (\<lambda>x. P (f x)) xs"
  by (induction xs) auto

lemma count_where_same_iff:
  assumes "\<And>x. x \<in> set xs \<Longrightarrow> P x \<Longrightarrow> Q x"
  shows "count_where Q xs \<le> count_where P xs \<longleftrightarrow> (\<forall>x\<in>set xs. Q x \<longrightarrow> P x)"
  using assms
proof (induction xs)
  case (Cons x xs)
  then have "count_where P xs \<le> count_where Q xs" by (intro count_where_le_imp) simp
  with Cons show ?case by auto
qed simp

lemma filter_update_where:
  "(\<And>x. Q (f x) \<longleftrightarrow> Q x) \<Longrightarrow> filter Q (update_where P f xs) = update_where P f (filter Q xs)"
  by (induction xs) auto

lemma fold_max_eq: "fold max xs (x::int) = Max (set (x # xs))"
  by (simp add: Max.set_eq_fold [symmetric])

lemma max_or_zero_ge: "x \<in> set xs \<Longrightarrow> x \<le> max_or_zero xs"
  by (cases xs) (auto simp: fold_max_eq)

lemma max_or_zero_in: "xs \<noteq> [] \<Longrightarrow> max_or_zero xs \<in> set xs"
  using Max_in [of "set xs"] by (cases xs) (auto simp: fold_max_eq)

lemma max_or_zero_mono:
  assumes "set xs \<subseteq> set ys" and "\<And>y. y \<in> set ys \<Longrightarrow> 0 \<le> y"
  shows "max_or_zero xs \<le> max_or_zero ys"
proof (cases "xs = []")
  case True
  show ?thesis
  proof (cases "ys = []")
    case False
    with assms(2) True show ?thesis using max_or_zero_in [of ys] by auto
  qed (simp add: True)
next
  case False
  then show ?thesis using assms(1) max_or_zero_in [of xs] by (blast intro: max_or_zero_ge)
qed

lemma first_row_Some: "first_row xs = Some x \<Longrightarrow> x \<in> set xs"
  by (cases xs) auto

lemma first_row_None [simp]: "first_row xs = None \<longleftrightarrow> xs = []"
  by (cases xs) auto

lemma first_row_order_by:
  assumes "first_row (order_by k xs) = Some x" and "y \<in> set xs"
  shows "k x \<le> k y"
proof -
  from assms(1) obtain ys where ys: "order_by k xs = x # ys"
    by (cases "order_by k xs") auto
  have "sorted (map k (order_by k xs))" by (simp add: order_by_def)
  with ys have "\<forall>z\<in>set ys. k x \<le> k z" by simp
  moreover from assms(2) ys have "y = x \<or> y \<in> set ys"
    using set_order_by [of k xs] by auto
  ultimately show ?thesis by auto
qed

end
