(* ===== verification/Domain.thy ===== *)
theory Domain
  imports Prelude
begin

text \<open>
  The domain types of \<open>crates/chatbotchat-core/src\<close>: rooms and their configuration
  (\<open>room.rs\<close>), messages (\<open>message.rs\<close>), participants (\<open>participant.rs\<close>) and lifecycle events
  (\<open>event.rs\<close>), each enumeration with its wire word and parser. The locale \<open>wire_words\<close> states
  what a word/parser pair promises, and every enumeration interprets it.
\<close>

section \<open>Words on the wire\<close>

locale wire_words =
  fixes as_str :: "'e \<Rightarrow> string" and parse :: "string \<Rightarrow> 'e option"
  assumes parse_as_str: "parse (as_str e) = Some e"
    and parse_sound: "parse s = Some e \<Longrightarrow> as_str e = s"
begin

lemma parse_iff: "parse s = Some e \<longleftrightarrow> s = as_str e"
  using parse_as_str parse_sound by auto

lemma as_str_inject: "as_str e = as_str f \<longleftrightarrow> e = f"
  by (metis option.inject parse_as_str)

lemma parse_rejects: "parse s = None \<longleftrightarrow> s \<notin> range as_str"
  by (cases "parse s") (auto simp: parse_as_str dest!: parse_sound)

end

section \<open>Rooms\<close>

datatype RoomState = Active | Idle | Paused | Stale | Closed | Archived

fun RoomState_as_str :: "RoomState \<Rightarrow> string" where
  "RoomState_as_str Active = ''active''"
| "RoomState_as_str Idle = ''idle''"
| "RoomState_as_str Paused = ''paused''"
| "RoomState_as_str Stale = ''stale''"
| "RoomState_as_str Closed = ''closed''"
| "RoomState_as_str Archived = ''archived''"

datatype CloseQuorum = QAll | QMajority

text \<open>\<open>usize\<close> counts of table rows stay far below the word size; they are naturals.\<close>

fun CloseQuorum_needed :: "CloseQuorum \<Rightarrow> nat \<Rightarrow> nat" where
  "CloseQuorum_needed QAll live = max live 1"
| "CloseQuorum_needed QMajority live = max (live div 2 + 1) 1"

record RoomConfig =
  hard_cap :: u32
  soft_cap :: u32
  close_quorum :: CloseQuorum

definition RoomConfig_default :: RoomConfig where
  "RoomConfig_default = \<lparr>hard_cap = 20, soft_cap = 4, close_quorum = QAll\<rparr>"

text \<open>
  A room, over the type of its configuration: \<open>RoomConfig\<close> in memory, and the JSON object the
  \<open>config\<close> column holds in the database (see the storage theory).
\<close>

record 'c room_of =
  r_id :: string
  subject :: string
  started_at :: time
  last_activity_at :: time
  r_state :: RoomState
  state_changed_at :: time
  config :: 'c
  prev_room_id :: "string option"

type_synonym Room = "RoomConfig room_of"

section \<open>Participants\<close>

record Participant =
  p_handle :: string
  p_room_id :: string
  repo :: string
  model :: string
  cwd :: string
  p_instance :: string
  joined_at :: time
  last_poll_at :: time
  last_read_seq :: int
  nickname :: "string option"
  wants_close_at :: "time option"
  wants_extend_at :: "time option"

text \<open>A participant to evaluate examples with.\<close>

definition sample_participant :: "string \<Rightarrow> string \<Rightarrow> string \<Rightarrow> time \<Rightarrow> Participant" where
  "sample_participant h rid inst t =
     \<lparr>p_handle = h, p_room_id = rid, repo = ''repo'', model = ''m'', cwd = ''/w'', p_instance = inst,
      joined_at = t, last_poll_at = t, last_read_seq = 0, nickname = None,
      wants_close_at = None, wants_extend_at = None\<rparr>"

section \<open>Messages\<close>

datatype MessageType = Msg | WaitingUser | BlockerRealWork | Fold | CloseMsg | ExtendMsg

fun MessageType_as_str :: "MessageType \<Rightarrow> string" where
  "MessageType_as_str Msg = ''msg''"
| "MessageType_as_str WaitingUser = ''waiting_user''"
| "MessageType_as_str BlockerRealWork = ''blocker_real_work''"
| "MessageType_as_str Fold = ''fold''"
| "MessageType_as_str CloseMsg = ''close''"
| "MessageType_as_str ExtendMsg = ''extend''"

definition MessageType_parse :: "string \<Rightarrow> MessageType option" where
  "MessageType_parse s =
     (if s = ''msg'' then Some Msg
      else if s = ''waiting_user'' then Some WaitingUser
      else if s = ''blocker_real_work'' then Some BlockerRealWork
      else if s = ''fold'' then Some Fold
      else if s = ''close'' then Some CloseMsg
      else if s = ''extend'' then Some ExtendMsg
      else None)"

datatype Severity = Low | Med | High

fun Severity_as_str :: "Severity \<Rightarrow> string" where
  "Severity_as_str Low = ''low''"
| "Severity_as_str Med = ''med''"
| "Severity_as_str High = ''high''"

definition Severity_parse :: "string \<Rightarrow> Severity option" where
  "Severity_parse s =
     (if s = ''low'' then Some Low
      else if s = ''med'' then Some Med
      else if s = ''high'' then Some High
      else None)"

text \<open>Severities are ordered by urgency.\<close>

fun severity_rank :: "Severity \<Rightarrow> nat" where
  "severity_rank Low = 0"
| "severity_rank Med = 1"
| "severity_rank High = 2"

instantiation Severity :: linorder
begin

definition less_eq_Severity :: "Severity \<Rightarrow> Severity \<Rightarrow> bool" where
  "less_eq_Severity a b \<longleftrightarrow> severity_rank a \<le> severity_rank b"

definition less_Severity :: "Severity \<Rightarrow> Severity \<Rightarrow> bool" where
  "less_Severity a b \<longleftrightarrow> severity_rank a < severity_rank b"

instance
proof
  fix a b :: Severity
  assume "a \<le> b" and "b \<le> a"
  then show "a = b" by (cases a; cases b; simp add: less_eq_Severity_def)
qed (auto simp: less_eq_Severity_def less_Severity_def)

end

record Message =
  m_seq :: int
  m_room_id :: string
  sender :: string
  recipient :: "string option"
  m_body :: string
  created_at :: time
  msg_type :: MessageType
  from_human :: bool
  severity :: "Severity option"
  question_text :: "string option"

section \<open>Events\<close>

datatype EventKind = TransitionEvent | ArchiveEvent

fun EventKind_as_str :: "EventKind \<Rightarrow> string" where
  "EventKind_as_str TransitionEvent = ''transition''"
| "EventKind_as_str ArchiveEvent = ''archive''"

definition EventKind_parse :: "string \<Rightarrow> EventKind option" where
  "EventKind_parse s =
     (if s = ''transition'' then Some TransitionEvent
      else if s = ''archive'' then Some ArchiveEvent
      else None)"

record Event =
  e_id :: int
  e_room_id :: string
  kind :: EventKind
  from_state :: "RoomState option"
  to_state :: "RoomState option"
  detail :: "string option"
  e_at :: time

section \<open>Storage errors\<close>

text \<open>
  \<open>StorageError\<close> of \<open>storage.rs\<close>. A database error is split by what \<open>is_unique_violation\<close> asks of
  it; of the remaining ones the model can meet a violated foreign key and a \<open>fetch_one\<close> without
  a row.
\<close>

datatype StorageError = UniqueViolation | ForeignKeyViolation | RowNotFound | Corrupt string

fun is_unique_violation :: "StorageError \<Rightarrow> bool" where
  "is_unique_violation UniqueViolation = True"
| "is_unique_violation _ = False"

definition parse_state :: "string \<Rightarrow> StorageError + RoomState" where
  "parse_state s =
     (if s = ''active'' then Inr Active
      else if s = ''idle'' then Inr Idle
      else if s = ''paused'' then Inr Paused
      else if s = ''stale'' then Inr Stale
      else if s = ''closed'' then Inr Closed
      else if s = ''archived'' then Inr Archived
      else Inl (Corrupt (''unknown room state: '' @ s)))"

fun ok_part :: "'e + 'a \<Rightarrow> 'a option" where
  "ok_part (Inl e) = None"
| "ok_part (Inr a) = Some a"

section \<open>Every enumeration keeps its words\<close>

interpretation room_state: wire_words RoomState_as_str "\<lambda>s. ok_part (parse_state s)"
proof
  show "ok_part (parse_state (RoomState_as_str e)) = Some e" for e
    by (cases e) (simp_all add: parse_state_def)
  show "ok_part (parse_state s) = Some e \<Longrightarrow> RoomState_as_str e = s" for s e
    by (auto simp: parse_state_def split: if_splits)
qed

interpretation message_type: wire_words MessageType_as_str MessageType_parse
proof
  show "MessageType_parse (MessageType_as_str e) = Some e" for e
    by (cases e) (simp_all add: MessageType_parse_def)
  show "MessageType_parse s = Some e \<Longrightarrow> MessageType_as_str e = s" for s e
    by (auto simp: MessageType_parse_def split: if_splits)
qed

interpretation severity_word: wire_words Severity_as_str Severity_parse
proof
  show "Severity_parse (Severity_as_str e) = Some e" for e
    by (cases e) (simp_all add: Severity_parse_def)
  show "Severity_parse s = Some e \<Longrightarrow> Severity_as_str e = s" for s e
    by (auto simp: Severity_parse_def split: if_splits)
qed

interpretation event_kind: wire_words EventKind_as_str EventKind_parse
proof
  show "EventKind_parse (EventKind_as_str e) = Some e" for e
    by (cases e) (simp_all add: EventKind_parse_def)
  show "EventKind_parse s = Some e \<Longrightarrow> EventKind_as_str e = s" for s e
    by (auto simp: EventKind_parse_def split: if_splits)
qed

lemma parse_state_as_str [wire_simps]: "parse_state (RoomState_as_str e) = Inr e"
  by (cases e) (simp_all add: parse_state_def)

lemmas words_parse [wire_simps] =
  message_type.parse_as_str severity_word.parse_as_str event_kind.parse_as_str

section \<open>Quorum\<close>

text \<open>
  What the consensus operations rely on in a quorum policy: at least one vote, never more votes
  than there are live participants (unless none is live), and a full set of live votes is enough.
\<close>

locale quorum_policy =
  fixes needed :: "nat \<Rightarrow> nat"
  assumes needed_pos: "0 < needed live"
    and needed_le: "0 < live \<Longrightarrow> needed live \<le> live"
begin

lemma unanimous: "0 < live \<Longrightarrow> votes = live \<Longrightarrow> needed live \<le> votes"
  using needed_le by blast

lemma no_votes: "votes = 0 \<Longrightarrow> \<not> needed live \<le> votes"
  using needed_pos [of live] by simp

lemma lone_voter: "needed 1 \<le> (1::nat)"
  using needed_le [of 1] by simp

end

interpretation quorum: quorum_policy "CloseQuorum_needed q"
  by unfold_locales (cases q; simp)+

lemma needed_all_iff: "0 < live \<Longrightarrow> votes \<le> live \<Longrightarrow>
    CloseQuorum_needed QAll live \<le> votes \<longleftrightarrow> votes = live"
  by auto

lemma needed_majority_iff: "CloseQuorum_needed QMajority live \<le> votes \<longleftrightarrow> live < 2 * votes"
  by (simp add: less_mult_imp_div_less Suc_le_eq) (auto simp: less_eq_div_iff_mult_less_eq)

end
