(* ===== verification/Storage.thy ===== *)
theory Storage
  imports Domain
begin

text \<open>
  \<open>crates/chatbotchat-core/src/storage.rs\<close> and \<open>migrations/\<close>: the four tables and every storage
  operation, each the atomic effect of its SQL statement or transaction.

  A table is the list of its rows in insertion order. Timestamps are stored as RFC 3339 text and
  compared as text inside SQL; the formatter belongs to the \<open>time\<close> crate and is the argument
  \<open>fmt\<close> of exactly the operations whose SQL compares or orders timestamps. The \<open>config\<close> column is
  a JSON object whose numbers are unbounded for SQLite and \<open>u32\<close> for the program.
\<close>

section \<open>Tables\<close>

record JsonConfig =
  j_hard_cap :: int
  j_soft_cap :: int
  j_close_quorum :: CloseQuorum

type_synonym RoomRow = "JsonConfig room_of"

record Db =
  rooms :: "RoomRow list"
  participants :: "Participant list"
  messages :: "Message list"
  events :: "Event list"

definition empty_db :: Db where
  "empty_db = \<lparr>rooms = [], participants = [], messages = [], events = []\<rparr>"

text \<open>\<open>serde_json\<close>: a \<open>RoomConfig\<close> is written as it is, and read back only if its caps fit \<open>u32\<close>.\<close>

definition config_to_json :: "RoomConfig \<Rightarrow> JsonConfig" where
  "config_to_json c =
     \<lparr>j_hard_cap = uint (hard_cap c), j_soft_cap = uint (soft_cap c), j_close_quorum = close_quorum c\<rparr>"

definition fits_u32 :: "int \<Rightarrow> bool" where
  "fits_u32 n \<longleftrightarrow> 0 \<le> n \<and> n < 2 ^ 32"

definition config_from_json :: "JsonConfig \<Rightarrow> StorageError + RoomConfig" where
  "config_from_json j =
     (if fits_u32 (j_hard_cap j) \<and> fits_u32 (j_soft_cap j)
      then Inr \<lparr>hard_cap = word_of_int (j_hard_cap j), soft_cap = word_of_int (j_soft_cap j),
                close_quorum = j_close_quorum j\<rparr>
      else Inl (Corrupt ''config json: invalid value''))"

definition with_config :: "'c room_of \<Rightarrow> 'd \<Rightarrow> 'd room_of" where
  "with_config r c =
     \<lparr>r_id = r_id r, subject = subject r, started_at = started_at r,
      last_activity_at = last_activity_at r, r_state = r_state r,
      state_changed_at = state_changed_at r, config = c, prev_room_id = prev_room_id r\<rparr>"

definition room_to_row :: "Room \<Rightarrow> RoomRow" where
  "room_to_row r = with_config r (config_to_json (config r))"

definition row_to_room :: "RoomRow \<Rightarrow> StorageError + Room" where
  "row_to_room row =
     (case config_from_json (config row) of Inl e \<Rightarrow> Inl e | Inr c \<Rightarrow> Inr (with_config row c))"

text \<open>Collecting a list of results stops at the first error.\<close>

fun collect :: "('e + 'a) list \<Rightarrow> 'e + 'a list" where
  "collect [] = Inr []"
| "collect (Inl e # rs) = Inl e"
| "collect (Inr a # rs) = (case collect rs of Inl e \<Rightarrow> Inl e | Inr as \<Rightarrow> Inr (a # as))"

definition room_exists :: "Db \<Rightarrow> string \<Rightarrow> bool" where
  "room_exists d rid = list_ex (\<lambda>r. r_id r = rid) (rooms d)"

section \<open>Rooms\<close>

definition create_room :: "Room \<Rightarrow> Db \<Rightarrow> (StorageError + unit) \<times> Db" where
  "create_room room d =
     (if room_exists d (r_id room) then (Inl UniqueViolation, d)
      else (Inr (), d\<lparr>rooms := rooms d @ [room_to_row room]\<rparr>))"

definition get_room :: "string \<Rightarrow> Db \<Rightarrow> StorageError + Room option" where
  "get_room rid d =
     (case find (\<lambda>r. r_id r = rid) (rooms d) of
        None \<Rightarrow> Inr None
      | Some row \<Rightarrow> (case row_to_room row of Inl e \<Rightarrow> Inl e | Inr r \<Rightarrow> Inr (Some r)))"

definition touch_last_activity :: "string \<Rightarrow> time \<Rightarrow> Db \<Rightarrow> (StorageError + unit) \<times> Db" where
  "touch_last_activity rid now d =
     (Inr (), d\<lparr>rooms := update_where (\<lambda>r. r_id r = rid) (\<lambda>r. r\<lparr>last_activity_at := now\<rparr>) (rooms d)\<rparr>)"

definition list_rooms_for_sweep :: "Db \<Rightarrow> StorageError + Room list" where
  "list_rooms_for_sweep d = collect (map row_to_room (filter (\<lambda>r. r_state r \<noteq> Archived) (rooms d)))"

record RoomSummaryRow =
  s_room :: Room
  s_participant_count :: int

definition list_rooms ::
  "(time \<Rightarrow> string) \<Rightarrow> RoomState option \<Rightarrow> bool \<Rightarrow> Db \<Rightarrow> StorageError + RoomSummaryRow list" where
  "list_rooms fmt state all d =
     (let wanted = (case (state, all) of
            (Some s, _) \<Rightarrow> filter (\<lambda>r. r_state r = s) (rooms d)
          | (None, True) \<Rightarrow> rooms d
          | (None, False) \<Rightarrow> filter (\<lambda>r. r_state r \<noteq> Archived) (rooms d))
      in collect (map (\<lambda>row. case row_to_room row of
            Inl e \<Rightarrow> Inl e
          | Inr r \<Rightarrow> Inr \<lparr>s_room = r, s_participant_count =
              int (count_where (\<lambda>p. p_room_id p = r_id row) (participants d))\<rparr>)
          (order_by_desc (\<lambda>r. fmt (last_activity_at r)) wanted)))"

section \<open>Events and state changes\<close>

definition insert_event_row ::
  "string \<Rightarrow> EventKind \<Rightarrow> RoomState option \<Rightarrow> RoomState option \<Rightarrow> string option \<Rightarrow> time \<Rightarrow>
   Db \<Rightarrow> (StorageError + unit) \<times> Db" where
  "insert_event_row rid k from_s to_s det at d =
     (if \<not> room_exists d rid then (Inl ForeignKeyViolation, d)
      else (Inr (), d\<lparr>events := events d @
        [\<lparr>e_id = max_or_zero (map e_id (events d)) + 1, e_room_id = rid, kind = k,
          from_state = from_s, to_state = to_s, detail = det, e_at = at\<rparr>]\<rparr>))"

definition insert_event ::
  "string \<Rightarrow> EventKind \<Rightarrow> RoomState option \<Rightarrow> RoomState option \<Rightarrow> string option \<Rightarrow> time \<Rightarrow>
   Db \<Rightarrow> (StorageError + unit) \<times> Db" where
  "insert_event = insert_event_row"

definition list_events :: "string \<Rightarrow> Db \<Rightarrow> Event list" where
  "list_events rid d = order_by e_id (filter (\<lambda>e. e_room_id e = rid) (events d))"

text \<open>
  The compare-and-set on the state and its audit row are one transaction: if the row cannot be
  written, the whole change is rolled back.
\<close>

definition update_room_state ::
  "string \<Rightarrow> RoomState \<Rightarrow> RoomState \<Rightarrow> time \<Rightarrow> string option \<Rightarrow>
   Db \<Rightarrow> (StorageError + bool) \<times> Db" where
  "update_room_state rid from_s to_s now det d =
     (let hit = (\<lambda>r. r_id r = rid \<and> r_state r = from_s)
      in if count_where hit (rooms d) = 0 then (Inr False, d)
         else
           (let d1 = d\<lparr>rooms := update_where hit
                  (\<lambda>r. r\<lparr>r_state := to_s, state_changed_at := now\<rparr>) (rooms d)\<rparr>;
                k = (if to_s = Archived then ArchiveEvent else TransitionEvent)
            in case insert_event_row rid k (Some from_s) (Some to_s) det now d1 of
                 (Inl e, _) \<Rightarrow> (Inl e, d)
               | (Inr _, d2) \<Rightarrow> (Inr True, d2)))"

section \<open>Participants\<close>

definition create_participant :: "Participant \<Rightarrow> Db \<Rightarrow> (StorageError + unit) \<times> Db" where
  "create_participant p d =
     (if list_ex (\<lambda>q. p_handle q = p_handle p \<or>
           p_room_id q = p_room_id p \<and> p_instance q = p_instance p) (participants d)
      then (Inl UniqueViolation, d)
      else if \<not> room_exists d (p_room_id p) then (Inl ForeignKeyViolation, d)
      else (Inr (), d\<lparr>participants := participants d @ [p]\<rparr>))"

definition update_participant ::
  "string \<Rightarrow> (Participant \<Rightarrow> Participant) \<Rightarrow> Db \<Rightarrow> (StorageError + unit) \<times> Db" where
  "update_participant h f d =
     (Inr (), d\<lparr>participants := update_where (\<lambda>p. p_handle p = h) f (participants d)\<rparr>)"

definition set_nickname :: "string \<Rightarrow> string option \<Rightarrow> Db \<Rightarrow> (StorageError + unit) \<times> Db" where
  "set_nickname h n = update_participant h (\<lambda>p. p\<lparr>nickname := n\<rparr>)"

definition set_close_vote :: "string \<Rightarrow> time option \<Rightarrow> Db \<Rightarrow> (StorageError + unit) \<times> Db" where
  "set_close_vote h at = update_participant h (\<lambda>p. p\<lparr>wants_close_at := at\<rparr>)"

definition clear_close_votes :: "string \<Rightarrow> Db \<Rightarrow> (StorageError + unit) \<times> Db" where
  "clear_close_votes rid d =
     (Inr (), d\<lparr>participants :=
        update_where (\<lambda>p. p_room_id p = rid) (\<lambda>p. p\<lparr>wants_close_at := None\<rparr>) (participants d)\<rparr>)"

definition clear_extend_vote :: "string \<Rightarrow> Db \<Rightarrow> (StorageError + unit) \<times> Db" where
  "clear_extend_vote h = update_participant h (\<lambda>p. p\<lparr>wants_extend_at := None\<rparr>)"

definition touch_last_poll :: "string \<Rightarrow> time \<Rightarrow> Db \<Rightarrow> (StorageError + unit) \<times> Db" where
  "touch_last_poll h now = update_participant h (\<lambda>p. p\<lparr>last_poll_at := now\<rparr>)"

definition get_participant_by_instance :: "string \<Rightarrow> string \<Rightarrow> Db \<Rightarrow> Participant option" where
  "get_participant_by_instance rid inst d =
     find (\<lambda>p. p_room_id p = rid \<and> p_instance p = inst) (participants d)"

definition get_participant_by_handle :: "string \<Rightarrow> string \<Rightarrow> Db \<Rightarrow> Participant option" where
  "get_participant_by_handle rid h d =
     find (\<lambda>p. p_room_id p = rid \<and> p_handle p = h) (participants d)"

definition get_participant_by_tuple ::
  "string \<Rightarrow> string \<Rightarrow> string \<Rightarrow> string \<Rightarrow> Db \<Rightarrow> Participant option" where
  "get_participant_by_tuple rid rp mo cw d =
     find (\<lambda>p. p_room_id p = rid \<and> repo p = rp \<and> model p = mo \<and> cwd p = cw) (participants d)"

definition list_participants :: "(time \<Rightarrow> string) \<Rightarrow> string \<Rightarrow> Db \<Rightarrow> Participant list" where
  "list_participants fmt rid d =
     order_by (\<lambda>p. fmt (joined_at p)) (filter (\<lambda>p. p_room_id p = rid) (participants d))"

definition prune_stale_participants ::
  "(time \<Rightarrow> string) \<Rightarrow> string \<Rightarrow> time \<Rightarrow> Db \<Rightarrow> (StorageError + nat) \<times> Db" where
  "prune_stale_participants fmt rid cutoff d =
     (let gone = (\<lambda>p. p_room_id p = rid \<and> fmt (last_poll_at p) < fmt cutoff)
      in (Inr (count_where gone (participants d)),
          d\<lparr>participants := filter (\<lambda>p. \<not> gone p) (participants d)\<rparr>))"

datatype ExtendOutcome = Extended u32 | Proposed u32 u32

text \<open>
  \<open>try_extend\<close> is one transaction: the vote, the two counts and, when the quorum is met, the bump
  of the cap inside the JSON text and the reset of every extend vote of the room.
\<close>

definition try_extend ::
  "(time \<Rightarrow> string) \<Rightarrow> string \<Rightarrow> string \<Rightarrow> u32 \<Rightarrow> time \<Rightarrow> time \<Rightarrow> CloseQuorum \<Rightarrow>
   Db \<Rightarrow> (StorageError + ExtendOutcome) \<times> Db" where
  "try_extend fmt rid voter_handle step now ghost_cutoff quorum d =
     (let ps = update_where (\<lambda>p. p_handle p = voter_handle)
                 (\<lambda>p. p\<lparr>wants_extend_at := Some now, last_poll_at := now\<rparr>) (participants d);
          is_live = (\<lambda>p. p_room_id p = rid \<and> fmt ghost_cutoff \<le> fmt (last_poll_at p));
          live = count_where is_live ps;
          voted = count_where (\<lambda>p. is_live p \<and> wants_extend_at p \<noteq> None) ps;
          needed = CloseQuorum_needed quorum live
      in if needed \<le> voted then
           (case find (\<lambda>r. r_id r = rid) (rooms d) of
              None \<Rightarrow> (Inl RowNotFound, d)
            | Some row \<Rightarrow>
                (let new_cap = j_hard_cap (config row) + uint step
                 in (Inr (Extended (word_of_int (max new_cap 0))),
                     d\<lparr>rooms := update_where (\<lambda>r. r_id r = rid)
                          (\<lambda>r. r\<lparr>config := (config r)\<lparr>j_hard_cap := j_hard_cap (config r) + uint step\<rparr>\<rparr>)
                          (rooms d),
                       participants := update_where (\<lambda>p. p_room_id p = rid)
                          (\<lambda>p. p\<lparr>wants_extend_at := None\<rparr>) ps\<rparr>)))
         else (Inr (Proposed (of_nat voted) (of_nat needed)), d\<lparr>participants := ps\<rparr>))"

section \<open>Messages\<close>

definition next_seq :: "Db \<Rightarrow> int" where
  "next_seq d = max_or_zero (map m_seq (messages d)) + 1"

definition insert_message :: "Message \<Rightarrow> Db \<Rightarrow> (StorageError + Message) \<times> Db" where
  "insert_message m d =
     (if \<not> room_exists d (m_room_id m) then (Inl ForeignKeyViolation, d)
      else (let m' = m\<lparr>m_seq := next_seq d\<rparr> in (Inr m', d\<lparr>messages := messages d @ [m']\<rparr>)))"

definition create_message ::
  "string \<Rightarrow> string \<Rightarrow> string option \<Rightarrow> string \<Rightarrow> time \<Rightarrow> Db \<Rightarrow> (StorageError + Message) \<times> Db" where
  "create_message rid from_h rcp bdy at =
     insert_message \<lparr>m_seq = 0, m_room_id = rid, sender = from_h, recipient = rcp, m_body = bdy,
       created_at = at, msg_type = Msg, from_human = False, severity = None, question_text = None\<rparr>"

definition create_message_typed ::
  "string \<Rightarrow> string \<Rightarrow> string option \<Rightarrow> string \<Rightarrow> time \<Rightarrow> MessageType \<Rightarrow> Severity option \<Rightarrow>
   string option \<Rightarrow> Db \<Rightarrow> (StorageError + Message) \<times> Db" where
  "create_message_typed rid from_h rcp bdy at mt sev qt =
     insert_message \<lparr>m_seq = 0, m_room_id = rid, sender = from_h, recipient = rcp, m_body = bdy,
       created_at = at, msg_type = mt, from_human = False, severity = sev, question_text = qt\<rparr>"

definition cap_counting :: "string \<Rightarrow> Message \<Rightarrow> bool" where
  "cap_counting rid m \<longleftrightarrow> m_room_id m = rid \<and> msg_type m = Msg"

definition count_capped_messages :: "string \<Rightarrow> Db \<Rightarrow> int" where
  "count_capped_messages rid d = int (count_where (cap_counting rid) (messages d))"

definition create_message_capped ::
  "string \<Rightarrow> string \<Rightarrow> string option \<Rightarrow> string \<Rightarrow> time \<Rightarrow> bool \<Rightarrow> int \<Rightarrow>
   Db \<Rightarrow> (StorageError + Message option) \<times> Db" where
  "create_message_capped rid from_h rcp bdy at human cap d =
     (if \<not> count_capped_messages rid d < cap then (Inr None, d)
      else (case insert_message \<lparr>m_seq = 0, m_room_id = rid, sender = from_h, recipient = rcp,
                m_body = bdy, created_at = at, msg_type = Msg, from_human = human,
                severity = None, question_text = None\<rparr> d of
              (Inl e, d') \<Rightarrow> (Inl e, d')
            | (Inr m, d') \<Rightarrow> (Inr (Some m), d')))"

definition addressed_to :: "string \<Rightarrow> Message \<Rightarrow> bool" where
  "addressed_to h m \<longleftrightarrow> sender m \<noteq> h \<and> (recipient m = None \<or> recipient m = Some h)"

definition next_unread :: "string \<Rightarrow> string \<Rightarrow> int \<Rightarrow> Db \<Rightarrow> Message option" where
  "next_unread rid h after_seq d =
     first_row (order_by m_seq
       (filter (\<lambda>m. m_room_id m = rid \<and> after_seq < m_seq m \<and> addressed_to h m) (messages d)))"

definition latest_message_from_other :: "string \<Rightarrow> string \<Rightarrow> Db \<Rightarrow> Message option" where
  "latest_message_from_other rid h d =
     first_row (order_by_desc m_seq
       (filter (\<lambda>m. m_room_id m = rid \<and> sender m \<noteq> h) (messages d)))"

definition room_latest_message :: "string \<Rightarrow> Db \<Rightarrow> Message option" where
  "room_latest_message rid d =
     first_row (order_by_desc m_seq (filter (\<lambda>m. m_room_id m = rid) (messages d)))"

definition current_seq :: "string \<Rightarrow> Db \<Rightarrow> int" where
  "current_seq rid d = max_or_zero (map m_seq (filter (\<lambda>m. m_room_id m = rid) (messages d)))"

text \<open>The rows that end a run of autonomous turns.\<close>

definition resets_run :: "Message \<Rightarrow> bool" where
  "resets_run m \<longleftrightarrow> msg_type m = Msg \<and> from_human m \<or> msg_type m = WaitingUser"

definition consecutive_msg_count :: "string \<Rightarrow> int \<Rightarrow> Db \<Rightarrow> int" where
  "consecutive_msg_count rid up_to_seq d =
     (let boundary = max_or_zero (map m_seq (filter
            (\<lambda>m. m_room_id m = rid \<and> m_seq m \<le> up_to_seq \<and> resets_run m) (messages d)))
      in int (count_where (\<lambda>m. m_room_id m = rid \<and> msg_type m = Msg \<and> \<not> from_human m \<and>
            m_seq m \<le> up_to_seq \<and> boundary < m_seq m) (messages d)))"

text \<open>A negative \<open>LIMIT\<close> would mean no limit to SQLite; the callers pass the constant 50.\<close>

definition recent_messages_up_to :: "string \<Rightarrow> int \<Rightarrow> nat \<Rightarrow> Db \<Rightarrow> Message list" where
  "recent_messages_up_to rid max_seq limit d =
     rev (take limit (order_by_desc m_seq
       (filter (\<lambda>m. m_room_id m = rid \<and> m_seq m \<le> max_seq) (messages d))))"

definition recent_messages :: "string \<Rightarrow> nat \<Rightarrow> Db \<Rightarrow> Message list" where
  "recent_messages rid limit = recent_messages_up_to rid (2 ^ 63 - 1) limit"

definition all_messages :: "string \<Rightarrow> Db \<Rightarrow> Message list" where
  "all_messages rid d = order_by m_seq (filter (\<lambda>m. m_room_id m = rid) (messages d))"

section \<open>Read cursors\<close>

definition read_cursor :: "string \<Rightarrow> Db \<Rightarrow> int option" where
  "read_cursor h d = map_option last_read_seq (find (\<lambda>p. p_handle p = h) (participants d))"

text \<open>The compare-and-swap of \<open>claim_next_unread\<close>: true iff exactly one row moved.\<close>

definition swap_cursor :: "string \<Rightarrow> int \<Rightarrow> int \<Rightarrow> Db \<Rightarrow> (StorageError + bool) \<times> Db" where
  "swap_cursor h old new d =
     (let hit = (\<lambda>p. p_handle p = h \<and> last_read_seq p = old)
      in (Inr (count_where hit (participants d) = 1),
          d\<lparr>participants := update_where hit (\<lambda>p. p\<lparr>last_read_seq := new\<rparr>) (participants d)\<rparr>))"

end
