(* ===== verification/Lifecycle.thy ===== *)
theory Lifecycle
  imports Domain
begin

text \<open>
  \<open>crates/chatbotchat-core/src/lifecycle.rs\<close>: the transition table of a room, the time windows and
  the event that elapsed time implies. The table is also read as a step relation, whose reachable
  states give the life of a room; the sweeper and the handlers only move along it.
\<close>

datatype LifecycleEvent =
  EvMessage | EvPause | EvWake | EvClose | EvIdle | EvStale | EvArchive | EvGhostAllStale

record IllegalTransition =
  it_from :: RoomState
  it_event :: LifecycleEvent

fun transition :: "RoomState \<Rightarrow> LifecycleEvent \<Rightarrow> IllegalTransition + RoomState" where
  "transition Active EvMessage = Inr Active"
| "transition Active EvPause = Inr Paused"
| "transition Active EvClose = Inr Closed"
| "transition Active EvIdle = Inr Idle"
| "transition Active EvGhostAllStale = Inr Idle"
| "transition Idle EvMessage = Inr Active"
| "transition Idle EvPause = Inr Paused"
| "transition Idle EvWake = Inr Active"
| "transition Idle EvClose = Inr Closed"
| "transition Idle EvStale = Inr Stale"
| "transition Paused EvWake = Inr Active"
| "transition Paused EvClose = Inr Closed"
| "transition Stale EvMessage = Inr Active"
| "transition Stale EvClose = Inr Closed"
| "transition Stale EvArchive = Inr Archived"
| "transition Closed EvArchive = Inr Archived"
| "transition s e = Inl \<lparr>it_from = s, it_event = e\<rparr>"

definition IDLE_AFTER :: time where "IDLE_AFTER = hours 24"
definition STALE_AFTER :: time where "STALE_AFTER = days 7"
definition ARCHIVE_AFTER :: time where "ARCHIVE_AFTER = days 14"
definition GHOST_AFTER :: time where "GHOST_AFTER = minutes 15"

lemmas windows = IDLE_AFTER_def STALE_AFTER_def ARCHIVE_AFTER_def GHOST_AFTER_def time_defs

definition no_live_poller :: "time list \<Rightarrow> time \<Rightarrow> bool" where
  "no_live_poller participants_last_poll now =
     list_all (\<lambda>last. now - last > GHOST_AFTER) participants_last_poll"

fun compute_time_event ::
  "RoomState \<Rightarrow> time \<Rightarrow> time \<Rightarrow> time list \<Rightarrow> time \<Rightarrow> LifecycleEvent option" where
  "compute_time_event Active last_activity changed_at polls now =
     (if now - last_activity \<ge> IDLE_AFTER then Some EvIdle
      else if polls \<noteq> [] \<and> no_live_poller polls now then Some EvGhostAllStale
      else None)"
| "compute_time_event Idle last_activity changed_at polls now =
     (if now - last_activity \<ge> STALE_AFTER \<and> no_live_poller polls now then Some EvStale else None)"
| "compute_time_event Stale last_activity changed_at polls now =
     (if now - changed_at \<ge> ARCHIVE_AFTER then Some EvArchive else None)"
| "compute_time_event Closed last_activity changed_at polls now =
     (if now - changed_at \<ge> ARCHIVE_AFTER then Some EvArchive else None)"
| "compute_time_event Paused last_activity changed_at polls now = None"
| "compute_time_event Archived last_activity changed_at polls now = None"

section \<open>The table as a step relation\<close>

inductive lc_step :: "RoomState \<Rightarrow> RoomState \<Rightarrow> bool" where
  "transition s e = Inr s' \<Longrightarrow> lc_step s s'"

definition legal_move :: "RoomState \<Rightarrow> RoomState \<Rightarrow> bool" where
  "legal_move s s' \<longleftrightarrow> (s, s') \<in>
     {(Active, Active), (Active, Paused), (Active, Closed), (Active, Idle),
      (Idle, Active), (Idle, Paused), (Idle, Closed), (Idle, Stale),
      (Paused, Active), (Paused, Closed),
      (Stale, Active), (Stale, Closed), (Stale, Archived), (Closed, Archived)}"

lemma transition_legal: "transition s e = Inr s' \<Longrightarrow> legal_move s s'"
  by (cases "(s, e)" rule: transition.cases) (auto simp: legal_move_def)

lemma legal_transition: "legal_move s s' \<Longrightarrow> \<exists>e. transition s e = Inr s'"
  unfolding legal_move_def by (auto intro: transition.simps)

lemma lc_step_iff: "lc_step s s' \<longleftrightarrow> legal_move s s'"
  by (auto simp: lc_step.simps intro: transition_legal dest: legal_transition)

inductive_simps lc_step_simps: "lc_step s s'"
inductive_cases lc_step_from_archived: "lc_step Archived s'"

fun is_terminal :: "RoomState \<Rightarrow> bool" where
  "is_terminal Closed = True"
| "is_terminal Archived = True"
| "is_terminal _ = False"

fun is_halted :: "RoomState \<Rightarrow> bool" where
  "is_halted Paused = True"
| "is_halted Closed = True"
| "is_halted Archived = True"
| "is_halted _ = False"

lemma terminal_halted: "is_terminal s \<Longrightarrow> is_halted s"
  by (cases s) auto

lemma legal_from_terminal: "is_terminal s \<Longrightarrow> legal_move s s' \<Longrightarrow> s' = Archived"
  by (cases s) (auto simp: legal_move_def)

lemma archived_stuck: "\<not> legal_move Archived s'"
  by (simp add: legal_move_def)

lemma lc_steps_from_terminal: "lc_step\<^sup>*\<^sup>* s s' \<Longrightarrow> is_terminal s \<Longrightarrow> s' = s \<or> s' = Archived"
proof (induction rule: rtranclp_induct)
  case (step y z)
  then have "is_terminal y" by (cases y) auto
  with step show ?case by (auto simp: lc_step_iff dest: legal_from_terminal)
qed simp

section \<open>Properties\<close>

text \<open>The life of a room. The states reachable from \<open>s\<close> along the transition table never leave
  a terminal state except from \<open>closed\<close> to \<open>archived\<close>: a closed room is never active, idle, paused
  or stale again, an archived one is final, and only \<open>stale\<close> and \<open>closed\<close> rooms are archived.\<close>

lemma terminal_states_are_final:
  assumes "lc_step\<^sup>*\<^sup>* s s'" and "is_terminal s"
  shows "(s' = s \<or> s' = Archived) \<and> (s = Archived \<longrightarrow> (\<forall>e. transition s' e = Inl \<lparr>it_from = Archived, it_event = e\<rparr>))"
proof -
  have "transition Archived e = Inl \<lparr>it_from = Archived, it_event = e\<rparr>" for e
    by (cases e) auto
  with lc_steps_from_terminal [OF assms] show ?thesis by auto
qed

text \<open>The sweeper's claim about \<open>compute_time_event\<close>: whatever it emits is legal in the room's
  current state (the defensive skip in \<open>sweep_once\<close> never happens), it moves the room to a
  different state, and a paused or archived room gets no event at all.\<close>

lemma time_events_are_legal:
  "case compute_time_event s last_activity changed_at polls now of
     None \<Rightarrow> True
   | Some e \<Rightarrow> \<exists>s'. transition s e = Inr s' \<and> s' \<noteq> s \<and> s \<noteq> Paused \<and> s \<noteq> Archived \<and>
       s' \<in> {Idle, Stale, Archived}"
  by (cases s) auto

text \<open>A room with a live poller: neither ghosted nor made stale.\<close>

lemma live_poller_blocks:
  assumes "poll \<in> set polls" and "now - poll \<le> GHOST_AFTER"
  shows "\<not> no_live_poller polls now"
  using assms by (force simp: no_live_poller_def list_all_iff)

text \<open>Liveness protects a room. While some participant has polled within the ghost window, time
  alone takes an active room to \<open>idle\<close> only by 24 hours without activity (never by the ghost rule)
  and never takes an idle room to \<open>stale\<close>.\<close>

lemma live_poller_protects:
  assumes "poll \<in> set polls" and "now - poll \<le> GHOST_AFTER"
  shows "compute_time_event Active la ca polls now =
           (if now - la \<ge> IDLE_AFTER then Some EvIdle else None) \<and>
         compute_time_event Idle la ca polls now = None"
  using live_poller_blocks [OF assms] by auto

end
