(* ===== verification/StorageInv.thy ===== *)
theory StorageInv
  imports Storage Lifecycle
begin

text \<open>
  What the storage operations promise: the tables stay well formed (\<open>wf_db\<close>: keys, references,
  sequence numbers, cursors, the hard cap and the audit log) and only evolve (\<open>evolves\<close>: rooms are
  never lost, caps only grow, states follow the transition table, messages and events are
  append-only). Each operation keeps both; the programs that call them inherit it.
\<close>

section \<open>Well-formed tables\<close>

definition room_ids :: "Db \<Rightarrow> string set" where
  "room_ids d = r_id ` set (rooms d)"

lemma room_exists_iff: "room_exists d rid \<longleftrightarrow> rid \<in> room_ids d"
  by (auto simp: room_exists_def room_ids_def list_ex_iff)

definition wf_rooms :: "Db \<Rightarrow> bool" where
  "wf_rooms d \<longleftrightarrow> distinct (map r_id (rooms d))"

definition top_seq :: "Db \<Rightarrow> int" where
  "top_seq d = max_or_zero (map m_seq (messages d))"

definition wf_participants :: "Db \<Rightarrow> bool" where
  "wf_participants d \<longleftrightarrow>
     distinct (map p_handle (participants d)) \<and>
     distinct (map (\<lambda>p. (p_room_id p, p_instance p)) (participants d)) \<and>
     (\<forall>p\<in>set (participants d). p_room_id p \<in> room_ids d \<and>
        0 \<le> last_read_seq p \<and> last_read_seq p \<le> top_seq d)"

definition wf_messages :: "Db \<Rightarrow> bool" where
  "wf_messages d \<longleftrightarrow>
     sorted_wrt (<) (map m_seq (messages d)) \<and>
     (\<forall>m\<in>set (messages d). 0 < m_seq m \<and> m_room_id m \<in> room_ids d)"

text \<open>The audit log of one room: a chain of legal moves from \<open>active\<close> to the current state, an
  \<open>archive\<close> row exactly for the moves into \<open>archived\<close>.\<close>

fun audit_chain :: "RoomState \<Rightarrow> Event list \<Rightarrow> RoomState \<Rightarrow> bool" where
  "audit_chain s [] t \<longleftrightarrow> s = t"
| "audit_chain s (e # es) t \<longleftrightarrow> from_state e = Some s \<and>
     (case to_state e of None \<Rightarrow> False | Some s' \<Rightarrow>
        legal_move s s' \<and> (kind e = ArchiveEvent \<longleftrightarrow> s' = Archived) \<and> audit_chain s' es t)"

definition room_events :: "string \<Rightarrow> Db \<Rightarrow> Event list" where
  "room_events rid d = filter (\<lambda>e. e_room_id e = rid) (events d)"

definition wf_events :: "Db \<Rightarrow> bool" where
  "wf_events d \<longleftrightarrow>
     sorted_wrt (<) (map e_id (events d)) \<and>
     (\<forall>e\<in>set (events d). 0 < e_id e \<and> e_room_id e \<in> room_ids d) \<and>
     (\<forall>r\<in>set (rooms d). audit_chain Active (room_events (r_id r) d) (r_state r))"

definition wf_caps :: "Db \<Rightarrow> bool" where
  "wf_caps d \<longleftrightarrow>
     (\<forall>r\<in>set (rooms d). count_capped_messages (r_id r) d \<le> j_hard_cap (config r))"

definition wf_db :: "Db \<Rightarrow> bool" where
  "wf_db d \<longleftrightarrow> wf_rooms d \<and> wf_participants d \<and> wf_messages d \<and> wf_events d \<and> wf_caps d"

lemmas wf_parts = wf_rooms_def wf_participants_def wf_messages_def wf_events_def wf_caps_def

lemma wf_empty: "wf_db empty_db"
  by (simp add: wf_db_def wf_parts empty_db_def)

section \<open>Evolution\<close>

definition room_evolves :: "RoomRow \<Rightarrow> RoomRow \<Rightarrow> bool" where
  "room_evolves r r' \<longleftrightarrow> r_id r' = r_id r \<and> subject r' = subject r \<and> started_at r' = started_at r \<and>
     prev_room_id r' = prev_room_id r \<and>
     j_soft_cap (config r') = j_soft_cap (config r) \<and>
     j_close_quorum (config r') = j_close_quorum (config r) \<and>
     j_hard_cap (config r) \<le> j_hard_cap (config r') \<and> lc_step\<^sup>*\<^sup>* (r_state r) (r_state r')"

definition evolves :: "Db \<Rightarrow> Db \<Rightarrow> bool" where
  "evolves d d' \<longleftrightarrow>
     (\<forall>r\<in>set (rooms d). \<exists>r'\<in>set (rooms d'). room_evolves r r') \<and>
     (\<exists>ms. messages d' = messages d @ ms) \<and> (\<exists>es. events d' = events d @ es)"

lemma room_evolves_refl [simp, intro]: "room_evolves r r"
  by (simp add: room_evolves_def)

lemma room_evolves_trans: "room_evolves r s \<Longrightarrow> room_evolves s t \<Longrightarrow> room_evolves r t"
  unfolding room_evolves_def by (auto intro: rtranclp_trans)

lemma evolves_refl [simp, intro]: "evolves d d"
  by (auto simp: evolves_def)

lemma evolves_trans:
  assumes "evolves d e" and "evolves e f"
  shows "evolves d f"
proof -
  have "\<exists>r''\<in>set (rooms f). room_evolves r r''" if r: "r \<in> set (rooms d)" for r
  proof -
    obtain r' where "r' \<in> set (rooms e)" "room_evolves r r'"
      using assms(1) r unfolding evolves_def by blast
    moreover then obtain r'' where "r'' \<in> set (rooms f)" "room_evolves r' r''"
      using assms(2) unfolding evolves_def by blast
    ultimately show ?thesis by (blast intro: room_evolves_trans)
  qed
  moreover have "\<exists>ms. messages f = messages d @ ms" "\<exists>es. events f = events d @ es"
    using assms unfolding evolves_def by (metis append_assoc)+
  ultimately show ?thesis by (simp add: evolves_def)
qed

lemma evolves_room_ids:
  assumes "evolves d d'" and "rid \<in> room_ids d"
  shows "rid \<in> room_ids d'"
proof -
  obtain r where "r \<in> set (rooms d)" and rid: "r_id r = rid"
    using assms(2) by (auto simp: room_ids_def)
  with assms(1) obtain r' where r': "r' \<in> set (rooms d')" "room_evolves r r'"
    unfolding evolves_def by blast
  then have "r_id r' = rid" using rid by (simp add: room_evolves_def)
  with r'(1) show ?thesis by (auto simp: room_ids_def)
qed

lemma evolves_messages: "evolves d d' \<Longrightarrow> m \<in> set (messages d) \<Longrightarrow> m \<in> set (messages d')"
  unfolding evolves_def by auto

lemma evolves_cap:
  assumes "wf_db d'" and "evolves d d'"
    and "r \<in> set (rooms d)" and "r' \<in> set (rooms d')" and "r_id r' = r_id r"
  shows "j_hard_cap (config r) \<le> j_hard_cap (config r')"
proof -
  obtain s where s: "s \<in> set (rooms d')" "room_evolves r s"
    using assms(2,3) unfolding evolves_def by blast
  with assms(5) have "r_id s = r_id r'" by (simp add: room_evolves_def)
  with s(1) assms(1,4) have "s = r'"
    by (auto simp: wf_db_def wf_rooms_def distinct_map dest: inj_onD)
  with s(2) show ?thesis by (simp add: room_evolves_def)
qed

text \<open>One step of the tables that keeps them well formed and only evolves them.\<close>

definition sound :: "Db \<Rightarrow> Db \<Rightarrow> bool" where
  "sound d d' \<longleftrightarrow> (wf_db d \<longrightarrow> wf_db d' \<and> evolves d d')"

lemma sound_refl [simp, intro]: "sound d d"
  by (simp add: sound_def)

section \<open>Changes of the participants table\<close>

lemma same_but_participants:
  assumes "wf_participants (d\<lparr>participants := ps\<rparr>)"
  shows "sound d (d\<lparr>participants := ps\<rparr>)"
  using assms unfolding sound_def wf_db_def
  by (auto simp: wf_rooms_def wf_messages_def wf_events_def wf_caps_def room_ids_def room_events_def
      count_capped_messages_def evolves_def)

lemma sound_participant_update:
  assumes "\<And>p. p_handle (f p) = p_handle p" and "\<And>p. p_room_id (f p) = p_room_id p"
    and "\<And>p. p_instance (f p) = p_instance p"
    and "\<And>p. P p \<Longrightarrow> 0 \<le> last_read_seq p \<Longrightarrow> last_read_seq p \<le> top_seq d \<Longrightarrow>
           0 \<le> last_read_seq (f p) \<and> last_read_seq (f p) \<le> top_seq d"
  shows "sound d (d\<lparr>participants := update_where P f (participants d)\<rparr>)"
proof (cases "wf_db d")
  case True
  then have "wf_participants d" by (simp add: wf_db_def)
  then have "wf_participants (d\<lparr>participants := update_where P f (participants d)\<rparr>)"
    using assms
    by (auto simp: wf_participants_def map_update_where set_update_where room_ids_def top_seq_def)
  then show ?thesis by (rule same_but_participants)
qed (simp add: sound_def)

lemma sound_participant_filter:
  "sound d (d\<lparr>participants := filter P (participants d)\<rparr>)"
proof (cases "wf_db d")
  case True
  then have "wf_participants d" by (simp add: wf_db_def)
  then have "wf_participants (d\<lparr>participants := filter P (participants d)\<rparr>)"
    by (auto simp: wf_participants_def room_ids_def top_seq_def intro: distinct_map_filter)
  then show ?thesis by (rule same_but_participants)
qed (simp add: sound_def)

lemma sound_update_participant:
  assumes "\<And>p. p_handle (f p) = p_handle p" and "\<And>p. p_room_id (f p) = p_room_id p"
    and "\<And>p. p_instance (f p) = p_instance p" and "\<And>p. last_read_seq (f p) = last_read_seq p"
  shows "sound d (snd (update_participant h f d))"
  using sound_participant_update [of f] assms by (simp add: update_participant_def)

lemma sound_set_nickname [wf_keeps]: "sound d (snd (set_nickname h n d))"
  and sound_set_close_vote [wf_keeps]: "sound d (snd (set_close_vote h at d))"
  and sound_clear_extend_vote [wf_keeps]: "sound d (snd (clear_extend_vote h d))"
  and sound_touch_last_poll [wf_keeps]: "sound d (snd (touch_last_poll h now d))"
  by (simp_all add: set_nickname_def set_close_vote_def clear_extend_vote_def touch_last_poll_def
      sound_update_participant)

lemma sound_clear_close_votes [wf_keeps]: "sound d (snd (clear_close_votes rid d))"
  using sound_participant_update [of "\<lambda>p. p\<lparr>wants_close_at := None\<rparr>"]
  by (simp add: clear_close_votes_def)

lemma sound_prune [wf_keeps]: "sound d (snd (prune_stale_participants fmt rid cutoff d))"
  using sound_participant_filter by (simp add: prune_stale_participants_def Let_def)

lemma sound_create_participant:
  assumes "0 \<le> last_read_seq p" and "last_read_seq p \<le> top_seq d"
  shows "sound d (snd (create_participant p d))"
proof (cases "wf_db d \<and> fst (create_participant p d) = Inr ()")
  case True
  then have wf: "wf_participants d" by (simp add: wf_db_def)
  from True have fresh: "\<forall>q\<in>set (participants d). p_handle q \<noteq> p_handle p \<and>
      \<not> (p_room_id q = p_room_id p \<and> p_instance q = p_instance p)"
    and room: "p_room_id p \<in> room_ids d"
    by (auto simp: create_participant_def list_ex_iff room_exists_iff split: if_splits)
  then have snd: "snd (create_participant p d) = d\<lparr>participants := participants d @ [p]\<rparr>"
    by (auto simp: create_participant_def list_ex_iff room_exists_iff)
  have "wf_participants (d\<lparr>participants := participants d @ [p]\<rparr>)"
    using wf fresh room assms by (fastforce simp: wf_participants_def room_ids_def top_seq_def)
  then show ?thesis unfolding snd by (rule same_but_participants)
next
  case False
  then show ?thesis by (auto simp: create_participant_def sound_def)
qed

lemma sound_swap_cursor:
  assumes "0 \<le> new" and "new \<le> top_seq d"
  shows "sound d (snd (swap_cursor h old new d))"
  using sound_participant_update [of "\<lambda>p. p\<lparr>last_read_seq := new\<rparr>"] assms
  by (simp add: swap_cursor_def Let_def)

section \<open>Changes of the rooms table\<close>

lemma room_exists_append [simp]:
  "room_ids (d\<lparr>rooms := rooms d @ [row]\<rparr>) = insert (r_id row) (room_ids d)"
  by (auto simp: room_ids_def)

lemma config_to_json_fits: "config_from_json (config_to_json c) = Inr c"
proof -
  have "uint (hard_cap c) < 2 ^ 32" "uint (soft_cap c) < 2 ^ 32"
    using uint_lt2p [of "hard_cap c"] uint_lt2p [of "soft_cap c"] by simp_all
  then show ?thesis
    by (simp add: config_from_json_def config_to_json_def fits_u32_def)
qed

lemma room_row_id [simp]: "r_id (room_to_row r) = r_id r" "r_state (room_to_row r) = r_state r"
  by (simp_all add: room_to_row_def with_config_def)

lemma sound_create_room:
  assumes "r_state room = Active"
  shows "sound d (snd (create_room room d))"
proof (cases "wf_db d \<and> r_id room \<notin> room_ids d")
  case True
  let ?d = "d\<lparr>rooms := rooms d @ [room_to_row room]\<rparr>"
  from True have snd: "snd (create_room room d) = ?d"
    by (simp add: create_room_def room_exists_iff)
  have no_msg: "count_where (cap_counting (r_id room)) (messages d) = 0"
    using True by (auto simp: count_where_eq_0 wf_db_def wf_messages_def cap_counting_def)
  have no_ev: "room_events (r_id room) d = []"
    using True by (auto simp: room_events_def filter_empty_conv wf_db_def wf_events_def)
  have cap: "0 \<le> j_hard_cap (config (room_to_row room))"
    by (simp add: room_to_row_def with_config_def config_to_json_def)
  have "wf_db ?d"
    using True assms no_msg no_ev cap
    by (auto simp: wf_db_def wf_parts room_ids_def top_seq_def count_capped_messages_def room_events_def)
  then show ?thesis unfolding snd by (auto simp: sound_def evolves_def)
next
  case False
  then show ?thesis by (auto simp: sound_def create_room_def room_exists_iff)
qed

lemma sound_room_update:
  assumes "\<And>r. r_id (f r) = r_id r" and "\<And>r. r_state (f r) = r_state r"
    and "\<And>r. subject (f r) = subject r" and "\<And>r. started_at (f r) = started_at r"
    and "\<And>r. prev_room_id (f r) = prev_room_id r"
    and "\<And>r. j_soft_cap (config (f r)) = j_soft_cap (config r)"
    and "\<And>r. j_close_quorum (config (f r)) = j_close_quorum (config r)"
    and "\<And>r. j_hard_cap (config r) \<le> j_hard_cap (config (f r))"
  shows "sound d (d\<lparr>rooms := update_where P f (rooms d)\<rparr>)"
proof (cases "wf_db d")
  case True
  let ?d = "d\<lparr>rooms := update_where P f (rooms d)\<rparr>"
  have ids: "room_ids ?d = room_ids d"
    using map_update_where [of r_id f P "rooms d"] assms(1)
    by (simp add: room_ids_def flip: set_map)
  have cap: "count_capped_messages (r_id r) d \<le> j_hard_cap (config (if P r then f r else r))"
    if "r \<in> set (rooms d)" for r
    using True that order_trans [OF _ assms(8) [of r]] by (auto simp: wf_db_def wf_caps_def)
  have caps: "wf_caps ?d"
    unfolding wf_caps_def
  proof
    fix x assume "x \<in> set (rooms ?d)"
    then obtain r where "r \<in> set (rooms d)" and x: "x = (if P r then f r else r)"
      by (auto simp: set_update_where)
    with cap [of r] assms(1) [of r] show "count_capped_messages (r_id x) ?d \<le> j_hard_cap (config x)"
      by (simp add: count_capped_messages_def split: if_splits)
  qed
  have evs: "wf_events ?d"
    using True assms(1,2) ids by (auto simp: wf_db_def wf_events_def set_update_where room_events_def)
  have "wf_db ?d"
    using True caps evs ids assms(1)
    by (auto simp: wf_db_def wf_rooms_def wf_participants_def wf_messages_def top_seq_def map_update_where)
  moreover have "evolves d ?d"
  proof -
    have "room_evolves r (f r)" for r
      using assms by (simp add: room_evolves_def)
    then show ?thesis
      by (auto simp: evolves_def set_update_where intro: room_evolves_refl)
        (metis (mono_tags) IntI UnCI image_eqI mem_Collect_eq room_evolves_refl)
  qed
  ultimately show ?thesis by (simp add: sound_def)
qed (simp add: sound_def)

lemma sound_touch_last_activity [wf_keeps]: "sound d (snd (touch_last_activity rid now d))"
  using sound_room_update [of "\<lambda>r. r\<lparr>last_activity_at := now\<rparr>"]
  by (simp add: touch_last_activity_def)

section \<open>The transaction of a state change\<close>

lemma audit_chain_append:
  "audit_chain s (es @ [e]) t \<longleftrightarrow> (\<exists>u. audit_chain s es u \<and> audit_chain u [e] t)"
  by (induction es arbitrary: s) (auto split: option.splits)

definition state_row :: "string \<Rightarrow> RoomState \<Rightarrow> RoomState \<Rightarrow> string option \<Rightarrow> time \<Rightarrow> Db \<Rightarrow> Event" where
  "state_row rid from_s to_s det at d =
     \<lparr>e_id = max_or_zero (map e_id (events d)) + 1, e_room_id = rid,
      kind = (if to_s = Archived then ArchiveEvent else TransitionEvent),
      from_state = Some from_s, to_state = Some to_s, detail = det, e_at = at\<rparr>"

lemma state_row_simps [simp]:
  "e_room_id (state_row rid from_s to_s det at d) = rid"
  "e_id (state_row rid from_s to_s det at d) = max_or_zero (map e_id (events d)) + 1"
  by (simp_all add: state_row_def)

definition moved :: "string \<Rightarrow> RoomState \<Rightarrow> RoomState \<Rightarrow> time \<Rightarrow> RoomRow \<Rightarrow> RoomRow" where
  "moved rid from_s to_s now r = (if r_id r = rid \<and> r_state r = from_s
     then r\<lparr>r_state := to_s, state_changed_at := now\<rparr> else r)"

lemma moved_simps [simp]:
  "r_id (moved rid from_s to_s now r) = r_id r"
  "config (moved rid from_s to_s now r) = config r"
  "r_state (moved rid from_s to_s now r) =
     (if r_id r = rid \<and> r_state r = from_s then to_s else r_state r)"
  by (simp_all add: moved_def)

lemma update_where_moved:
  "update_where (\<lambda>r. r_id r = rid \<and> r_state r = from_s)
     (\<lambda>r. r\<lparr>r_state := to_s, state_changed_at := now\<rparr>) rs = map (moved rid from_s to_s now) rs"
  by (simp add: update_where_def moved_def)

text \<open>What the transaction does, without the rollback branch that referential integrity excludes.\<close>

lemma update_room_state_cases:
  "update_room_state rid from_s to_s now det d =
    (if \<exists>r\<in>set (rooms d). r_id r = rid \<and> r_state r = from_s
     then (Inr True, d\<lparr>rooms := map (moved rid from_s to_s now) (rooms d),
                      events := events d @ [state_row rid from_s to_s det now d]\<rparr>)
     else (Inr False, d))"
proof -
  have "room_exists (d\<lparr>rooms := map (moved rid from_s to_s now) (rooms d)\<rparr>) rid"
    if "\<exists>r\<in>set (rooms d). r_id r = rid"
    using that by (auto simp: room_exists_iff room_ids_def image_image)
  then show ?thesis
    by (auto simp: update_room_state_def Let_def count_where_eq_0 insert_event_row_def
        update_where_moved state_row_def)
qed

lemma next_id_fresh: "\<forall>x\<in>set xs. x < max_or_zero xs + 1"
  using max_or_zero_ge by fastforce

lemma sorted_append_next:
  "sorted_wrt (<) xs \<Longrightarrow> sorted_wrt (<) (xs @ [max_or_zero xs + 1])"
  using next_id_fresh [of xs] by (simp add: sorted_wrt_append)

lemma max_or_zero_nonneg:
  assumes "\<forall>x\<in>set xs. 0 < x"
  shows "0 \<le> max_or_zero xs"
proof (cases "xs = []")
  case False
  then show ?thesis using assms max_or_zero_in [OF False] by fastforce
qed simp

lemma sound_update_room_state:
  assumes "legal_move from_s to_s"
  shows "sound d (snd (update_room_state rid from_s to_s now det d))"
proof (cases "wf_db d \<and> (\<exists>r\<in>set (rooms d). r_id r = rid \<and> r_state r = from_s)")
  case True
  then have wf: "wf_db d" by simp
  from True obtain r0 where r0: "r0 \<in> set (rooms d)" "r_id r0 = rid" "r_state r0 = from_s" by blast
  let ?row = "state_row rid from_s to_s det now d"
  let ?f = "moved rid from_s to_s now"
  let ?d = "d\<lparr>rooms := map ?f (rooms d), events := events d @ [?row]\<rparr>"
  have snd: "snd (update_room_state rid from_s to_s now det d) = ?d"
    using True by (simp add: update_room_state_cases)
  have ids: "room_ids ?d = room_ids d"
    by (simp add: room_ids_def image_image)
  have same: "r = r0" if "r \<in> set (rooms d)" "r_id r = rid" for r
    using wf that r0 by (auto simp: wf_db_def wf_rooms_def distinct_map dest: inj_onD)
  have chain: "audit_chain Active (room_events (r_id (?f r)) ?d) (r_state (?f r))"
    if r: "r \<in> set (rooms d)" for r
  proof -
    have old: "audit_chain Active (room_events (r_id r) d) (r_state r)"
      using wf r by (simp add: wf_db_def wf_events_def)
    show ?thesis
    proof (cases "r_id r = rid")
      case True
      with same r have [simp]: "r = r0" by simp
      have "room_events rid ?d = room_events rid d @ [?row]"
        by (simp add: room_events_def)
      moreover have "audit_chain from_s [?row] to_s"
        using assms by (simp add: state_row_def)
      ultimately show ?thesis
        using old r0 by (auto simp: audit_chain_append)
    next
      case False
      then show ?thesis using old by (auto simp: room_events_def)
    qed
  qed
  have "wf_events ?d"
    unfolding wf_events_def ids
    using wf chain r0 sorted_append_next [of "map e_id (events d)"]
      max_or_zero_nonneg [of "map e_id (events d)"]
    by (auto simp: wf_db_def wf_events_def room_ids_def simp del: moved_simps(3))
  moreover have "wf_caps ?d"
    unfolding wf_caps_def using wf
    by (auto simp: wf_db_def wf_caps_def count_capped_messages_def)
  moreover have "wf_rooms ?d"
    using wf by (simp add: wf_db_def wf_rooms_def comp_def)
  moreover have "wf_participants ?d" "wf_messages ?d"
    using wf ids by (auto simp: wf_db_def wf_participants_def wf_messages_def top_seq_def)
  ultimately have "wf_db ?d" by (simp add: wf_db_def)
  moreover have "evolves d ?d"
  proof -
    have "lc_step from_s to_s" using assms by (simp add: lc_step_iff)
    then have "room_evolves r (?f r)" for r
      by (auto simp: room_evolves_def moved_def)
    then show ?thesis by (auto simp: evolves_def)
  qed
  ultimately show ?thesis unfolding snd by (simp add: sound_def)
next
  case False
  then show ?thesis by (auto simp: sound_def update_room_state_cases)
qed

section \<open>Extending the cap\<close>

lemma sound_trans: "sound d e \<Longrightarrow> sound e f \<Longrightarrow> sound d f"
  unfolding sound_def by (blast intro: evolves_trans)

lemma sound_try_extend [wf_keeps]: "sound d (snd (try_extend fmt rid h step now cutoff q d))"
proof -
  let ?vote = "\<lambda>p. p\<lparr>wants_extend_at := Some now, last_poll_at := now\<rparr>"
  let ?bump = "\<lambda>r. r\<lparr>config := (config r)\<lparr>j_hard_cap := j_hard_cap (config r) + uint step\<rparr>\<rparr>"
  let ?d1 = "d\<lparr>participants := update_where (\<lambda>p. p_handle p = h) ?vote (participants d)\<rparr>"
  let ?d2 = "?d1\<lparr>participants := update_where (\<lambda>p. p_room_id p = rid)
     (\<lambda>p. p\<lparr>wants_extend_at := None\<rparr>) (participants ?d1)\<rparr>"
  let ?d3 = "?d2\<lparr>rooms := update_where (\<lambda>r. r_id r = rid) ?bump (rooms ?d2)\<rparr>"
  have vote: "sound d ?d1" by (rule sound_participant_update) simp_all
  have "sound ?d1 ?d2" by (rule sound_participant_update) simp_all
  moreover have "sound ?d2 ?d3" by (rule sound_room_update) simp_all
  ultimately have bump: "sound d ?d3" using vote by (blast intro: sound_trans)
  have swap: "?d3 = d\<lparr>rooms := update_where (\<lambda>r. r_id r = rid) ?bump (rooms d),
      participants := update_where (\<lambda>p. p_room_id p = rid) (\<lambda>p. p\<lparr>wants_extend_at := None\<rparr>)
        (update_where (\<lambda>p. p_handle p = h) ?vote (participants d))\<rparr>"
    by simp
  show ?thesis
    using vote bump unfolding swap by (auto simp: try_extend_def Let_def split: option.split)
qed

section \<open>Appending messages\<close>

lemma top_seq_ge: "m \<in> set (messages d) \<Longrightarrow> m_seq m \<le> top_seq d"
  by (simp add: top_seq_def max_or_zero_ge)

lemma top_seq_nonneg: "wf_db d \<Longrightarrow> 0 \<le> top_seq d"
  unfolding top_seq_def by (rule max_or_zero_nonneg) (auto simp: wf_db_def wf_messages_def)

lemma current_seq_bounds:
  assumes "wf_db d"
  shows "0 \<le> current_seq rid d" and "current_seq rid d \<le> top_seq d"
proof -
  show "0 \<le> current_seq rid d"
    using assms by (auto simp: current_seq_def wf_db_def wf_messages_def intro!: max_or_zero_nonneg)
  show "current_seq rid d \<le> top_seq d"
    unfolding current_seq_def top_seq_def
    using assms by (intro max_or_zero_mono) (auto simp: wf_db_def wf_messages_def intro: less_imp_le)
qed

lemma max_or_zero_snoc:
  assumes "\<forall>x\<in>set xs. x < y"
  shows "max_or_zero (xs @ [y]) = (y :: int)"
proof (rule antisym)
  have "max_or_zero (xs @ [y]) \<in> set (xs @ [y])" by (rule max_or_zero_in) simp
  with assms show "max_or_zero (xs @ [y]) \<le> y" by fastforce
qed (simp add: max_or_zero_ge)

lemma top_seq_append [simp]:
  "m_seq m = next_seq d \<Longrightarrow> top_seq (d\<lparr>messages := messages d @ [m]\<rparr>) = next_seq d"
  using max_or_zero_snoc [OF next_id_fresh [of "map m_seq (messages d)"]]
  by (simp add: top_seq_def next_seq_def)

lemma evolves_top_seq:
  assumes "wf_db d'" and "evolves d d'"
  shows "top_seq d \<le> top_seq d'"
  unfolding top_seq_def using assms
  by (intro max_or_zero_mono) (auto simp: evolves_def wf_db_def wf_messages_def intro: less_imp_le)

lemma sound_insert_message:
  assumes "msg_type m = Msg \<Longrightarrow>
    \<forall>r\<in>set (rooms d). r_id r = m_room_id m \<longrightarrow> count_capped_messages (r_id r) d < j_hard_cap (config r)"
  shows "sound d (snd (insert_message m d))"
proof (cases "wf_db d \<and> m_room_id m \<in> room_ids d")
  case True
  then have wf: "wf_db d" by simp
  let ?m = "m\<lparr>m_seq := next_seq d\<rparr>"
  let ?d = "d\<lparr>messages := messages d @ [?m]\<rparr>"
  have snd: "snd (insert_message m d) = ?d"
    using True by (simp add: insert_message_def room_exists_iff Let_def)
  have top: "top_seq ?d = next_seq d" by simp
  have up: "top_seq d \<le> next_seq d" by (simp add: next_seq_def top_seq_def)
  have "wf_messages ?d"
    using True sorted_append_next [of "map m_seq (messages d)"] top_seq_nonneg [OF wf]
    by (auto simp: wf_db_def wf_messages_def next_seq_def top_seq_def room_ids_def)
  moreover have "wf_participants ?d"
    using wf top up by (fastforce simp: wf_db_def wf_participants_def room_ids_def)
  moreover have "wf_caps ?d"
    using wf assms by (fastforce simp: wf_db_def wf_caps_def count_capped_messages_def cap_counting_def)
  moreover have "wf_rooms ?d" "wf_events ?d"
    using wf by (auto simp: wf_db_def wf_rooms_def wf_events_def room_ids_def room_events_def)
  ultimately have "wf_db ?d" by (simp add: wf_db_def)
  then show ?thesis unfolding snd by (auto simp: sound_def evolves_def)
next
  case False
  then show ?thesis by (auto simp: sound_def insert_message_def room_exists_iff)
qed

lemma sound_create_message_typed:
  "mt \<noteq> Msg \<Longrightarrow> sound d (snd (create_message_typed rid h rcp bdy at mt sev qt d))"
  unfolding create_message_typed_def by (rule sound_insert_message) simp

lemma sound_create_message_capped:
  assumes "\<forall>r\<in>set (rooms d). r_id r = rid \<longrightarrow> cap \<le> j_hard_cap (config r)"
  shows "sound d (snd (create_message_capped rid h rcp bdy at human cap d))"
proof (cases "count_capped_messages rid d < cap")
  case True
  let ?m = "\<lparr>m_seq = 0, m_room_id = rid, sender = h, recipient = rcp, m_body = bdy, created_at = at,
      msg_type = Msg, from_human = human, severity = None, question_text = None\<rparr>"
  have "sound d (snd (insert_message ?m d))"
    by (rule sound_insert_message) (use True assms in force)
  with True show ?thesis
    by (auto simp: create_message_capped_def split: prod.split sum.split)
qed (simp add: create_message_capped_def)

end
