(* ===== verification/Presence.thy ===== *)
theory Presence
  imports Prelude
begin

text \<open>
  \<open>crates/chatbotchat-core/src/presence.rs\<close>: the registry of parked long-polls. Times are readings
  of the monotonic clock; \<open>saturating_duration_since\<close> is a difference that stops at zero.

  The registry forgets entries (\<open>retain_live\<close> on every \<open>enter\<close>, and \<open>is_live\<close> itself). The
  reference registry \<open>ideal\<close> never forgets; the simulation \<open>agrees\<close> shows that no answer depends on
  the forgetting.
\<close>

record ParkState =
  active :: nat
  last_release :: "time option"

type_synonym ParkMap = "string \<rightharpoonup> ParkState"

definition DEFAULT_GRACE :: time where
  "DEFAULT_GRACE = seconds 10"

definition saturating_since :: "time \<Rightarrow> time \<Rightarrow> time" where
  "saturating_since now t = max 0 (now - t)"

definition within_grace :: "time \<Rightarrow> time \<Rightarrow> ParkState \<Rightarrow> bool" where
  "within_grace grace now st =
     (case last_release st of None \<Rightarrow> False | Some t \<Rightarrow> saturating_since now t \<le> grace)"

definition retain_live :: "ParkMap \<Rightarrow> time \<Rightarrow> time \<Rightarrow> ParkMap" where
  "retain_live m grace now =
     (\<lambda>h. case m h of None \<Rightarrow> None
        | Some st \<Rightarrow> if 0 < active st \<or> within_grace grace now st then Some st else None)"

definition enter :: "time \<Rightarrow> string \<Rightarrow> time \<Rightarrow> ParkMap \<Rightarrow> ParkMap" where
  "enter grace handle now m =
     (let m = retain_live m grace now;
          st = (case m handle of None \<Rightarrow> \<lparr>active = 0, last_release = None\<rparr> | Some st \<Rightarrow> st)
      in m(handle \<mapsto> st\<lparr>active := active st + 1\<rparr>))"

definition is_live :: "time \<Rightarrow> string \<Rightarrow> time \<Rightarrow> ParkMap \<Rightarrow> bool \<times> ParkMap" where
  "is_live grace handle now m =
     (case m handle of
        None \<Rightarrow> (False, m)
      | Some st \<Rightarrow>
          if 0 < active st then (True, m)
          else (let ok = within_grace grace now st
                in (ok, if ok then m else m(handle := None))))"

definition release :: "string \<Rightarrow> time \<Rightarrow> ParkMap \<Rightarrow> ParkMap" where
  "release handle now m =
     (case m handle of
        None \<Rightarrow> m
      | Some st \<Rightarrow> m(handle \<mapsto> \<lparr>active = active st - 1, last_release = Some now\<rparr>))"

section \<open>The registry that never forgets\<close>

text \<open>The number of open guards of every handle and the time of its last release.\<close>

record Ideal =
  guards :: "string \<Rightarrow> nat"
  released :: "string \<Rightarrow> time option"

datatype PresenceOp = Enter string | Release string | Probe string

fun ideal_step :: "PresenceOp \<Rightarrow> time \<Rightarrow> Ideal \<Rightarrow> Ideal" where
  "ideal_step (Enter h) now a = a\<lparr>guards := (guards a)(h := guards a h + 1)\<rparr>"
| "ideal_step (Release h) now a =
     a\<lparr>guards := (guards a)(h := guards a h - 1), released := (released a)(h := Some now)\<rparr>"
| "ideal_step (Probe h) now a = a"

definition ideal_live :: "time \<Rightarrow> string \<Rightarrow> time \<Rightarrow> Ideal \<Rightarrow> bool" where
  "ideal_live grace h now a \<longleftrightarrow>
     0 < guards a h \<or> (\<exists>t. released a h = Some t \<and> now - t \<le> max 0 grace \<and> 0 \<le> grace)"

fun park_step :: "time \<Rightarrow> PresenceOp \<Rightarrow> time \<Rightarrow> ParkMap \<Rightarrow> ParkMap" where
  "park_step grace (Enter h) now m = enter grace h now m"
| "park_step grace (Release h) now m = release h now m"
| "park_step grace (Probe h) now m = snd (is_live grace h now m)"

text \<open>A guard is released once: a release always finds an open guard of its handle.\<close>

fun balanced :: "Ideal \<Rightarrow> PresenceOp \<Rightarrow> bool" where
  "balanced a (Release h) = (0 < guards a h)"
| "balanced a _ = True"

fun history_ok :: "time \<Rightarrow> Ideal \<Rightarrow> (PresenceOp \<times> time) list \<Rightarrow> bool" where
  "history_ok t a [] = True"
| "history_ok t a ((opn, now) # rest) =
     (t \<le> now \<and> balanced a opn \<and> history_ok now (ideal_step opn now a) rest)"

definition ideal_init :: Ideal where
  "ideal_init = \<lparr>guards = (\<lambda>_. 0), released = (\<lambda>_. None)\<rparr>"

definition ideal_run :: "(PresenceOp \<times> time) list \<Rightarrow> Ideal \<Rightarrow> Ideal" where
  "ideal_run ops a = fold (\<lambda>(opn, now). ideal_step opn now) ops a"

definition park_run :: "time \<Rightarrow> (PresenceOp \<times> time) list \<Rightarrow> ParkMap \<Rightarrow> ParkMap" where
  "park_run grace ops m = fold (\<lambda>(opn, now). park_step grace opn now) ops m"

section \<open>Simulation\<close>

definition agrees :: "time \<Rightarrow> time \<Rightarrow> ParkMap \<Rightarrow> Ideal \<Rightarrow> bool" where
  "agrees grace now m a \<longleftrightarrow> (\<forall>h. case m h of
       None \<Rightarrow> guards a h = 0 \<and> (\<forall>t. released a h = Some t \<longrightarrow> grace < now - t)
     | Some st \<Rightarrow> active st = guards a h \<and> (active st = 0 \<longrightarrow> last_release st = released a h)) \<and>
     (\<forall>h t. released a h = Some t \<longrightarrow> t \<le> now)"

lemma within_grace_iff:
  "within_grace grace now st \<longleftrightarrow>
     (\<exists>t. last_release st = Some t \<and> now - t \<le> grace \<and> 0 \<le> grace)"
  by (auto simp: within_grace_def saturating_since_def split: option.split)

lemma agrees_later:
  assumes "agrees grace now m a" and "now \<le> later"
  shows "agrees grace later m a"
  unfolding agrees_def
proof (intro conjI allI impI)
  fix h
  show "case m h of None \<Rightarrow> guards a h = 0 \<and> (\<forall>t. released a h = Some t \<longrightarrow> grace < later - t)
      | Some st \<Rightarrow> active st = guards a h \<and> (active st = 0 \<longrightarrow> last_release st = released a h)"
    using assms by (cases "m h") (fastforce simp: agrees_def dest: spec [of _ h])+
next
  fix h t assume "released a h = Some t"
  with assms show "t \<le> later" by (fastforce simp: agrees_def)
qed

text \<open>What \<open>agrees\<close> says of one handle.\<close>

lemma agrees_cases:
  assumes "agrees grace now m a"
  obtains (gone) "m h = None" "guards a h = 0" "\<forall>t. released a h = Some t \<longrightarrow> grace < now - t"
  | (held) st where "m h = Some st" "active st = guards a h"
      "active st = 0 \<longrightarrow> last_release st = released a h"
proof (cases "m h")
  case None
  then show ?thesis using assms gone by (auto simp: agrees_def dest: spec [of _ h])
next
  case (Some st)
  have "case m h of None \<Rightarrow> guards a h = 0 \<and> (\<forall>t. released a h = Some t \<longrightarrow> grace < now - t)
      | Some st \<Rightarrow> active st = guards a h \<and> (active st = 0 \<longrightarrow> last_release st = released a h)"
    using assms by (simp add: agrees_def)
  then show ?thesis using Some held by simp
qed

lemma agrees_is_live:
  assumes "agrees grace now m a" and "0 \<le> grace"
  shows "fst (is_live grace h now m) \<longleftrightarrow> ideal_live grace h now a"
  using assms(1)
proof (cases rule: agrees_cases [of _ _ _ _ h])
  case gone
  then show ?thesis using assms(2) by (auto simp: is_live_def ideal_live_def max_def)
next
  case (held st)
  then show ?thesis
    using assms(2) by (auto simp: is_live_def ideal_live_def within_grace_iff Let_def max_def)
qed

lemma agreesI:
  assumes "\<And>h. m h = None \<Longrightarrow> guards a h = 0 \<and> (\<forall>t. released a h = Some t \<longrightarrow> grace < now - t)"
    and "\<And>h st. m h = Some st \<Longrightarrow>
      active st = guards a h \<and> (active st = 0 \<longrightarrow> last_release st = released a h)"
    and "\<And>h t. released a h = Some t \<Longrightarrow> t \<le> now"
  shows "agrees grace now m a"
  using assms by (auto simp: agrees_def split: option.split)

lemma agreesD:
  assumes "agrees grace now m a"
  shows "m h = None \<Longrightarrow> guards a h = 0 \<and> (\<forall>t. released a h = Some t \<longrightarrow> grace < now - t)"
    and "m h = Some st \<Longrightarrow>
      active st = guards a h \<and> (active st = 0 \<longrightarrow> last_release st = released a h)"
    and "released a h = Some t \<Longrightarrow> t \<le> now"
proof -
  have "case m h of None \<Rightarrow> guards a h = 0 \<and> (\<forall>t. released a h = Some t \<longrightarrow> grace < now - t)
      | Some st \<Rightarrow> active st = guards a h \<and> (active st = 0 \<longrightarrow> last_release st = released a h)"
    using assms by (simp add: agrees_def)
  then show "m h = None \<Longrightarrow> guards a h = 0 \<and> (\<forall>t. released a h = Some t \<longrightarrow> grace < now - t)"
    and "m h = Some st \<Longrightarrow>
      active st = guards a h \<and> (active st = 0 \<longrightarrow> last_release st = released a h)"
    by auto
  show "released a h = Some t \<Longrightarrow> t \<le> now" using assms by (auto simp: agrees_def)
qed

lemma retain_live_agrees:
  assumes "agrees grace now m a" and "0 \<le> grace"
  shows "agrees grace now (retain_live m grace now) a"
proof (rule agreesI)
  fix h
  assume "retain_live m grace now h = None"
  then consider "m h = None" | st where "m h = Some st" "active st = 0" "\<not> within_grace grace now st"
    by (auto simp: retain_live_def split: option.splits if_splits)
  then show "guards a h = 0 \<and> (\<forall>t. released a h = Some t \<longrightarrow> grace < now - t)"
    using agreesD(1,2) [OF assms(1)] assms(2) by cases (fastforce simp: within_grace_iff)+
next
  fix h st
  assume "retain_live m grace now h = Some st"
  then have "m h = Some st" by (auto simp: retain_live_def split: option.splits if_splits)
  then show "active st = guards a h \<and> (active st = 0 \<longrightarrow> last_release st = released a h)"
    using agreesD(2) [OF assms(1)] by blast
qed (rule agreesD(3) [OF assms(1)])

lemma enter_agrees:
  assumes "agrees grace now m a" and "0 \<le> grace"
  shows "agrees grace now (enter grace h now m) (ideal_step (Enter h) now a)"
proof -
  have "agrees grace now (retain_live m grace now) a" by (rule retain_live_agrees [OF assms])
  note keep = agreesD [OF this]
  show ?thesis
    by (rule agreesI)
      (use keep in \<open>auto simp: enter_def Let_def split: option.splits if_splits\<close>)
qed

lemma release_agrees:
  assumes "agrees grace now m a" and "0 < guards a h"
  shows "agrees grace now (release h now m) (ideal_step (Release h) now a)"
proof -
  note keep = agreesD [OF assms(1)]
  show ?thesis
    by (rule agreesI)
      (use keep assms(2) in \<open>auto simp: release_def split: option.splits if_splits\<close>)
qed

lemma is_live_agrees:
  assumes "agrees grace now m a" and "0 \<le> grace"
  shows "agrees grace now (snd (is_live grace h now m)) a"
proof -
  note keep = agreesD [OF assms(1)]
  show ?thesis
    by (rule agreesI)
      (use keep assms(2) in \<open>force simp: is_live_def Let_def within_grace_iff split: option.splits if_splits\<close>)+
qed

lemma park_step_agrees:
  assumes "agrees grace now m a" and "0 \<le> grace" and "balanced a opn"
  shows "agrees grace now (park_step grace opn now m) (ideal_step opn now a)"
  using assms by (cases opn) (auto intro: enter_agrees release_agrees is_live_agrees simp del: ideal_step.simps(1,2))

lemma park_run_agrees:
  assumes "history_ok t a ops" and "agrees grace t m a" and "0 \<le> grace"
  shows "agrees grace (fold (\<lambda>x _. snd x) ops t) (park_run grace ops m) (ideal_run ops a)"
  using assms
proof (induction ops arbitrary: t a m)
  case (Cons x ops)
  obtain opn now where x: "x = (opn, now)" by fastforce
  with Cons.prems have "agrees grace now (park_step grace opn now m) (ideal_step opn now a)"
    by (auto intro: park_step_agrees agrees_later)
  with Cons.IH Cons.prems x show ?case by (auto simp: park_run_def ideal_run_def)
qed (simp add: park_run_def ideal_run_def)

lemma agrees_init: "agrees grace t Map.empty ideal_init"
  by (rule agreesI) (simp_all add: ideal_init_def)

section \<open>Properties\<close>

text \<open>C18: forgetting is invisible. After any history of parks, releases and probes in which every
  release ends an open guard, a handle reads live at a later moment exactly if it has a guard open
  or its last release is at most the grace window ago: the garbage collection of \<open>enter\<close> and
  \<open>is_live\<close> never changes an answer, and a dropped connection is reported dead once the window
  is over.\<close>

theorem liveness_is_truthful:
  assumes "history_ok 0 ideal_init ops" and "0 \<le> grace"
    and "fold (\<lambda>x _. snd x) ops 0 \<le> now"
  shows "fst (is_live grace h now (park_run grace ops Map.empty)) \<longleftrightarrow>
    0 < guards (ideal_run ops ideal_init) h \<or>
    (\<exists>t. released (ideal_run ops ideal_init) h = Some t \<and> now - t \<le> grace)"
proof -
  have "agrees grace now (park_run grace ops Map.empty) (ideal_run ops ideal_init)"
    using agrees_later [OF park_run_agrees [OF assms(1) agrees_init assms(2)] assms(3)] .
  from agrees_is_live [OF this assms(2)] show ?thesis
    using assms(2) by (auto simp: ideal_live_def max_def)
qed

theorem liveness_is_truthful_witness:
  "let ops = [(Enter ''a'', 1), (Enter ''b'', 2), (Release ''a'', 3), (Enter ''b'', seconds 20)];
       m = park_run DEFAULT_GRACE ops Map.empty
   in m ''a'' = None \<and> \<not> fst (is_live DEFAULT_GRACE ''a'' (seconds 20) m) \<and>
      fst (is_live DEFAULT_GRACE ''b'' (seconds 90) m)"
proof -
  let ?ops = "[(Enter ''a'', 1), (Enter ''b'', 2), (Release ''a'', 3), (Enter ''b'', seconds 20)]"
  have ok: "history_ok 0 ideal_init ?ops"
    by (simp add: ideal_init_def seconds_def)
  have grace: "0 \<le> DEFAULT_GRACE" by (simp add: DEFAULT_GRACE_def seconds_def)
  have gone: "park_run DEFAULT_GRACE ?ops Map.empty ''a'' = None"
    by (simp add: park_run_def enter_def release_def retain_live_def within_grace_def
        saturating_since_def DEFAULT_GRACE_def seconds_def Let_def)
  show ?thesis
    using gone liveness_is_truthful [OF ok grace, of "seconds 20" "''a''"]
      liveness_is_truthful [OF ok grace, of "seconds 90" "''b''"]
    by (simp add: Let_def ideal_run_def ideal_init_def DEFAULT_GRACE_def seconds_def)
qed

end
