(* ===== verification/Prog.thy ===== *)
theory Prog
  imports Prelude
begin

text \<open>
  The shape of an \<open>async\<close> function: a program is a sequence of atomic actions on a shared world,
  one per \<open>.await\<close>ed storage call, lock-protected registry call or clock reading, and what it does
  next depends on what the action returned. Between two actions any other program may run. An
  action may be blocked (a parked \<open>recv\<close>): it carries a guard and can only be taken in a world
  where the guard holds.

  \<open>run\<close> is the execution of a program with nothing else running; \<open>sys_step\<close> is the interleaved
  execution of any number of programs; \<open>upholds\<close> is the rely-guarantee condition that lets a
  property of single actions be lifted to every interleaving.
\<close>

section \<open>Programs\<close>

datatype ('w, 'a) prog =
    Ret 'a
  | Act "'w \<Rightarrow> bool" "'w \<Rightarrow> 'w" "'w \<Rightarrow> ('w, 'a) prog"

text \<open>\<open>Exec f k\<close>: one atomic action that returns a value, followed by \<open>k\<close>.\<close>

definition Exec :: "('w \<Rightarrow> 'a \<times> 'w) \<Rightarrow> ('a \<Rightarrow> ('w, 'b) prog) \<Rightarrow> ('w, 'b) prog" where
  "Exec f k = Act (\<lambda>_. True) (\<lambda>w. snd (f w)) (\<lambda>w. k (fst (f w)))"

text \<open>\<open>Await g f k\<close>: the same action, blocked until \<open>g\<close> holds.\<close>

definition Await :: "('w \<Rightarrow> bool) \<Rightarrow> ('w \<Rightarrow> 'a \<times> 'w) \<Rightarrow> ('a \<Rightarrow> ('w, 'b) prog) \<Rightarrow> ('w, 'b) prog" where
  "Await g f k = Act g (\<lambda>w. snd (f w)) (\<lambda>w. k (fst (f w)))"

text \<open>\<open>Query f k\<close>: an action that only reads the world.\<close>

definition Query :: "('w \<Rightarrow> 'a) \<Rightarrow> ('a \<Rightarrow> ('w, 'b) prog) \<Rightarrow> ('w, 'b) prog" where
  "Query f k = Act (\<lambda>_. True) (\<lambda>w. w) (\<lambda>w. k (f w))"

text \<open>A program that never returns (the end of the fuel of a retry loop).\<close>

definition Hang :: "('w, 'a) prog" where
  "Hang = Act (\<lambda>_. False) (\<lambda>w. w) (\<lambda>_. undefined)"

primrec bind :: "('w, 'a) prog \<Rightarrow> ('a \<Rightarrow> ('w, 'b) prog) \<Rightarrow> ('w, 'b) prog" where
  "bind (Ret a) h = h a"
| "bind (Act g u k) h = Act g u (\<lambda>w. bind (k w) h)"

lemma bind_Ret [simp]: "bind p Ret = p"
  by (induction p) auto

lemma bind_assoc: "bind (bind p f) h = bind p (\<lambda>a. bind (f a) h)"
  by (induction p) auto

lemma bind_Exec [simp]: "bind (Exec f k) h = Exec f (\<lambda>a. bind (k a) h)"
  by (simp add: Exec_def)

lemma bind_Await [simp]: "bind (Await g f k) h = Await g f (\<lambda>a. bind (k a) h)"
  by (simp add: Await_def)

lemma bind_Query [simp]: "bind (Query f k) h = Query f (\<lambda>a. bind (k a) h)"
  by (simp add: Query_def)

section \<open>Running alone\<close>

text \<open>\<open>None\<close>: the program is blocked and nothing else runs, so it does not return.\<close>

primrec run :: "('w, 'a) prog \<Rightarrow> 'w \<Rightarrow> ('a \<times> 'w) option" where
  "run (Ret a) = (\<lambda>w. Some (a, w))"
| "run (Act g u k) = (\<lambda>w. if g w then run (k w) (u w) else None)"

lemma run_Ret [run_simps]: "run (Ret a) w = Some (a, w)"
  by simp

lemma run_Exec [run_simps]: "run (Exec f k) w = run (k (fst (f w))) (snd (f w))"
  by (simp add: Exec_def)

lemma run_Await [run_simps]:
  "run (Await g f k) w = (if g w then run (k (fst (f w))) (snd (f w)) else None)"
  by (simp add: Await_def)

lemma run_Query [run_simps]: "run (Query f k) w = run (k (f w)) w"
  by (simp add: Query_def)

lemma run_Hang [run_simps]: "run Hang w = None"
  by (simp add: Hang_def)

lemma run_bind [run_simps]:
  "run (bind p h) w = (case run p w of None \<Rightarrow> None | Some (a, w') \<Rightarrow> run (h a) w')"
  by (induction p arbitrary: w) auto

lemmas run_basic = run_Ret run_Exec run_Await run_Query run_Hang

text \<open>The program returned normally, with a result and a world that satisfy \<open>P\<close>.\<close>

definition returned :: "(('e + 'a) \<times> 'w) option \<Rightarrow> ('a \<Rightarrow> 'w \<Rightarrow> bool) \<Rightarrow> bool" where
  "returned x P = (case x of Some (Inr r, w) \<Rightarrow> P r w | _ \<Rightarrow> False)"

lemma returnedE:
  assumes "returned x P"
  obtains r w where "x = Some (Inr r, w)" "P r w"
  using assms by (auto simp: returned_def split: option.splits prod.splits sum.splits)

text \<open>
  A program that alternates with its environment: whenever it is blocked, the next change of the
  list happens to the world. \<open>None\<close>: still blocked when the list is exhausted.
\<close>

fun unblock :: "('w \<Rightarrow> bool) \<Rightarrow> ('w \<Rightarrow> 'w) list \<Rightarrow> 'w \<Rightarrow> ('w \<times> ('w \<Rightarrow> 'w) list) option" where
  "unblock g es w =
     (if g w then Some (w, es)
      else (case es of [] \<Rightarrow> None | e # es' \<Rightarrow> unblock g es' (e w)))"

declare unblock.simps [simp del]

primrec drive :: "('w, 'a) prog \<Rightarrow> ('w \<Rightarrow> 'w) list \<Rightarrow> 'w \<Rightarrow> ('a \<times> ('w \<Rightarrow> 'w) list \<times> 'w) option" where
  "drive (Ret a) = (\<lambda>es w. Some (a, es, w))"
| "drive (Act g u k) = (\<lambda>es w.
     case unblock g es w of None \<Rightarrow> None | Some (w', es') \<Rightarrow> drive (k w') es' (u w'))"

lemma unblock_enabled [simp]: "g w \<Longrightarrow> unblock g es w = Some (w, es)"
  by (subst unblock.simps) simp

lemma unblock_wait [simp]: "\<not> g w \<Longrightarrow> unblock g (e # es) w = unblock g es (e w)"
  by (subst unblock.simps) simp

lemma drive_run: "run p w = Some (a, w') \<Longrightarrow> drive p es w = Some (a, es, w')"
  by (induction p arbitrary: w es) (auto split: if_splits)

lemma drive_bind [drive_simps]:
  "drive (bind p h) es w = (case drive p es w of None \<Rightarrow> None | Some (a, es', w') \<Rightarrow> drive (h a) es' w')"
  by (induction p arbitrary: w es) (auto split: option.split)

lemma drive_Ret [drive_simps]: "drive (Ret a) es w = Some (a, es, w)"
  by simp

lemma drive_Exec [drive_simps]: "drive (Exec f k) es w = drive (k (fst (f w))) es (snd (f w))"
  by (simp add: Exec_def)

lemma drive_Query [drive_simps]: "drive (Query f k) es w = drive (k (f w)) es w"
  by (simp add: Query_def)

lemma drive_Await [drive_simps]:
  "drive (Await g f k) es w = (case unblock g es w of None \<Rightarrow> None
     | Some (w', es') \<Rightarrow> drive (k (fst (f w'))) es' (snd (f w')))"
  by (simp add: Await_def)

section \<open>Interleaving\<close>

text \<open>
  A system is a world and a pool of running programs. A step is one enabled action of one
  program, a change made by the environment (time passing), the arrival of a new program, or the
  cancellation of one (a dropped connection drops the handler future at an await point).
\<close>

inductive sys_step ::
  "('w \<Rightarrow> 'w \<Rightarrow> bool) \<Rightarrow> ('w, 'a) prog set \<Rightarrow>
   'w \<times> ('w, 'a) prog list \<Rightarrow> 'w \<times> ('w, 'a) prog list \<Rightarrow> bool"
  for E :: "'w \<Rightarrow> 'w \<Rightarrow> bool" and progs :: "('w, 'a) prog set" where
  act: "i < length ps \<Longrightarrow> ps ! i = Act g u k \<Longrightarrow> g w \<Longrightarrow>
        sys_step E progs (w, ps) (u w, ps[i := k w])"
| env: "E w w' \<Longrightarrow> sys_step E progs (w, ps) (w', ps)"
| spawn: "p \<in> progs \<Longrightarrow> sys_step E progs (w, ps) (w, ps @ [p])"
| cancel: "sys_step E progs (w, ps @ p # qs) (w, ps @ qs)"

inductive_cases sys_stepE: "sys_step E progs s t"

inductive sys_reach ::
  "('w \<Rightarrow> 'w \<Rightarrow> bool) \<Rightarrow> ('w, 'a) prog set \<Rightarrow>
   'w \<times> ('w, 'a) prog list \<Rightarrow> 'w \<times> ('w, 'a) prog list \<Rightarrow> bool"
  for E progs s where
  here: "sys_reach E progs s s"
| further: "sys_reach E progs s t \<Longrightarrow> sys_step E progs t u \<Longrightarrow> sys_reach E progs s u"

text \<open>What a program does alone, it can do in a pool; so can a list of programs, one after the other.\<close>

lemma reach_step_first:
  assumes "sys_step E progs s t" and "sys_reach E progs t u"
  shows "sys_reach E progs s u"
  using assms(2,1) by (induction rule: sys_reach.induct) (blast intro: sys_reach.intros)+

lemma sys_reach_trans:
  assumes "sys_reach E progs s t" and "sys_reach E progs t u"
  shows "sys_reach E progs s u"
  using assms(2,1) by (induction rule: sys_reach.induct) (blast intro: sys_reach.intros)+

lemma run_reach:
  "run p w = Some (a, w') \<Longrightarrow> sys_reach E progs (w, ps @ [p]) (w', ps @ [Ret a])"
proof (induction p arbitrary: w)
  case (Act g u k)
  then have g: "g w" and rest: "run (k w) (u w) = Some (a, w')" by (auto split: if_splits)
  have "sys_step E progs (w, ps @ [Act g u k]) (u w, (ps @ [Act g u k])[length ps := k w])"
    by (rule sys_step.act [where g = g and u = u and k = k]) (simp_all add: g)
  with Act.IH [OF rangeI rest] show ?case by (simp add: reach_step_first)
qed (simp add: sys_reach.here)

fun run_all :: "('w, 'a) prog list \<Rightarrow> 'w \<Rightarrow> 'w option" where
  "run_all [] w = Some w"
| "run_all (p # ps) w = (case run p w of None \<Rightarrow> None | Some (_, w') \<Rightarrow> run_all ps w')"

lemma run_all_reach:
  assumes "run_all qs w = Some w'" and "set qs \<subseteq> progs"
  shows "\<exists>rs. sys_reach E progs (w, ps) (w', rs)"
  using assms
proof (induction qs arbitrary: w ps)
  case (Cons p qs)
  then obtain a v where p: "run p w = Some (a, v)" and qs: "run_all qs v = Some w'"
    by (auto split: option.splits)
  have "sys_step E progs (w, ps) (w, ps @ [p])"
    using Cons.prems(2) by (intro sys_step.spawn) simp
  then have first: "sys_reach E progs (w, ps) (v, ps @ [Ret a])"
    using run_reach [OF p] by (rule reach_step_first)
  obtain rs where "sys_reach E progs (v, ps @ [Ret a]) (w', rs)"
    using Cons.IH [OF qs] Cons.prems(2) by auto
  with first show ?case by (blast intro: sys_reach_trans)
qed (auto intro: sys_reach.here)

section \<open>Rely and guarantee\<close>

text \<open>
  \<open>upholds I R p w\<close>: whatever the others do (they keep the invariant \<open>I\<close> and change the world
  only along \<open>R\<close>), every action of \<open>p\<close>, started in \<open>w\<close>, keeps \<open>I\<close> and moves along \<open>R\<close>.
\<close>

primrec upholds :: "('w \<Rightarrow> bool) \<Rightarrow> ('w \<Rightarrow> 'w \<Rightarrow> bool) \<Rightarrow> ('w, 'a) prog \<Rightarrow> 'w \<Rightarrow> bool" where
  "upholds I R (Ret a) = (\<lambda>w. True)"
| "upholds I R (Act g u k) = (\<lambda>w. \<forall>w'. R w w' \<and> I w' \<and> g w' \<longrightarrow>
     I (u w') \<and> R w' (u w') \<and> upholds I R (k w') (u w'))"

locale rely =
  fixes I :: "'w \<Rightarrow> bool" and R :: "'w \<Rightarrow> 'w \<Rightarrow> bool" and E :: "'w \<Rightarrow> 'w \<Rightarrow> bool"
  assumes R_refl: "R w w"
    and R_trans: "R w w' \<Longrightarrow> R w' w'' \<Longrightarrow> R w w''"
    and E_keeps: "I w \<Longrightarrow> E w w' \<Longrightarrow> I w' \<and> R w w'"
begin

lemma upholds_Ret [simp, intro]: "upholds I R (Ret a) w"
  by simp

lemma upholds_Hang [simp, intro]: "upholds I R Hang w"
  by (simp add: Hang_def)

lemma upholds_later: "upholds I R p w \<Longrightarrow> R w w' \<Longrightarrow> upholds I R p w'"
  by (cases p) (auto intro: R_trans)

lemma upholds_lazy: "(\<And>v. R w v \<Longrightarrow> I v \<Longrightarrow> upholds I R p v) \<Longrightarrow> upholds I R p w"
  by (cases p) (auto simp: R_refl)

lemma upholds_Exec:
  assumes "\<And>w'. R w w' \<Longrightarrow> I w' \<Longrightarrow>
    I (snd (f w')) \<and> R w' (snd (f w')) \<and> upholds I R (k (fst (f w'))) (snd (f w'))"
  shows "upholds I R (Exec f k) w"
  using assms by (simp add: Exec_def)

lemma upholds_Await:
  assumes "\<And>w'. R w w' \<Longrightarrow> I w' \<Longrightarrow> g w' \<Longrightarrow>
    I (snd (f w')) \<and> R w' (snd (f w')) \<and> upholds I R (k (fst (f w'))) (snd (f w'))"
  shows "upholds I R (Await g f k) w"
  using assms by (simp add: Await_def)

lemma upholds_Query:
  assumes "\<And>w'. R w w' \<Longrightarrow> I w' \<Longrightarrow> upholds I R (k (f w')) w'"
  shows "upholds I R (Query f k) w"
  using assms by (auto simp: Query_def R_refl)

lemma upholds_bind:
  assumes "upholds I R p w" and "\<And>a w'. R w w' \<Longrightarrow> upholds I R (h a) w'"
  shows "upholds I R (bind p h) w"
  using assms
proof (induction p arbitrary: w)
  case (Ret a)
  then show ?case by (simp add: R_refl)
next
  case (Act g u k)
  show ?case
  proof (simp, intro allI impI)
    fix w' assume w': "R w w' \<and> I w' \<and> g w'"
    with Act.prems(1) have step: "I (u w')" "R w' (u w')" "upholds I R (k w') (u w')" by auto
    have "upholds I R (bind (k w') h) (u w')"
    proof (rule Act.IH [OF rangeI step(3)])
      fix a v assume "R (u w') v"
      with w' step have "R w v" by (blast intro: R_trans)
      then show "upholds I R (h a) v" by (rule Act.prems(2))
    qed
    with step show "I (u w') \<and> R w' (u w') \<and> upholds I R (bind (k w') h) (u w')" by simp
  qed
qed

text \<open>The programs of a pool all uphold the contract, and the world satisfies the invariant.\<close>

definition pool_ok :: "'w \<times> ('w, 'a) prog list \<Rightarrow> bool" where
  "pool_ok s \<longleftrightarrow> I (fst s) \<and> (\<forall>p\<in>set (snd s). upholds I R p (fst s))"

lemma sys_step_ok:
  assumes "sys_step E progs s t" and "pool_ok s"
    and "\<And>p w. p \<in> progs \<Longrightarrow> I w \<Longrightarrow> upholds I R p w"
  shows "pool_ok t \<and> R (fst s) (fst t)"
  using assms
proof (cases rule: sys_step.cases)
  case (act i ps g u k w)
  then have "Act g u k \<in> set ps" by (metis nth_mem)
  with act have "upholds I R (Act g u k) w" and "I w"
    using assms(2) by (auto simp: pool_ok_def simp del: upholds.simps)
  with act have step: "I (u w)" "R w (u w)" "upholds I R (k w) (u w)"
    by (auto intro: R_refl)
  have "upholds I R p (u w)" if "p \<in> set (ps[i := k w])" for p
  proof -
    from that have "p = k w \<or> p \<in> set ps"
      using set_update_subset_insert by fastforce
    then show ?thesis
      using step assms(2) act by (auto simp: pool_ok_def intro: upholds_later)
  qed
  with step act show ?thesis by (auto simp: pool_ok_def)
next
  case (env w w' ps)
  with assms(2) E_keeps have "I w'" "R w w'" by (auto simp: pool_ok_def)
  with env assms(2) show ?thesis by (auto simp: pool_ok_def intro: upholds_later)
qed (auto simp: pool_ok_def R_refl)

lemma sys_reach_ok:
  assumes "sys_reach E progs s t" and "pool_ok s"
    and "\<And>p w. p \<in> progs \<Longrightarrow> I w \<Longrightarrow> upholds I R p w"
  shows "pool_ok t \<and> R (fst s) (fst t)"
  using assms
proof (induction rule: sys_reach.induct)
  case here
  then show ?case by (simp add: R_refl)
next
  case (further t u)
  then show ?case using sys_step_ok [OF further.hyps(2)] by (blast intro: R_trans)
qed

lemma run_ok:
  assumes "upholds I R p w" and "I w" and "run p w = Some (a, w')"
  shows "I w' \<and> R w w'"
  using assms
proof (induction p arbitrary: w)
  case (Act g u k)
  then have "I (u w)" "R w (u w)" "upholds I R (k w) (u w)" "run (k w) (u w) = Some (a, w')"
    by (auto simp: R_refl split: if_splits)
  then have "I w' \<and> R (u w) w'" using Act.IH [OF rangeI] by blast
  with \<open>R w (u w)\<close> show ?case by (blast intro: R_trans)
qed (auto simp: R_refl)

end

end
