(* ===== verification/World.thy ===== *)
theory World
  imports StorageInv Presence Prog
begin

text \<open>
  What the handlers share: the database behind \<open>Storage\<close>, the \<open>Hub\<close> of \<open>waiter.rs\<close>, the
  \<open>Presence\<close> registry and the two clocks. \<open>sql\<close>, \<open>fetch\<close> and \<open>look\<close> are the awaited storage calls
  with the \<open>?\<close> operator; each is one atomic action. The rely-guarantee contract of the server is
  the interpretation of the locale \<open>rely\<close> at the end.
\<close>

record World =
  w_db :: Db
  w_hub :: "string \<rightharpoonup> nat"
  w_presence :: ParkMap
  w_now :: time
  w_mono :: time

text \<open>The configuration of \<open>AppState\<close>: the long-poll cap and the grace window of \<open>Presence\<close>.\<close>

record AppState =
  wait_cap :: time
  presence_grace :: time

definition DEFAULT_WAIT_CAP :: time where
  "DEFAULT_WAIT_CAP = seconds 600"

definition AppState_new :: AppState where
  "AppState_new = \<lparr>wait_cap = DEFAULT_WAIT_CAP, presence_grace = DEFAULT_GRACE\<rparr>"

definition world_of :: "Db \<Rightarrow> time \<Rightarrow> World" where
  "world_of d t = \<lparr>w_db = d, w_hub = Map.empty, w_presence = Map.empty, w_now = t, w_mono = 0\<rparr>"

section \<open>Storage calls\<close>

text \<open>A call that may write: \<open>conv\<close> is the \<open>From\<close> conversion that \<open>?\<close> applies to its error.\<close>

definition sql ::
  "(StorageError \<Rightarrow> 'e) \<Rightarrow> (Db \<Rightarrow> (StorageError + 'a) \<times> Db) \<Rightarrow>
   ('a \<Rightarrow> (World, 'e + 'b) prog) \<Rightarrow> (World, 'e + 'b) prog" where
  "sql conv f k = Exec (\<lambda>w. (fst (f (w_db w)), w\<lparr>w_db := snd (f (w_db w))\<rparr>))
     (\<lambda>r. case r of Inl e \<Rightarrow> Ret (Inl (conv e)) | Inr a \<Rightarrow> k a)"

text \<open>The same call whose result is matched by the caller instead of passed to \<open>?\<close>.\<close>

definition sql_match ::
  "(Db \<Rightarrow> (StorageError + 'a) \<times> Db) \<Rightarrow> (StorageError + 'a \<Rightarrow> (World, 'r) prog) \<Rightarrow> (World, 'r) prog" where
  "sql_match f k = Exec (\<lambda>w. (fst (f (w_db w)), w\<lparr>w_db := snd (f (w_db w))\<rparr>)) k"

text \<open>Calls that only read: with an error, and without one.\<close>

definition fetch ::
  "(StorageError \<Rightarrow> 'e) \<Rightarrow> (Db \<Rightarrow> StorageError + 'a) \<Rightarrow>
   ('a \<Rightarrow> (World, 'e + 'b) prog) \<Rightarrow> (World, 'e + 'b) prog" where
  "fetch conv f k = Query (\<lambda>w. f (w_db w))
     (\<lambda>r. case r of Inl e \<Rightarrow> Ret (Inl (conv e)) | Inr a \<Rightarrow> k a)"

definition look :: "(Db \<Rightarrow> 'a) \<Rightarrow> ('a \<Rightarrow> (World, 'r) prog) \<Rightarrow> (World, 'r) prog" where
  "look f k = Query (\<lambda>w. f (w_db w)) k"

text \<open>\<open>OffsetDateTime::now_utc()\<close> and \<open>Instant::now()\<close>.\<close>

definition now_utc :: "(time \<Rightarrow> (World, 'r) prog) \<Rightarrow> (World, 'r) prog" where
  "now_utc k = Query w_now k"

definition mono_now :: "(time \<Rightarrow> (World, 'r) prog) \<Rightarrow> (World, 'r) prog" where
  "mono_now k = Query w_mono k"

text \<open>An awaited sub-program with \<open>?\<close>.\<close>

definition call ::
  "('e \<Rightarrow> 'f) \<Rightarrow> (World, 'e + 'a) prog \<Rightarrow> ('a \<Rightarrow> (World, 'f + 'b) prog) \<Rightarrow> (World, 'f + 'b) prog" where
  "call conv p k = bind p (\<lambda>r. case r of Inl e \<Rightarrow> Ret (Inl (conv e)) | Inr a \<Rightarrow> k a)"

lemma run_sql [run_simps]:
  "run (sql conv f k) w =
     (case fst (f (w_db w)) of
        Inl e \<Rightarrow> Some (Inl (conv e), w\<lparr>w_db := snd (f (w_db w))\<rparr>)
      | Inr a \<Rightarrow> run (k a) (w\<lparr>w_db := snd (f (w_db w))\<rparr>))"
  by (simp add: sql_def run_simps split: sum.split)

lemma run_sql_match [run_simps]:
  "run (sql_match f k) w = run (k (fst (f (w_db w)))) (w\<lparr>w_db := snd (f (w_db w))\<rparr>)"
  by (simp add: sql_match_def run_simps)

lemma run_fetch [run_simps]:
  "run (fetch conv f k) w =
     (case f (w_db w) of Inl e \<Rightarrow> Some (Inl (conv e), w) | Inr a \<Rightarrow> run (k a) w)"
  by (simp add: fetch_def run_simps split: sum.split)

lemma run_look [run_simps]: "run (look f k) w = run (k (f (w_db w))) w"
  by (simp add: look_def run_simps)

lemma run_now_utc [run_simps]: "run (now_utc k) w = run (k (w_now w)) w"
  by (simp add: now_utc_def run_simps)

lemma run_mono_now [run_simps]: "run (mono_now k) w = run (k (w_mono w)) w"
  by (simp add: mono_now_def run_simps)

lemma run_call [run_simps]:
  "run (call conv p k) w =
     (case run p w of None \<Rightarrow> None
      | Some (Inl e, w') \<Rightarrow> Some (Inl (conv e), w')
      | Some (Inr a, w') \<Rightarrow> run (k a) w')"
  by (auto simp: call_def run_simps split: option.split sum.split)

section \<open>Hub\<close>

text \<open>
  A channel is the number of pings sent on it; a receiver is the room and the number of pings it
  has consumed, which for a new subscription is all of them. A ping sent while a channel has no
  receiver is dropped by \<open>broadcast\<close>; counting it makes no difference, because every later receiver
  starts behind it.
\<close>

record Receiver =
  rx_room :: string
  rx_seen :: nat

definition CHANNEL_CAPACITY :: nat where
  "CHANNEL_CAPACITY = 16"

definition hub_subscribe :: "string \<Rightarrow> (string \<rightharpoonup> nat) \<Rightarrow> Receiver \<times> (string \<rightharpoonup> nat)" where
  "hub_subscribe rid hub =
     (case hub rid of
        None \<Rightarrow> (\<lparr>rx_room = rid, rx_seen = 0\<rparr>, hub(rid \<mapsto> 0))
      | Some n \<Rightarrow> (\<lparr>rx_room = rid, rx_seen = n\<rparr>, hub))"

definition hub_notify :: "string \<Rightarrow> (string \<rightharpoonup> nat) \<Rightarrow> (string \<rightharpoonup> nat)" where
  "hub_notify rid hub = hub(rid \<mapsto> (case hub rid of None \<Rightarrow> 0 | Some n \<Rightarrow> n) + 1)"

definition pings :: "(string \<rightharpoonup> nat) \<Rightarrow> string \<Rightarrow> nat" where
  "pings hub rid = (case hub rid of None \<Rightarrow> 0 | Some n \<Rightarrow> n)"

text \<open>\<open>recv\<close> is ready when a ping is unseen. \<open>Lagged\<close> moves the receiver to the oldest ping that is
  still buffered.\<close>

datatype Recv = RecvOk | RecvLagged nat

definition recv_ready :: "Receiver \<Rightarrow> (string \<rightharpoonup> nat) \<Rightarrow> bool" where
  "recv_ready rx hub \<longleftrightarrow> rx_seen rx < pings hub (rx_room rx)"

definition recv_take :: "Receiver \<Rightarrow> (string \<rightharpoonup> nat) \<Rightarrow> Recv \<times> Receiver" where
  "recv_take rx hub =
     (let behind = pings hub (rx_room rx) - rx_seen rx
      in if CHANNEL_CAPACITY < behind
         then (RecvLagged (behind - CHANNEL_CAPACITY),
               rx\<lparr>rx_seen := pings hub (rx_room rx) - CHANNEL_CAPACITY\<rparr>)
         else (RecvOk, rx\<lparr>rx_seen := rx_seen rx + 1\<rparr>))"

definition subscribe :: "string \<Rightarrow> (Receiver \<Rightarrow> (World, 'r) prog) \<Rightarrow> (World, 'r) prog" where
  "subscribe rid k = Exec (\<lambda>w. let (rx, hub) = hub_subscribe rid (w_hub w) in (rx, w\<lparr>w_hub := hub\<rparr>)) k"

definition notify :: "string \<Rightarrow> (World, 'r) prog \<Rightarrow> (World, 'r) prog" where
  "notify rid k = Exec (\<lambda>w. ((), w\<lparr>w_hub := hub_notify rid (w_hub w)\<rparr>)) (\<lambda>_. k)"

lemma run_notify [run_simps]:
  "run (notify rid k) w = run k (w\<lparr>w_hub := hub_notify rid (w_hub w)\<rparr>)"
  by (simp add: notify_def run_simps)

lemma run_subscribe [run_simps]:
  "run (subscribe rid k) w =
     run (k (fst (hub_subscribe rid (w_hub w)))) (w\<lparr>w_hub := snd (hub_subscribe rid (w_hub w))\<rparr>)"
  by (simp add: subscribe_def run_simps split: prod.split)

lemma subscribed_seen: "rx_seen (fst (hub_subscribe rid hub)) = pings hub rid"
  by (simp add: hub_subscribe_def pings_def split: option.split)

lemma pings_subscribe [simp]: "pings (snd (hub_subscribe rid hub)) r = pings hub r"
  by (simp add: hub_subscribe_def pings_def split: option.split)

lemma pings_notify [simp]:
  "pings (hub_notify rid hub) r = (if r = rid then pings hub r + 1 else pings hub r)"
  by (simp add: hub_notify_def pings_def split: option.split)

section \<open>Presence\<close>

definition park :: "AppState \<Rightarrow> string \<Rightarrow> (World, 'r) prog \<Rightarrow> (World, 'r) prog" where
  "park st h k = Exec (\<lambda>w. ((), w\<lparr>w_presence := enter (presence_grace st) h (w_mono w) (w_presence w)\<rparr>)) (\<lambda>_. k)"

definition unpark :: "string \<Rightarrow> (World, 'r) prog \<Rightarrow> (World, 'r) prog" where
  "unpark h k = Exec (\<lambda>w. ((), w\<lparr>w_presence := release h (w_mono w) (w_presence w)\<rparr>)) (\<lambda>_. k)"

definition probe :: "AppState \<Rightarrow> string \<Rightarrow> (bool \<Rightarrow> (World, 'r) prog) \<Rightarrow> (World, 'r) prog" where
  "probe st h k = Exec (\<lambda>w. let (live, m) = is_live (presence_grace st) h (w_mono w) (w_presence w)
                       in (live, w\<lparr>w_presence := m\<rparr>)) k"

text \<open>The scope of a \<open>ParkGuard\<close>: \<open>p\<close> runs with the guard held, which is dropped on every return.\<close>

definition with_park :: "AppState \<Rightarrow> string \<Rightarrow> (World, 'r) prog \<Rightarrow> (World, 'r) prog" where
  "with_park st h p = park st h (bind p (\<lambda>r. unpark h (Ret r)))"

lemma run_with_park [run_simps]:
  "run (with_park st h p) w =
     (case run p (w\<lparr>w_presence := enter (presence_grace st) h (w_mono w) (w_presence w)\<rparr>) of
        None \<Rightarrow> None
      | Some (r, w') \<Rightarrow> Some (r, w'\<lparr>w_presence := release h (w_mono w') (w_presence w')\<rparr>))"
  by (simp add: with_park_def park_def unpark_def run_simps split: option.split)

lemma run_probe [run_simps]:
  "run (probe st h k) w =
     run (k (fst (is_live (presence_grace st) h (w_mono w) (w_presence w))))
       (w\<lparr>w_presence := snd (is_live (presence_grace st) h (w_mono w) (w_presence w))\<rparr>)"
  by (simp add: probe_def run_simps split: prod.split)

section \<open>The contract of every action\<close>

definition db_ok :: "World \<Rightarrow> bool" where
  "db_ok w \<longleftrightarrow> wf_db (w_db w)"

definition db_evolves :: "World \<Rightarrow> World \<Rightarrow> bool" where
  "db_evolves w w' \<longleftrightarrow> evolves (w_db w) (w_db w')"

text \<open>What happens besides the programs: both clocks move, and the guards of cancelled requests are
  dropped; the database is only changed by programs. The wall clock may be set back.\<close>

definition ambient :: "World \<Rightarrow> World \<Rightarrow> bool" where
  "ambient w w' \<longleftrightarrow> w_db w' = w_db w \<and> w_hub w' = w_hub w \<and> w_mono w \<le> w_mono w'"

interpretation server: rely db_ok db_evolves ambient
  by unfold_locales (auto simp: db_ok_def db_evolves_def ambient_def intro: evolves_trans)

abbreviation keeps :: "(World, 'a) prog \<Rightarrow> World \<Rightarrow> bool" where
  "keeps \<equiv> upholds db_ok db_evolves"

lemma keeps_sql:
  assumes "\<And>v. db_evolves w v \<Longrightarrow> db_ok v \<Longrightarrow> sound (w_db v) (snd (f (w_db v)))"
    and "\<And>v a. db_evolves w v \<Longrightarrow> db_ok v \<Longrightarrow> fst (f (w_db v)) = Inr a \<Longrightarrow>
      db_evolves w (v\<lparr>w_db := snd (f (w_db v))\<rparr>) \<Longrightarrow> db_ok (v\<lparr>w_db := snd (f (w_db v))\<rparr>) \<Longrightarrow>
      keeps (k a) (v\<lparr>w_db := snd (f (w_db v))\<rparr>)"
  shows "keeps (sql conv f k) w"
  unfolding sql_def
proof (rule server.upholds_Exec)
  fix v assume v: "db_evolves w v" "db_ok v"
  with assms(1) have "wf_db (snd (f (w_db v)))" "evolves (w_db v) (snd (f (w_db v)))"
    by (auto simp: sound_def db_ok_def)
  moreover with v have "db_evolves w (v\<lparr>w_db := snd (f (w_db v))\<rparr>)"
    by (auto simp: db_evolves_def intro: evolves_trans)
  ultimately show "db_ok (snd (fst (f (w_db v)), v\<lparr>w_db := snd (f (w_db v))\<rparr>)) \<and>
      db_evolves v (snd (fst (f (w_db v)), v\<lparr>w_db := snd (f (w_db v))\<rparr>)) \<and>
      keeps (case fst (fst (f (w_db v)), v\<lparr>w_db := snd (f (w_db v))\<rparr>) of
          Inl e \<Rightarrow> Ret (Inl (conv e)) | Inr a \<Rightarrow> k a)
        (snd (fst (f (w_db v)), v\<lparr>w_db := snd (f (w_db v))\<rparr>))"
    using assms(2) [OF v] by (auto simp: db_ok_def db_evolves_def split: sum.split)
qed

lemma keeps_sql_match:
  assumes "\<And>v. db_evolves w v \<Longrightarrow> db_ok v \<Longrightarrow> sound (w_db v) (snd (f (w_db v)))"
    and "\<And>v r. db_evolves w v \<Longrightarrow> db_ok v \<Longrightarrow> fst (f (w_db v)) = r \<Longrightarrow>
      db_evolves w (v\<lparr>w_db := snd (f (w_db v))\<rparr>) \<Longrightarrow> db_ok (v\<lparr>w_db := snd (f (w_db v))\<rparr>) \<Longrightarrow>
      keeps (k r) (v\<lparr>w_db := snd (f (w_db v))\<rparr>)"
  shows "keeps (sql_match f k) w"
  unfolding sql_match_def
proof (rule server.upholds_Exec)
  fix v assume v: "db_evolves w v" "db_ok v"
  with assms(1) have "wf_db (snd (f (w_db v)))" "evolves (w_db v) (snd (f (w_db v)))"
    by (auto simp: sound_def db_ok_def)
  moreover with v have "db_evolves w (v\<lparr>w_db := snd (f (w_db v))\<rparr>)"
    by (auto simp: db_evolves_def intro: evolves_trans)
  ultimately show "db_ok (snd (fst (f (w_db v)), v\<lparr>w_db := snd (f (w_db v))\<rparr>)) \<and>
      db_evolves v (snd (fst (f (w_db v)), v\<lparr>w_db := snd (f (w_db v))\<rparr>)) \<and>
      keeps (k (fst (fst (f (w_db v)), v\<lparr>w_db := snd (f (w_db v))\<rparr>)))
        (snd (fst (f (w_db v)), v\<lparr>w_db := snd (f (w_db v))\<rparr>))"
    using assms(2) [OF v refl] by (auto simp: db_ok_def db_evolves_def)
qed

lemma keeps_fetch:
  assumes "\<And>v a. db_evolves w v \<Longrightarrow> db_ok v \<Longrightarrow> f (w_db v) = Inr a \<Longrightarrow> keeps (k a) v"
  shows "keeps (fetch conv f k) w"
  unfolding fetch_def by (rule server.upholds_Query) (auto split: sum.split intro: assms)

lemma keeps_look:
  assumes "\<And>v. db_evolves w v \<Longrightarrow> db_ok v \<Longrightarrow> keeps (k (f (w_db v))) v"
  shows "keeps (look f k) w"
  unfolding look_def by (rule server.upholds_Query) (rule assms)

lemma keeps_now_utc: "(\<And>v t. db_evolves w v \<Longrightarrow> db_ok v \<Longrightarrow> keeps (k t) v) \<Longrightarrow> keeps (now_utc k) w"
  unfolding now_utc_def by (rule server.upholds_Query)

lemma keeps_mono_now: "(\<And>v t. db_evolves w v \<Longrightarrow> db_ok v \<Longrightarrow> keeps (k t) v) \<Longrightarrow> keeps (mono_now k) w"
  unfolding mono_now_def by (rule server.upholds_Query)

lemma keeps_silent:
  assumes "\<And>v. w_db (snd (f v)) = w_db v"
    and "\<And>v a. db_evolves w v \<Longrightarrow> db_ok v \<Longrightarrow> keeps (k a) v"
  shows "keeps (Exec f k) w"
proof (rule server.upholds_Exec)
  fix v assume v: "db_evolves w v" "db_ok v"
  moreover have "db_evolves w (snd (f v))" "db_ok (snd (f v))"
    using v assms(1) [of v] by (simp_all add: db_evolves_def db_ok_def)
  moreover have "db_evolves v (snd (f v))" using assms(1) [of v] by (simp add: db_evolves_def)
  ultimately show "db_ok (snd (f v)) \<and> db_evolves v (snd (f v)) \<and> keeps (k (fst (f v))) (snd (f v))"
    using assms(2) by blast
qed

lemma keeps_notify: "(\<And>v. db_evolves w v \<Longrightarrow> db_ok v \<Longrightarrow> keeps k v) \<Longrightarrow> keeps (notify rid k) w"
  unfolding notify_def by (rule keeps_silent) simp_all

lemma keeps_subscribe:
  "(\<And>v rx. db_evolves w v \<Longrightarrow> db_ok v \<Longrightarrow> keeps (k rx) v) \<Longrightarrow> keeps (subscribe rid k) w"
  unfolding subscribe_def by (rule keeps_silent) (simp_all split: prod.split)

lemma keeps_park: "(\<And>v. db_evolves w v \<Longrightarrow> db_ok v \<Longrightarrow> keeps k v) \<Longrightarrow> keeps (park st h k) w"
  unfolding park_def by (rule keeps_silent) simp_all

lemma keeps_unpark: "(\<And>v. db_evolves w v \<Longrightarrow> db_ok v \<Longrightarrow> keeps k v) \<Longrightarrow> keeps (unpark h k) w"
  unfolding unpark_def by (rule keeps_silent) simp_all

lemma keeps_probe:
  "(\<And>v a. db_evolves w v \<Longrightarrow> db_ok v \<Longrightarrow> keeps (k a) v) \<Longrightarrow> keeps (probe st h k) w"
  unfolding probe_def by (rule keeps_silent) (simp_all split: prod.split)

lemma keeps_call:
  assumes "\<And>v. db_evolves w v \<Longrightarrow> db_ok v \<Longrightarrow> keeps p v"
    and "\<And>v a. db_evolves w v \<Longrightarrow> db_ok v \<Longrightarrow> keeps (k a) v"
  shows "keeps (call conv p k) w"
  unfolding call_def
proof (rule server.upholds_bind)
  show "keeps p w" using assms(1) by (rule server.upholds_lazy)
  fix r v assume wv: "db_evolves w v"
  have "keeps (k a) v" for a
  proof (rule server.upholds_lazy)
    fix u assume "db_evolves v u" and "db_ok u"
    then show "keeps (k a) u" using assms(2) server.R_trans [OF wv] by blast
  qed
  then show "keeps (case r of Inl e \<Rightarrow> Ret (Inl (conv e)) | Inr a \<Rightarrow> k a) v"
    by (cases r) simp_all
qed

lemma keeps_with_park:
  assumes "\<And>v. db_evolves w v \<Longrightarrow> db_ok v \<Longrightarrow> keeps p v"
  shows "keeps (with_park st h p) w"
  unfolding with_park_def
  by (intro keeps_park server.upholds_bind assms) (auto intro: keeps_unpark)

lemma keeps_Ret [simp, intro]: "keeps (Ret a) w"
  by simp

lemmas keeps_intros =
  keeps_fetch keeps_look keeps_now_utc keeps_mono_now keeps_notify
  keeps_subscribe keeps_probe keeps_call keeps_with_park

end
