(* ===== verification/Waiter.thy ===== *)
theory Waiter
  imports World Complex_Main
begin

text \<open>
  \<open>crates/chatbotchat-core/src/waiter.rs\<close> and \<open>claim_next_unread\<close> of \<open>storage.rs\<close>: the cursor
  compare-and-swap, the long-poll loop and the polling backoff. The two loops retry only after
  another program changed the world, so they carry fuel: the number of rounds they are followed
  for. Running out is the blocked program \<open>Hang\<close>, never a result. Alone, one round of the claim
  and two rounds of the wait are enough (\<open>run_claim\<close>, \<open>run_wait_claims\<close>).
\<close>

section \<open>Claiming\<close>

fun claim_next_unread :: "nat \<Rightarrow> string \<Rightarrow> string \<Rightarrow> (World, StorageError + Message option) prog" where
  "claim_next_unread 0 rid h = Hang"
| "claim_next_unread (Suc n) rid h =
     look (read_cursor h) (\<lambda>c. case c of
        None \<Rightarrow> Ret (Inr None)
      | Some cursor \<Rightarrow> look (next_unread rid h cursor) (\<lambda>m. case m of
          None \<Rightarrow> Ret (Inr None)
        | Some m \<Rightarrow> sql id (swap_cursor h cursor (m_seq m)) (\<lambda>claimed.
            if claimed then Ret (Inr (Some m)) else claim_next_unread n rid h)))"

section \<open>The long poll\<close>

datatype WaitOutcome = Delivered Message | PausedByTimeout

text \<open>\<open>timeout(remaining, rx.recv())\<close>: woken by an unseen ping, or when the time has passed;
  \<open>None\<close> is the elapsed timeout. \<open>recv\<close> is polled first, so a ping wins a tie.\<close>

definition recv_timeout ::
  "time \<Rightarrow> Receiver \<Rightarrow> ((Recv \<times> Receiver) option \<Rightarrow> (World, 'r) prog) \<Rightarrow> (World, 'r) prog" where
  "recv_timeout remaining rx k = mono_now (\<lambda>t.
     Await (\<lambda>w. recv_ready rx (w_hub w) \<or> t + remaining \<le> w_mono w)
       (\<lambda>w. (if recv_ready rx (w_hub w) then Some (recv_take rx (w_hub w)) else None, w)) k)"

fun wait_loop ::
  "nat \<Rightarrow> string \<Rightarrow> string \<Rightarrow> time \<Rightarrow> (World, StorageError + bool) prog \<Rightarrow> Receiver \<Rightarrow>
   (World, StorageError + WaitOutcome) prog" where
  "wait_loop 0 rid h deadline should_yield rx = Hang"
| "wait_loop (Suc n) rid h deadline should_yield rx =
     call id (claim_next_unread (Suc n) rid h) (\<lambda>m. case m of
        Some m \<Rightarrow> Ret (Inr (Delivered m))
      | None \<Rightarrow> mono_now (\<lambda>t.
          let remaining = saturating_since deadline t
          in if remaining = 0 then Ret (Inr PausedByTimeout)
             else call id should_yield (\<lambda>yielding.
               if yielding then Ret (Inr PausedByTimeout)
               else recv_timeout remaining rx (\<lambda>r. case r of
                 None \<Rightarrow> Ret (Inr PausedByTimeout)
               | Some (_, rx') \<Rightarrow> wait_loop n rid h deadline should_yield rx'))))"

definition wait_for_message_until ::
  "nat \<Rightarrow> string \<Rightarrow> string \<Rightarrow> time \<Rightarrow> (World, StorageError + bool) prog \<Rightarrow>
   (World, StorageError + WaitOutcome) prog" where
  "wait_for_message_until n rid h timeout should_yield =
     now_utc (\<lambda>now. sql id (touch_last_poll h now) (\<lambda>_.
       subscribe rid (\<lambda>rx. mono_now (\<lambda>t.
         wait_loop n rid h (t + timeout) should_yield rx))))"

definition wait_for_message ::
  "nat \<Rightarrow> string \<Rightarrow> string \<Rightarrow> time \<Rightarrow> (World, StorageError + WaitOutcome) prog" where
  "wait_for_message n rid h timeout = wait_for_message_until n rid h timeout (Ret (Inr False))"

section \<open>Backoff\<close>

text \<open>
  \<open>n as i32\<close> keeps the low 32 bits. The \<open>f64\<close> product is exact for the exponents whose result is
  below the cap (\<open>3 ^ n\<close> fits 53 bits up to \<open>n = 33\<close>), so the rational value has the same rounding;
  \<open>round\<close> is half-up and the cast to \<open>u32\<close> saturates.
\<close>

fun backoff_base :: "Severity \<Rightarrow> rat" where
  "backoff_base Low = 10"
| "backoff_base Med = 20"
| "backoff_base High = 45"

definition as_i32 :: "int \<Rightarrow> int" where
  "as_i32 n = sint (word_of_int n :: 32 word)"

definition powi_15 :: "int \<Rightarrow> rat" where
  "powi_15 n = (if 0 \<le> n then (3 / 2) ^ nat n else (2 / 3) ^ nat (- n))"

definition backoff_secs :: "Severity \<Rightarrow> int \<Rightarrow> int" where
  "backoff_secs sev elapsed_secs =
     (let n = max (elapsed_secs - 300) 0 div 60;
          raw = backoff_base sev * powi_15 (as_i32 n)
      in min (max 0 (min (\<lfloor>raw + 1 / 2\<rfloor>) (2 ^ 32 - 1))) 60)"

section \<open>What a claim does\<close>

lemma wf_handle_unique:
  "wf_db d \<Longrightarrow> p \<in> set (participants d) \<Longrightarrow> q \<in> set (participants d) \<Longrightarrow>
   p_handle p = p_handle q \<Longrightarrow> p = q"
  by (auto simp: wf_db_def wf_participants_def distinct_map dest: inj_onD)

lemma count_handle:
  assumes "distinct (map p_handle ps)" and "p \<in> set ps"
  shows "count_where (\<lambda>q. p_handle q = p_handle p \<and> last_read_seq q = last_read_seq p) ps = 1"
  using assms
proof (induction ps)
  case (Cons q qs)
  show ?case
  proof (cases "p = q")
    case True
    with Cons.prems have "count_where (\<lambda>r. p_handle r = p_handle p \<and> last_read_seq r = last_read_seq p) qs = 0"
      by (auto simp: count_where_eq_0 image_iff)
    with True show ?thesis by simp
  next
    case False
    with Cons show ?thesis by (auto simp: image_iff)
  qed
qed simp

lemma swap_cursor_alone:
  assumes "wf_db d" and "read_cursor h d = Some c"
  shows "fst (swap_cursor h c n d) = Inr True"
proof -
  from assms(2) obtain p where p: "p \<in> set (participants d)" "p_handle p = h" "last_read_seq p = c"
    by (auto simp: read_cursor_def dest: find_SomeD)
  with assms(1) count_handle [of "participants d" p] show ?thesis
    by (simp add: swap_cursor_def wf_db_def wf_participants_def)
qed

text \<open>Alone, a claim takes one round.\<close>

definition claimable :: "string \<Rightarrow> string \<Rightarrow> Db \<Rightarrow> Message option" where
  "claimable rid h d = (case read_cursor h d of None \<Rightarrow> None | Some c \<Rightarrow> next_unread rid h c d)"

definition after_claim :: "string \<Rightarrow> string \<Rightarrow> Db \<Rightarrow> Db" where
  "after_claim rid h d = (case claimable rid h d of None \<Rightarrow> d
     | Some m \<Rightarrow> snd (swap_cursor h (the (read_cursor h d)) (m_seq m) d))"

lemma run_claim:
  assumes "db_ok w"
  shows "run (claim_next_unread (Suc n) rid h) w =
    Some (Inr (claimable rid h (w_db w)), w\<lparr>w_db := after_claim rid h (w_db w)\<rparr>)"
  using assms swap_cursor_alone [of "w_db w" h]
  by (auto simp: run_simps claimable_def after_claim_def db_ok_def split: option.split)

lemma claim_keeps: "keeps (claim_next_unread n rid h) w"
proof (induction n arbitrary: w)
  case (Suc n)
  have swap: "keeps (sql id (swap_cursor h c (m_seq m)) (\<lambda>claimed.
      if claimed then Ret (Inr (Some m)) else claim_next_unread n rid h)) v"
    if "db_ok v" "next_unread rid h c (w_db v) = Some m" for v c m
  proof (rule keeps_sql)
    fix u assume u: "db_evolves v u" "db_ok u"
    have "m \<in> set (messages (w_db v))"
      using that(2) by (auto simp: next_unread_def dest!: first_row_Some)
    moreover from this that(1) have "0 < m_seq m"
      by (auto simp: db_ok_def wf_db_def wf_messages_def)
    moreover have "m_seq m \<le> top_seq (w_db u)"
      using top_seq_ge [OF \<open>m \<in> set (messages (w_db v))\<close>] u
        evolves_top_seq [of "w_db u" "w_db v"] by (simp add: db_ok_def db_evolves_def)
    ultimately show "sound (w_db u) (snd (swap_cursor h c (m_seq m) (w_db u)))"
      by (intro sound_swap_cursor) simp_all
  qed (auto intro: Suc.IH)
  show ?case
    unfolding claim_next_unread.simps
    by (intro keeps_look) (auto intro!: keeps_look swap split: option.split)
qed simp

lemma recv_timeout_keeps:
  "(\<And>v r. db_evolves w v \<Longrightarrow> db_ok v \<Longrightarrow> keeps (k r) v) \<Longrightarrow> keeps (recv_timeout t rx k) w"
  unfolding recv_timeout_def
  by (intro keeps_mono_now server.upholds_Await)
    (auto simp: server.R_refl intro: server.R_trans)

lemma wait_loop_keeps:
  assumes "\<And>v. keeps should_yield v"
  shows "keeps (wait_loop n rid h deadline should_yield rx) w"
proof (induction n arbitrary: w rx)
  case (Suc n)
  show ?case
    unfolding wait_loop.simps
    by (intro keeps_call claim_keeps)
      (auto simp: Let_def intro!: keeps_mono_now keeps_call recv_timeout_keeps assms Suc.IH
        split: option.split)
qed simp

lemma wait_until_keeps:
  assumes "\<And>v. keeps should_yield v"
  shows "keeps (wait_for_message_until n rid h timeout should_yield) w"
  unfolding wait_for_message_until_def
  by (intro keeps_now_utc keeps_sql keeps_subscribe keeps_mono_now wait_loop_keeps)
    (auto intro: wf_keeps assms)

lemma wait_keeps: "keeps (wait_for_message n rid h timeout) w"
  unfolding wait_for_message_def by (rule wait_until_keeps) simp

declare wait_loop.simps [simp del]

end
