(* ===== verification/Protocol.thy ===== *)
theory Protocol
  imports Domain
begin

text \<open>
  \<open>crates/chatbotchat-protocol/src/lib.rs\<close>: the request and response bodies, and the closed
  vocabulary of \<open>wait\<close> statuses with its parser. Every participant request starts with the four
  fields that identify the caller; they are one record here, extended by each request. A default
  of \<open>serde\<close> (an omitted field) is the value the field then has.
\<close>

section \<open>Requests\<close>

record OpenRoomRequest =
  or_subject :: string
  or_hard_cap :: "u32 option"
  or_soft_cap :: "u32 option"
  or_prev_room_id :: "string option"

record Caller =
  q_repo :: string
  q_model :: string
  q_cwd :: string
  q_instance :: string

record JoinRoomRequest = Caller +
  jr_nickname :: "string option"

record SendMessageRequest = Caller +
  sm_to :: "string option"
  sm_body :: string
  sm_from_human :: bool

record SignalRequest = Caller +
  sg_signal_type :: string
  sg_severity :: "string option"
  sg_question_text :: "string option"
  sg_reason :: "string option"

record LifecycleRequest = Caller +
  lr_reason :: "string option"
  lr_force :: bool

type_synonym ExtendRequest = Caller

record WaitRequest = Caller +
  wr_max_wait_secs :: "u32 option"

section \<open>Responses\<close>

record OpenRoomResponse =
  os_room_id :: string
  os_share_line :: string

record MessageView =
  mv_seq :: int
  mv_from :: string
  mv_to :: "string option"
  mv_body :: string
  mv_created_at :: string
  mv_msg_type :: string
  mv_severity :: "string option"
  mv_question_text :: "string option"

record SendMessageResponse =
  ms_seq :: int

record SignalResponse =
  gs_seq :: int

record LifecycleResponse =
  ls_state :: string
  ls_status :: "string option"
  ls_votes :: "u32 option"
  ls_needed :: "u32 option"

record ExtendResponse =
  es_state :: string
  es_status :: string
  es_votes :: "u32 option"
  es_needed :: "u32 option"
  es_hard_cap :: "u32 option"

record PruneResponse =
  pr_pruned :: u32
  pr_remaining :: u32

datatype WaitResponse =
    WaitMessage (wm_message: MessageView) (wm_surface_to_user: bool)
      (wm_retry_after: "u32 option") (wm_room_state: "string option")
  | WaitTimeout (wt_status: string) (wt_retry_after: "u32 option")

record JoinRoomResponse =
  js_handle :: string
  js_resumed :: bool
  js_room_state :: string
  js_recent_messages :: "MessageView list"

record ParticipantView =
  pv_handle :: string
  pv_repo :: string
  pv_model :: string
  pv_cwd :: string
  pv_joined_at :: string
  pv_seconds_since_poll :: int
  pv_stale :: bool
  pv_poll_live :: bool
  pv_nickname :: "string option"

record RoomStatus =
  rs_id :: string
  rs_subject :: string
  rs_state :: string
  rs_started_at :: string
  rs_last_activity_at :: string
  rs_participants :: "ParticipantView list"

record RoomSummary =
  su_room_id :: string
  su_state :: string
  su_subject :: string
  su_last_activity_at :: string
  su_participant_count :: int

record RoomTranscript =
  tr_id :: string
  tr_subject :: string
  tr_state :: string
  tr_started_at :: string
  tr_last_activity_at :: string
  tr_hard_cap :: u32
  tr_soft_cap :: u32
  tr_hard_cap_count :: int
  tr_soft_cap_consecutive :: int
  tr_participants :: "ParticipantView list"
  tr_messages :: "MessageView list"

record ErrorEnvelope =
  ee_error :: string

section \<open>Wait statuses\<close>

datatype WaitStatus =
    WsPausedByTimeout | WsAwaitingCounterpart | WsCounterpartStale | WsCloseProposed
  | WsExtendProposed | WsPaused | WsClosed | WsArchived | WsUnknown string

definition from_wire :: "string \<Rightarrow> WaitStatus" where
  "from_wire s =
     (if s = ''paused_by_timeout'' then WsPausedByTimeout
      else if s = ''awaiting_counterpart'' then WsAwaitingCounterpart
      else if s = ''counterpart_stale'' then WsCounterpartStale
      else if s = ''close_proposed'' then WsCloseProposed
      else if s = ''extend_proposed'' then WsExtendProposed
      else if s = ''paused'' then WsPaused
      else if s = ''closed'' then WsClosed
      else if s = ''archived'' then WsArchived
      else WsUnknown s)"

fun as_wire :: "WaitStatus \<Rightarrow> string" where
  "as_wire WsPausedByTimeout = ''paused_by_timeout''"
| "as_wire WsAwaitingCounterpart = ''awaiting_counterpart''"
| "as_wire WsCounterpartStale = ''counterpart_stale''"
| "as_wire WsCloseProposed = ''close_proposed''"
| "as_wire WsExtendProposed = ''extend_proposed''"
| "as_wire WsPaused = ''paused''"
| "as_wire WsClosed = ''closed''"
| "as_wire WsArchived = ''archived''"
| "as_wire (WsUnknown s) = s"

fun known :: "WaitStatus \<Rightarrow> bool" where
  "known (WsUnknown s) = False"
| "known _ = True"

lemma from_wire_as_wire: "known w \<Longrightarrow> from_wire (as_wire w) = w"
  by (cases w) (simp_all add: from_wire_def)

section \<open>Properties\<close>

text \<open>Statuses survive the wire. Any string, also one this build does not know, comes back from
  \<open>from_wire\<close> and \<open>as_wire\<close> unchanged; a known status is recognised as itself; and a room state
  that halts a wait is sent under the name that \<open>from_wire\<close> reads as that state.\<close>

lemma wait_status_roundtrip:
  "as_wire (from_wire s) = s \<and> (from_wire s = WsUnknown t \<longrightarrow> t = s) \<and>
   (known w \<longrightarrow> from_wire (as_wire w) = w) \<and>
   from_wire (RoomState_as_str Paused) = WsPaused \<and>
   from_wire (RoomState_as_str Closed) = WsClosed \<and>
   from_wire (RoomState_as_str Archived) = WsArchived"
  using from_wire_as_wire [of w] by (simp add: from_wire_def)

end
