(* ===== verification/Text.thy ===== *)
theory Text
  imports Prelude
begin

text \<open>
  The functions of Rust's \<open>str\<close> and \<open>char\<close> that the program uses on text: ASCII classes, trimming,
  splitting into lines and into words, prefixes. A text is the list of its UTF-8 bytes; bytes above
  127 belong to no ASCII class, so white space outside ASCII is not recognised.
\<close>

section \<open>Characters\<close>

definition is_ascii_alphanumeric :: "char \<Rightarrow> bool" where
  "is_ascii_alphanumeric c \<longleftrightarrow>
     (let n = (of_char c :: nat) in 48 \<le> n \<and> n \<le> 57 \<or> 65 \<le> n \<and> n \<le> 90 \<or> 97 \<le> n \<and> n \<le> 122)"

definition is_space :: "char \<Rightarrow> bool" where
  "is_space c \<longleftrightarrow> (let n = (of_char c :: nat) in n = 32 \<or> 9 \<le> n \<and> n \<le> 13)"

abbreviation newline :: char where "newline \<equiv> CHR 0x0A"
abbreviation carriage_return :: char where "carriage_return \<equiv> CHR 0x0D"
abbreviation tabulator :: char where "tabulator \<equiv> CHR 0x09"

lemma is_space_literals [simp]:
  "is_space (CHR '' '')" "is_space newline" "is_space carriage_return" "is_space tabulator"
  by (simp_all add: is_space_def)

lemma alphanumeric_not_space: "is_ascii_alphanumeric c \<Longrightarrow> \<not> is_space c"
  by (auto simp: is_ascii_alphanumeric_def is_space_def Let_def)

section \<open>Trimming\<close>

definition trim_start :: "string \<Rightarrow> string" where
  "trim_start s = dropWhile is_space s"

definition trim_end_matches :: "(char \<Rightarrow> bool) \<Rightarrow> string \<Rightarrow> string" where
  "trim_end_matches P s = rev (dropWhile P (rev s))"

definition trim :: "string \<Rightarrow> string" where
  "trim s = trim_end_matches is_space (trim_start s)"

text \<open>A text without white space at either end.\<close>

definition trimmed :: "string \<Rightarrow> bool" where
  "trimmed s \<longleftrightarrow> (s \<noteq> [] \<longrightarrow> \<not> is_space (hd s) \<and> \<not> is_space (last s))"

lemma trim_end_matches_keeps: "(s \<noteq> [] \<longrightarrow> \<not> P (last s)) \<Longrightarrow> trim_end_matches P s = s"
  by (cases s rule: rev_cases) (auto simp: trim_end_matches_def)

lemma trim_end_matches_last: "trim_end_matches P s \<noteq> [] \<Longrightarrow> \<not> P (last (trim_end_matches P s))"
proof -
  assume "trim_end_matches P s \<noteq> []"
  then have "dropWhile P (rev s) \<noteq> []" by (simp add: trim_end_matches_def)
  then show ?thesis using hd_dropWhile [of P "rev s"] by (simp add: trim_end_matches_def last_rev)
qed

lemma trim_end_matches_hd: "trim_end_matches P s \<noteq> [] \<Longrightarrow> hd (trim_end_matches P s) = hd s"
proof -
  assume nonempty: "trim_end_matches P s \<noteq> []"
  have "rev s = takeWhile P (rev s) @ dropWhile P (rev s)" by simp
  then have "s = trim_end_matches P s @ rev (takeWhile P (rev s))"
    unfolding trim_end_matches_def by (metis rev_append rev_rev_ident)
  with nonempty show ?thesis by (metis hd_append2)
qed

lemma trim_id: "trimmed s \<Longrightarrow> trim s = s"
  by (cases s) (auto simp: trimmed_def trim_def trim_start_def intro!: trim_end_matches_keeps)

lemma trim_trimmed: "trimmed (trim s)"
  unfolding trimmed_def trim_def
proof (intro impI conjI)
  assume t: "trim_end_matches is_space (trim_start s) \<noteq> []"
  then have "trim_start s \<noteq> []" by (auto simp: trim_end_matches_def)
  then have "\<not> is_space (hd (trim_start s))"
    unfolding trim_start_def by (rule hd_dropWhile)
  with trim_end_matches_hd [OF t] show "\<not> is_space (hd (trim_end_matches is_space (trim_start s)))" by simp
  show "\<not> is_space (last (trim_end_matches is_space (trim_start s)))" by (rule trim_end_matches_last [OF t])
qed

lemma trim_twice [simp]: "trim (trim s) = trim s"
  by (rule trim_id [OF trim_trimmed])

lemma trim_spaces: "list_all is_space pre \<Longrightarrow> trim (pre @ s) = trim s"
  by (simp add: trim_def trim_start_def list_all_iff dropWhile_append2)

lemma trim_Nil [simp]: "trim [] = []"
  by (simp add: trim_def trim_start_def trim_end_matches_def)

section \<open>Prefixes and splitting at a separator\<close>

definition starts_with :: "string \<Rightarrow> string \<Rightarrow> bool" where
  "starts_with p s \<longleftrightarrow> take (length p) s = p"

definition strip_prefix :: "string \<Rightarrow> string \<Rightarrow> string option" where
  "strip_prefix p s = (if starts_with p s then Some (drop (length p) s) else None)"

lemma strip_prefix_append [simp]: "strip_prefix p (p @ s) = Some s"
  by (simp add: strip_prefix_def starts_with_def)

lemma strip_prefix_Some: "strip_prefix p s = Some t \<longleftrightarrow> s = p @ t"
proof
  assume "strip_prefix p s = Some t"
  then have "take (length p) s = p" "drop (length p) s = t"
    by (auto simp: strip_prefix_def starts_with_def split: if_splits)
  then show "s = p @ t" by (metis append_take_drop_id)
qed simp

text \<open>The parts around the first character that satisfies \<open>P\<close>, and around the first occurrence of a
  text.\<close>

definition split_first :: "(char \<Rightarrow> bool) \<Rightarrow> string \<Rightarrow> (string \<times> string) option" where
  "split_first P s = (case dropWhile (\<lambda>c. \<not> P c) s of
       [] \<Rightarrow> None | c # rest \<Rightarrow> Some (takeWhile (\<lambda>c. \<not> P c) s, rest))"

fun split_once :: "string \<Rightarrow> string \<Rightarrow> (string \<times> string) option" where
  "split_once pat [] = (if pat = [] then Some ([], []) else None)"
| "split_once pat (c # cs) =
     (case strip_prefix pat (c # cs) of
        Some rest \<Rightarrow> Some ([], rest)
      | None \<Rightarrow> map_option (\<lambda>(a, b). (c # a, b)) (split_once pat cs))"

lemma split_first_append:
  assumes "list_all (\<lambda>c. \<not> P c) a" and "P c"
  shows "split_first P (a @ c # b) = Some (a, b)"
  using assms by (simp add: split_first_def list_all_iff takeWhile_append dropWhile_append)

section \<open>Lines\<close>

text \<open>\<open>str::lines\<close>: a line ends with a newline or with a carriage return and a newline.\<close>

fun lines :: "string \<Rightarrow> string list" where
  "lines [] = []"
| "lines (c # cs) =
     (if c = newline then [] # lines cs
      else if c = carriage_return \<and> cs \<noteq> [] \<and> hd cs = newline then [] # lines (tl cs)
      else (case lines cs of [] \<Rightarrow> [[c]] | l # ls \<Rightarrow> (c # l) # ls))"

definition plain :: "string \<Rightarrow> bool" where
  "plain s \<longleftrightarrow> newline \<notin> set s \<and> carriage_return \<notin> set s"

definition unlines :: "string list \<Rightarrow> string" where
  "unlines ls = concat (map (\<lambda>l. l @ [newline]) ls)"

lemma lines_plain: "plain l \<Longrightarrow> lines (l @ newline # s) = l # lines s"
  by (induction l) (auto simp: plain_def)

lemma lines_unlines: "list_all plain ls \<Longrightarrow> lines (unlines ls) = ls"
  by (induction ls) (simp_all add: unlines_def lines_plain)

section \<open>Words\<close>

function split_whitespace :: "string \<Rightarrow> string list" where
  "split_whitespace s =
     (let t = dropWhile is_space s
      in if t = [] then []
         else takeWhile (\<lambda>c. \<not> is_space c) t # split_whitespace (dropWhile (\<lambda>c. \<not> is_space c) t))"
  by pat_completeness auto

termination
proof (relation "measure length")
  fix s t assume "t = dropWhile is_space s" "t \<noteq> []"
  then have "\<not> is_space (hd t)" and "length t \<le> length s"
    by (simp_all add: hd_dropWhile length_dropWhile_le)
  with \<open>t \<noteq> []\<close> have "length (dropWhile (\<lambda>c. \<not> is_space c) t) < length t"
    by (cases t) (auto simp: le_imp_less_Suc length_dropWhile_le)
  with \<open>length t \<le> length s\<close> show "(dropWhile (\<lambda>c. \<not> is_space c) t, s) \<in> measure length" by simp
qed simp

declare split_whitespace.simps [simp del]

definition word :: "string \<Rightarrow> bool" where
  "word w \<longleftrightarrow> w \<noteq> [] \<and> list_all (\<lambda>c. \<not> is_space c) w"

fun unwords :: "string list \<Rightarrow> string" where
  "unwords [] = []"
| "unwords [w] = w"
| "unwords (w # v # ws) = w @ CHR '' '' # unwords (v # ws)"

lemma split_whitespace_Nil [simp]: "split_whitespace [] = []"
  by (simp add: split_whitespace.simps)

lemma split_whitespace_space [simp]: "is_space c \<Longrightarrow> split_whitespace (c # s) = split_whitespace s"
  by (subst split_whitespace.simps, subst (2) split_whitespace.simps) simp

lemma split_whitespace_word:
  assumes "word w" and "s \<noteq> [] \<longrightarrow> is_space (hd s)"
  shows "split_whitespace (w @ s) = w # split_whitespace s"
proof -
  have 1: "dropWhile is_space (w @ s) = w @ s" and ne: "w @ s \<noteq> []"
    using assms(1) by (cases w; auto simp: word_def)+
  have 2: "takeWhile (\<lambda>c. \<not> is_space c) (w @ s) = w" and 3: "dropWhile (\<lambda>c. \<not> is_space c) (w @ s) = s"
    using assms by (cases s; auto simp: word_def list_all_iff takeWhile_append dropWhile_append)+
  show ?thesis by (subst split_whitespace.simps) (use ne in \<open>simp add: 1 2 3 Let_def\<close>)
qed

lemma split_whitespace_unwords: "list_all word ws \<Longrightarrow> split_whitespace (unwords ws) = ws"
  by (induction ws rule: unwords.induct)
    (simp_all add: split_whitespace_word split_whitespace_word [where s = "[]", simplified])

lemma unwords_append: "ws \<noteq> [] \<Longrightarrow> vs \<noteq> [] \<Longrightarrow> unwords (ws @ vs) = unwords ws @ CHR '' '' # unwords vs"
  by (induction ws rule: unwords.induct) (auto simp: neq_Nil_conv)

lemma unwords_trimmed:
  assumes "list_all word ws"
  shows "trimmed (unwords ws)"
  using assms
proof (induction ws rule: unwords.induct)
  case (2 w)
  then show ?case by (auto simp: trimmed_def word_def list_all_iff)
next
  case (3 w v ws)
  then have "unwords (v # ws) \<noteq> []" by (cases ws) (auto simp: word_def)
  with 3 show ?case by (auto simp: trimmed_def word_def list_all_iff neq_Nil_conv)
qed (simp add: trimmed_def)

lemma word_plain: "word w \<Longrightarrow> plain w"
  by (force simp: word_def plain_def list_all_iff)

lemma unwords_plain: "list_all word ws \<Longrightarrow> plain (unwords ws)"
  by (induction ws rule: unwords.induct) (auto simp: plain_def dest: word_plain [unfolded plain_def])

lemma split_whitespace_words: "list_all word (split_whitespace s)"
proof (induction s rule: split_whitespace.induct)
  case (1 s)
  let ?t = "dropWhile is_space s"
  show ?case
  proof (cases "?t = []")
    case False
    then have "\<not> is_space (hd ?t)" by (rule hd_dropWhile)
    with False have "word (takeWhile (\<lambda>c. \<not> is_space c) ?t)"
      by (cases ?t) (auto simp: word_def list_all_iff dest: set_takeWhileD)
    with False 1 show ?thesis by (subst split_whitespace.simps) (simp add: Let_def)
  qed (simp add: split_whitespace.simps)
qed

section \<open>Numbers\<close>

text \<open>\<open>str::parse::<u32>\<close>: an optional plus sign, at least one digit, nothing else, at most \<open>2 ^ 32 - 1\<close>.\<close>

definition is_digit :: "char \<Rightarrow> bool" where
  "is_digit c \<longleftrightarrow> (let n = (of_char c :: nat) in 48 \<le> n \<and> n \<le> 57)"

definition parse_u32 :: "string \<Rightarrow> u32 option" where
  "parse_u32 s =
     (let ds = (case s of [] \<Rightarrow> [] | c # cs \<Rightarrow> if c = CHR ''+'' then cs else s)
      in if ds \<noteq> [] \<and> list_all is_digit ds \<and> digits_value ds < 2 ^ 32 then Some (of_nat (digits_value ds))
         else None)"

lemma show_nat_digits: "list_all is_digit (show_nat n)"
proof (induction n rule: show_nat.induct)
  case (1 n)
  have "is_digit (digit_char d)" if "d < 10" for d
    using that by (simp add: is_digit_def of_char_digit)
  with 1 show ?case by (subst show_nat.simps) auto
qed

lemma parse_show_u32: "parse_u32 (show_u32 n) = Some n"
proof -
  obtain c cs where s: "show_u32 n = c # cs" by (cases "show_u32 n") (simp_all add: show_u32_def)
  have all: "list_all is_digit (show_u32 n)" by (simp add: show_u32_def show_nat_digits)
  with s have "c \<noteq> CHR ''+''" by (auto simp: is_digit_def)
  moreover have "digits_value (show_u32 n) = unat n" by (simp add: show_u32_def digits_value_show_nat)
  moreover have "unat n < 2 ^ 32" using unsigned_less [of n] by simp
  ultimately show ?thesis using s all by (simp add: parse_u32_def)
qed

section \<open>Characters outside ASCII in the program's texts\<close>

definition em_dash :: string where "em_dash = [CHR 0xE2, CHR 0x80, CHR 0x94]"
definition right_arrow :: string where "right_arrow = [CHR 0xE2, CHR 0x86, CHR 0x92]"
definition warning_sign :: string where "warning_sign = [CHR 0xE2, CHR 0x9A, CHR 0xA0]"

end
