(* ===== verification/Ids.thy ===== *)
theory Ids
  imports Domain Text
begin

text \<open>
  \<open>crates/chatbotchat-core/src/ids.rs\<close>: the slug of a subject (\<open>kebab\<close>), room ids and the line a
  user pastes to invite another agent. The calendar fields of a timestamp come from the
  \<open>time\<close> crate and are an argument.
\<close>

definition to_ascii_lowercase :: "char \<Rightarrow> char" where
  "to_ascii_lowercase c =
     (let n = (of_char c :: nat) in if 65 \<le> n \<and> n \<le> 90 then char_of (n + 32) else c)"

text \<open>
  The loop of \<open>kebab\<close>, with its two variables. A character outside ASCII is several bytes here and
  one \<open>char\<close> in Rust; none of them is alphanumeric, so they end in the same single dash.
\<close>

fun kebab_loop :: "string \<Rightarrow> bool \<Rightarrow> string \<Rightarrow> string" where
  "kebab_loop [] prev_dash out = out"
| "kebab_loop (ch # cs) prev_dash out =
     (if is_ascii_alphanumeric ch then kebab_loop cs False (out @ [to_ascii_lowercase ch])
      else if \<not> prev_dash then kebab_loop cs True (out @ ''-'')
      else kebab_loop cs prev_dash out)"

definition trim_matches :: "char \<Rightarrow> string \<Rightarrow> string" where
  "trim_matches c s = rev (dropWhile (\<lambda>x. x = c) (rev (dropWhile (\<lambda>x. x = c) s)))"

definition kebab :: "string \<Rightarrow> string" where
  "kebab input = trim_matches (CHR ''-'') (kebab_loop input False [])"

record civil =
  c_year :: nat
  c_month :: nat
  c_day :: nat
  c_hour :: nat
  c_minute :: nat

definition room_stamp :: "civil \<Rightarrow> string" where
  "room_stamp c =
     show_padded 4 (c_year c) @ show_padded 2 (c_month c) @ show_padded 2 (c_day c) @ ''-'' @
     show_padded 2 (c_hour c) @ show_padded 2 (c_minute c)"

definition room_id :: "string \<Rightarrow> civil \<Rightarrow> string" where
  "room_id subj now =
     (let slug = kebab subj; slug = (if slug = [] then ''room'' else slug)
      in ''cbc-'' @ slug @ ''-'' @ room_stamp now)"

definition share_line :: "string \<Rightarrow> string" where
  "share_line rid = ''Join CBC room '' @ rid"

section \<open>Slugs\<close>

text \<open>The characters of a slug, and slugs without a dash at either end or two in a row.\<close>

definition slug_char :: "char \<Rightarrow> bool" where
  "slug_char c \<longleftrightarrow> c = CHR ''-'' \<or> (is_ascii_alphanumeric c \<and> to_ascii_lowercase c = c)"

fun no_double_dash :: "string \<Rightarrow> bool" where
  "no_double_dash (a # b # s) = (\<not> (a = CHR ''-'' \<and> b = CHR ''-'') \<and> no_double_dash (b # s))"
| "no_double_dash _ = True"

definition is_slug :: "string \<Rightarrow> bool" where
  "is_slug s \<longleftrightarrow> list_all slug_char s \<and> no_double_dash s \<and>
     (s \<noteq> [] \<longrightarrow> hd s \<noteq> CHR ''-'' \<and> last s \<noteq> CHR ''-'')"

lemma dash_not_alphanumeric [simp]: "\<not> is_ascii_alphanumeric (CHR ''-'')"
  by (simp add: is_ascii_alphanumeric_def)

lemma lowercase_of_alphanumeric:
  assumes "is_ascii_alphanumeric c"
  shows "is_ascii_alphanumeric (to_ascii_lowercase c)"
    and "to_ascii_lowercase (to_ascii_lowercase c) = to_ascii_lowercase c"
    and "to_ascii_lowercase c \<noteq> CHR ''-''"
proof -
  show 1: "is_ascii_alphanumeric (to_ascii_lowercase c)"
    using assms by (auto simp: is_ascii_alphanumeric_def to_ascii_lowercase_def Let_def)
  show "to_ascii_lowercase (to_ascii_lowercase c) = to_ascii_lowercase c"
    using assms by (auto simp: is_ascii_alphanumeric_def to_ascii_lowercase_def Let_def)
  show "to_ascii_lowercase c \<noteq> CHR ''-''"
    using 1 by (metis dash_not_alphanumeric)
qed

lemma slug_char_lowercase [simp]: "is_ascii_alphanumeric c \<Longrightarrow> slug_char (to_ascii_lowercase c)"
  by (simp add: slug_char_def lowercase_of_alphanumeric)

lemma slug_char_dash [simp]: "slug_char (CHR ''-'')"
  by (simp add: slug_char_def)

lemma no_double_dash_snoc:
  "no_double_dash (s @ [c]) \<longleftrightarrow>
     no_double_dash s \<and> \<not> (s \<noteq> [] \<and> last s = CHR ''-'' \<and> c = CHR ''-'')"
  by (induction s rule: no_double_dash.induct) auto

lemma no_double_dash_append2: "no_double_dash (s @ t) \<Longrightarrow> no_double_dash t"
  by (induction s rule: no_double_dash.induct) (auto elim: no_double_dash.elims(2))

lemma no_double_dash_append1: "no_double_dash (s @ t) \<Longrightarrow> no_double_dash s"
  by (induction s rule: no_double_dash.induct) auto

text \<open>The loop keeps: slug characters only, no double dash, and the flag tells of a final dash.\<close>

lemma kebab_loop_keeps:
  assumes "list_all slug_char out" and "no_double_dash out"
    and "out \<noteq> [] \<longrightarrow> prev_dash = (last out = CHR ''-'')"
  shows "list_all slug_char (kebab_loop s prev_dash out) \<and> no_double_dash (kebab_loop s prev_dash out)"
  using assms
  by (induction s prev_dash out rule: kebab_loop.induct)
     (auto simp: no_double_dash_snoc lowercase_of_alphanumeric)

lemma dropWhile_suffix: "\<exists>pre. s = pre @ dropWhile P s"
  by (metis takeWhile_dropWhile_id)

lemma hd_dropWhile_neq: "dropWhile (\<lambda>x. x = c) s \<noteq> [] \<Longrightarrow> hd (dropWhile (\<lambda>x. x = c) s) \<noteq> c"
  by (induction s) auto

lemma trim_matches_parts: "\<exists>pre post. s = pre @ trim_matches c s @ post"
proof -
  obtain pre where pre: "s = pre @ dropWhile (\<lambda>x. x = c) s"
    using dropWhile_suffix by blast
  obtain post where "rev (dropWhile (\<lambda>x. x = c) s) =
      post @ dropWhile (\<lambda>x. x = c) (rev (dropWhile (\<lambda>x. x = c) s))"
    using dropWhile_suffix by blast
  then have "dropWhile (\<lambda>x. x = c) s = trim_matches c s @ rev post"
    unfolding trim_matches_def by (metis rev_append rev_rev_ident)
  with pre show ?thesis by metis
qed

lemma trim_matches_last: "trim_matches c s \<noteq> [] \<Longrightarrow> last (trim_matches c s) \<noteq> c"
  unfolding trim_matches_def
  by (metis hd_dropWhile_neq last_rev rev_is_Nil_conv)

lemma trim_matches_hd:
  assumes "trim_matches c s \<noteq> []"
  shows "hd (trim_matches c s) \<noteq> c"
proof -
  define t where "t = dropWhile (\<lambda>x. x = c) s"
  obtain post where "rev t = post @ dropWhile (\<lambda>x. x = c) (rev t)"
    using dropWhile_suffix by blast
  then have split: "t = trim_matches c s @ rev post"
    unfolding trim_matches_def t_def by (metis rev_append rev_rev_ident)
  with assms have "hd t = hd (trim_matches c s)" and "t \<noteq> []" by auto
  moreover from \<open>t \<noteq> []\<close> have "hd t \<noteq> c"
    unfolding t_def by (rule hd_dropWhile_neq)
  ultimately show ?thesis by simp
qed

lemma kebab_is_slug: "is_slug (kebab s)"
proof -
  have loop: "list_all slug_char (kebab_loop s False []) \<and> no_double_dash (kebab_loop s False [])"
    by (rule kebab_loop_keeps) simp_all
  obtain pre post where "kebab_loop s False [] = pre @ kebab s @ post"
    unfolding kebab_def using trim_matches_parts by blast
  with loop have "list_all slug_char (kebab s) \<and> no_double_dash (kebab s)"
    by (auto dest: no_double_dash_append2 no_double_dash_append1)
  then show ?thesis
    unfolding is_slug_def kebab_def using trim_matches_hd trim_matches_last by blast
qed

text \<open>A slug is a fixed point: nothing is left to lower, collapse or trim.\<close>

lemma kebab_loop_slug:
  assumes "list_all slug_char s" and "no_double_dash s"
    and "s \<noteq> [] \<and> hd s = CHR ''-'' \<Longrightarrow> \<not> prev_dash"
  shows "kebab_loop s prev_dash out = out @ s"
  using assms
proof (induction s prev_dash out rule: kebab_loop.induct)
  case (2 ch cs prev_dash out)
  then show ?case
    by (cases cs) (auto simp: slug_char_def)
qed simp

lemma trim_matches_id:
  assumes "s \<noteq> [] \<Longrightarrow> hd s \<noteq> c \<and> last s \<noteq> c"
  shows "trim_matches c s = s"
proof (cases "s = []")
  case False
  with assms obtain x xs where "s = x # xs" "x \<noteq> c" by (cases s) auto
  then have 1: "dropWhile (\<lambda>x. x = c) s = s" by simp
  from False assms obtain ys y where "s = ys @ [y]" "y \<noteq> c"
    by (cases s rule: rev_cases) auto
  then have "dropWhile (\<lambda>x. x = c) (rev s) = rev s" by simp
  with 1 show ?thesis by (simp add: trim_matches_def)
qed (simp add: trim_matches_def)

lemma kebab_slug_id: "is_slug s \<Longrightarrow> kebab s = s"
  unfolding kebab_def is_slug_def
  by (subst kebab_loop_slug) (auto intro!: trim_matches_id)

lemma digit_slug_char:
  assumes "d < 10"
  shows "slug_char (digit_char d)" and "digit_char d \<noteq> CHR ''-''"
proof -
  have code: "(of_char (digit_char d) :: nat) = 48 + d"
    using assms by (rule of_char_digit)
  then show "slug_char (digit_char d)"
    using assms by (simp add: slug_char_def is_ascii_alphanumeric_def to_ascii_lowercase_def)
  show "digit_char d \<noteq> CHR ''-''"
  proof
    assume "digit_char d = CHR ''-''"
    with code have "(of_char (CHR ''-'') :: nat) = 48 + d" by simp
    then show False by simp
  qed
qed

lemma show_nat_slug: "list_all slug_char (show_nat n)"
proof (induction n rule: show_nat.induct)
  case (1 n)
  then show ?case by (subst show_nat.simps) (auto simp: digit_slug_char)
qed

lemma show_padded_slug: "list_all slug_char (show_padded w n)"
proof -
  have "slug_char (CHR ''0'')"
    by (simp add: slug_char_def is_ascii_alphanumeric_def to_ascii_lowercase_def)
  then show ?thesis
    using show_nat_slug [of n] by (auto simp: show_padded_def pad_left_def list_all_iff)
qed

end
