(* ===== verification/Identity.thy ===== *)
theory Identity
  imports Ids
begin

text \<open>
  \<open>crates/chatbotchat-core/src/identity.rs\<close>: the handle a joining agent gets. The random session
  hexes are the list of candidates that the iterator yields; the loop looks at them in order.
\<close>

record JoinIdentity =
  i_repo :: string
  i_model :: string
  i_cwd :: string
  i_instance :: string

datatype HandleOutcome = Reused string | Created string

fun mint_loop :: "string \<Rightarrow> string set \<Rightarrow> string list \<Rightarrow> string option \<Rightarrow> string" where
  "mint_loop prefix taken [] last_candidate =
     (case last_candidate of None \<Rightarrow> prefix | Some c \<Rightarrow> c)"
| "mint_loop prefix taken (sess # rest) last_candidate =
     (let candidate = prefix @ ''-'' @ sess
      in if candidate \<notin> taken then candidate else mint_loop prefix taken rest (Some candidate))"

definition handle_prefix :: "JoinIdentity \<Rightarrow> string" where
  "handle_prefix ident = kebab (i_repo ident) @ ''-'' @ kebab (i_model ident)"

definition derive_handle :: "JoinIdentity \<Rightarrow> Participant list \<Rightarrow> string list \<Rightarrow> HandleOutcome" where
  "derive_handle ident existing sess_candidates =
     (case find (\<lambda>p. p_instance p = i_instance ident) existing of
        Some p \<Rightarrow> Reused (p_handle p)
      | None \<Rightarrow> Created (mint_loop (handle_prefix ident) (p_handle ` set existing) sess_candidates None))"

section \<open>The minting loop\<close>

lemma mint_loop_fresh:
  assumes "sess \<in> set cands" and "prefix @ ''-'' @ sess \<notin> taken"
  shows "mint_loop prefix taken cands last_candidate \<notin> taken"
  using assms by (induction cands arbitrary: last_candidate) (auto simp: Let_def)

lemma mint_loop_form:
  assumes "cands \<noteq> []"
  shows "\<exists>sess\<in>set cands. mint_loop prefix taken cands last_candidate = prefix @ ''-'' @ sess"
  using assms
proof (induction cands arbitrary: last_candidate)
  case (Cons c cands)
  show ?case
  proof (cases "cands = []")
    case False
    with Cons.IH [OF False, of "Some (prefix @ ''-'' @ c)"] show ?thesis
      by (auto simp: Let_def)
  qed (simp add: Let_def)
qed simp

lemma mint_loop_first:
  assumes "\<forall>c\<in>set before. prefix @ ''-'' @ c \<in> taken" and "prefix @ ''-'' @ sess \<notin> taken"
  shows "mint_loop prefix taken (before @ sess # rest) last_candidate = prefix @ ''-'' @ sess"
  using assms by (induction before arbitrary: last_candidate) (auto simp: Let_def)

lemma find_instance_None:
  "find (\<lambda>p. p_instance p = x) existing = None \<longleftrightarrow> x \<notin> p_instance ` set existing"
  by (auto simp: find_None_iff)

lemma derive_handle_Reused:
  "derive_handle ident existing cands = Reused h \<Longrightarrow>
   \<exists>p\<in>set existing. p_instance p = i_instance ident \<and> p_handle p = h"
  by (auto simp: derive_handle_def find_Some_iff split: option.splits)

lemma derive_handle_Created:
  "derive_handle ident existing cands = Created h \<Longrightarrow>
   i_instance ident \<notin> p_instance ` set existing \<and>
   h = mint_loop (handle_prefix ident) (p_handle ` set existing) cands None"
  by (auto simp: derive_handle_def find_instance_None split: option.splits)

section \<open>Properties\<close>

text \<open>What a join gets. If the presented instance belongs to an existing participant, the
  outcome is that participant's handle, whatever the repo, model and working directory are now and
  without consuming a candidate; otherwise a handle is minted, it is the first candidate whose
  handle is free in the room, so it never collides with one, and two agents that share repo, model
  and directory but not the instance get different handles.\<close>

lemma derive_handle_outcome:
  assumes "distinct (map p_instance existing)"
    and "before @ sess # rest = cands"
    and "\<forall>c\<in>set before. handle_prefix ident @ ''-'' @ c \<in> p_handle ` set existing"
    and "handle_prefix ident @ ''-'' @ sess \<notin> p_handle ` set existing"
  shows "derive_handle ident existing cands =
    (if i_instance ident \<in> p_instance ` set existing
     then Reused (p_handle (the (find (\<lambda>p. p_instance p = i_instance ident) existing)))
     else Created (handle_prefix ident @ ''-'' @ sess)) \<and>
    (\<forall>p\<in>set existing. p_instance p = i_instance ident \<longrightarrow>
       derive_handle ident existing cands = Reused (p_handle p)) \<and>
    (\<forall>h. derive_handle ident existing cands = Created h \<longrightarrow> h \<notin> p_handle ` set existing)"
proof -
  have minted: "mint_loop (handle_prefix ident) (p_handle ` set existing) cands None =
      handle_prefix ident @ ''-'' @ sess"
    using mint_loop_first [OF assms(3,4)] assms(2) by blast
  have unique: "q = p"
    if "p \<in> set existing" "q \<in> set existing" "p_instance p = p_instance q" for p q
    using assms(1) that by (auto simp: distinct_map dest: inj_onD)
  have own: "derive_handle ident existing cands = Reused (p_handle p)"
    if "p \<in> set existing" "p_instance p = i_instance ident" for p
  proof -
    have "find (\<lambda>p. p_instance p = i_instance ident) existing = Some p"
    proof (rule find_unique)
      show "p \<in> set existing" "p_instance p = i_instance ident" by (fact that)+
      show "q = p" if "q \<in> set existing" "p_instance q = i_instance ident" for q
        using unique [of p q] that \<open>p \<in> set existing\<close> \<open>p_instance p = i_instance ident\<close> by simp
    qed
    then show ?thesis by (simp add: derive_handle_def)
  qed
  show ?thesis
  proof (cases "find (\<lambda>p. p_instance p = i_instance ident) existing")
    case None
    then have "i_instance ident \<notin> p_instance ` set existing" by (simp add: find_instance_None)
    with None minted own assms(4) show ?thesis by (auto simp: derive_handle_def)
  next
    case (Some q)
    then have "i_instance ident \<in> p_instance ` set existing"
      by (force dest: find_SomeD)
    with Some own show ?thesis by (auto simp: derive_handle_def)
  qed
qed

end
