(* ===== verification/Api.thy ===== *)
theory Api
  imports Waiter Protocol Identity
begin

text \<open>
  What the handlers of \<open>crates/chatbotchat-core/src/http.rs\<close> share: their error type, the identity
  of a caller, the wire views, and the predicates that \<open>wait\<close> derives its status from. RFC 3339
  formatting belongs to the \<open>time\<close> crate and is the argument \<open>fmt\<close>; it succeeds for every year from
  0 to 9999.
\<close>

section \<open>Errors\<close>

text \<open>\<open>Internal\<close> carries the storage error itself; the code carries its text, for the log only.\<close>

datatype ApiError = NotFound | BadRequest string | Conflict string | Internal StorageError

definition from_storage :: "StorageError \<Rightarrow> ApiError" where
  "from_storage e = Internal e"

fun into_response :: "ApiError \<Rightarrow> nat \<times> ErrorEnvelope" where
  "into_response NotFound = (404, \<lparr>ee_error = ''room not found''\<rparr>)"
| "into_response (BadRequest message) = (400, \<lparr>ee_error = message\<rparr>)"
| "into_response (Conflict message) = (409, \<lparr>ee_error = message\<rparr>)"
| "into_response (Internal cause) = (500, \<lparr>ee_error = ''internal server error''\<rparr>)"

text \<open>\<open>ok_or\<close> on an awaited option, and a plain check that may reject.\<close>

definition ok_or :: "'e \<Rightarrow> 'a option \<Rightarrow> ('a \<Rightarrow> (World, 'e + 'b) prog) \<Rightarrow> (World, 'e + 'b) prog" where
  "ok_or e x k = (case x of None \<Rightarrow> Ret (Inl e) | Some a \<Rightarrow> k a)"

definition ensure :: "'e + 'a \<Rightarrow> ('a \<Rightarrow> (World, 'e + 'b) prog) \<Rightarrow> (World, 'e + 'b) prog" where
  "ensure r k = (case r of Inl e \<Rightarrow> Ret (Inl e) | Inr a \<Rightarrow> k a)"

definition ok :: "'b \<Rightarrow> (World, 'e + 'b) prog" where
  "ok b = Ret (Inr b)"

definition fail :: "'e \<Rightarrow> (World, 'e + 'b) prog" where
  "fail e = Ret (Inl e)"

lemma run_ok_or [run_simps]:
  "run (ok_or e x k) w = (case x of None \<Rightarrow> Some (Inl e, w) | Some a \<Rightarrow> run (k a) w)"
  by (simp add: ok_or_def split: option.split)

lemma run_ensure [run_simps]:
  "run (ensure r k) w = (case r of Inl e \<Rightarrow> Some (Inl e, w) | Inr a \<Rightarrow> run (k a) w)"
  by (simp add: ensure_def split: sum.split)

lemma run_ok_fail [run_simps]: "run (ok b) w = Some (Inr b, w)" "run (fail e) w = Some (Inl e, w)"
  by (simp_all add: ok_def fail_def)

lemma keeps_ok_or: "(\<And>a. x = Some a \<Longrightarrow> keeps (k a) w) \<Longrightarrow> keeps (ok_or e x k) w"
  by (auto simp: ok_or_def split: option.split)

lemma keeps_ensure: "(\<And>a. r = Inr a \<Longrightarrow> keeps (k a) w) \<Longrightarrow> keeps (ensure r k) w"
  by (auto simp: ensure_def split: sum.split)

lemma keeps_ok [simp, intro]: "keeps (ok b) w" "keeps (fail e) w"
  by (simp_all add: ok_def fail_def)

section \<open>Callers\<close>

definition effective_instance :: "string \<Rightarrow> string \<Rightarrow> string \<Rightarrow> string \<Rightarrow> string" where
  "effective_instance rp mo cw inst =
     (if inst = [] then rp @ [CHR 0x0A] @ mo @ [CHR 0x0A] @ cw else inst)"

definition caller_instance :: "'a Caller_scheme \<Rightarrow> string" where
  "caller_instance req = effective_instance (q_repo req) (q_model req) (q_cwd req) (q_instance req)"

definition resolve_participant :: "string \<Rightarrow> string \<Rightarrow> (World, StorageError + Participant option) prog" where
  "resolve_participant rid inst =
     look (get_participant_by_instance rid inst) (\<lambda>p. case p of
       Some p \<Rightarrow> ok (Some p)
     | None \<Rightarrow> look (get_participant_by_handle rid inst) (\<lambda>p. ok p))"

definition not_a_participant :: ApiError where
  "not_a_participant = BadRequest ''not a participant of this room; join first''"

text \<open>The participant a request resolves to, as a function of the tables.\<close>

definition resolved :: "string \<Rightarrow> string \<Rightarrow> Db \<Rightarrow> Participant option" where
  "resolved rid inst d =
     (case get_participant_by_instance rid inst d of
        Some p \<Rightarrow> Some p | None \<Rightarrow> get_participant_by_handle rid inst d)"

lemma run_resolve [run_simps]: "run (resolve_participant rid inst) w = Some (Inr (resolved rid inst (w_db w)), w)"
  by (simp add: resolve_participant_def resolved_def run_simps split: option.split)

lemma keeps_resolve: "keeps (resolve_participant rid inst) w"
  unfolding resolve_participant_def
  by (intro keeps_look) (auto split: option.split intro: keeps_look)

lemma resolved_in:
  "resolved rid inst d = Some p \<Longrightarrow> p \<in> set (participants d) \<and> p_room_id p = rid"
  by (auto simp: resolved_def get_participant_by_instance_def get_participant_by_handle_def
      split: option.splits dest: find_SomeD)

definition normalize_nickname :: "string option \<Rightarrow> string option" where
  "normalize_nickname n =
     (case n of None \<Rightarrow> None | Some n \<Rightarrow> let n = trim n in if n = [] then None else Some n)"

section \<open>Views\<close>

definition message_view :: "(time \<Rightarrow> string) \<Rightarrow> Message \<Rightarrow> MessageView" where
  "message_view fmt m =
     \<lparr>mv_seq = m_seq m, mv_from = sender m, mv_to = recipient m, mv_body = m_body m,
      mv_created_at = fmt (created_at m), mv_msg_type = MessageType_as_str (msg_type m),
      mv_severity = map_option Severity_as_str (severity m), mv_question_text = question_text m\<rparr>"

text \<open>\<open>is_live\<close> may forget an entry of the registry, so a view of participants is an action.\<close>

definition participant_view ::
  "(time \<Rightarrow> string) \<Rightarrow> AppState \<Rightarrow> Participant \<Rightarrow> time \<Rightarrow> (ParticipantView \<Rightarrow> (World, 'r) prog) \<Rightarrow> (World, 'r) prog" where
  "participant_view fmt st p now k =
     (let elapsed = now - last_poll_at p
      in probe st (p_handle p) (\<lambda>live. k
        \<lparr>pv_handle = p_handle p, pv_repo = repo p, pv_model = model p, pv_cwd = cwd p,
         pv_joined_at = fmt (joined_at p), pv_seconds_since_poll = max (whole_seconds elapsed) 0,
         pv_stale = (elapsed > GHOST_AFTER), pv_poll_live = live, pv_nickname = nickname p\<rparr>))"

fun participant_views ::
  "(time \<Rightarrow> string) \<Rightarrow> AppState \<Rightarrow> Participant list \<Rightarrow> time \<Rightarrow> (ParticipantView list \<Rightarrow> (World, 'r) prog) \<Rightarrow> (World, 'r) prog" where
  "participant_views fmt st [] now k = k []"
| "participant_views fmt st (p # ps) now k =
     participant_view fmt st p now (\<lambda>v. participant_views fmt st ps now (\<lambda>vs. k (v # vs)))"

definition room_to_status ::
  "(time \<Rightarrow> string) \<Rightarrow> AppState \<Rightarrow> Room \<Rightarrow> Participant list \<Rightarrow> time \<Rightarrow> (RoomStatus \<Rightarrow> (World, 'r) prog) \<Rightarrow> (World, 'r) prog" where
  "room_to_status fmt st room ps now k =
     participant_views fmt st ps now (\<lambda>views. k
       \<lparr>rs_id = r_id room, rs_subject = subject room, rs_state = RoomState_as_str (r_state room),
        rs_started_at = fmt (started_at room), rs_last_activity_at = fmt (last_activity_at room),
        rs_participants = views\<rparr>)"

definition room_summary :: "(time \<Rightarrow> string) \<Rightarrow> RoomSummaryRow \<Rightarrow> RoomSummary" where
  "room_summary fmt row =
     \<lparr>su_room_id = r_id (s_room row), su_state = RoomState_as_str (r_state (s_room row)),
      su_subject = subject (s_room row), su_last_activity_at = fmt (last_activity_at (s_room row)),
      su_participant_count = s_participant_count row\<rparr>"

definition room_to_transcript ::
  "(time \<Rightarrow> string) \<Rightarrow> AppState \<Rightarrow> Room \<Rightarrow> Participant list \<Rightarrow> Message list \<Rightarrow> int \<Rightarrow> int \<Rightarrow> time \<Rightarrow>
   (RoomTranscript \<Rightarrow> (World, 'r) prog) \<Rightarrow> (World, 'r) prog" where
  "room_to_transcript fmt st room ps msgs hard_count consecutive now k =
     participant_views fmt st ps now (\<lambda>views. k
       \<lparr>tr_id = r_id room, tr_subject = subject room, tr_state = RoomState_as_str (r_state room),
        tr_started_at = fmt (started_at room), tr_last_activity_at = fmt (last_activity_at room),
        tr_hard_cap = hard_cap (config room), tr_soft_cap = soft_cap (config room),
        tr_hard_cap_count = hard_count, tr_soft_cap_consecutive = consecutive,
        tr_participants = views, tr_messages = map (message_view fmt) msgs\<rparr>)"

lemma keeps_participant_views:
  "(\<And>v vs. db_evolves w v \<Longrightarrow> keeps (k vs) v) \<Longrightarrow> keeps (participant_views fmt st ps now k) w"
proof (induction ps arbitrary: w k)
  case (Cons p ps)
  show ?case
    by (auto simp: participant_view_def Let_def intro!: keeps_probe Cons.IH Cons.prems
        intro: server.R_trans)
qed (simp add: server.R_refl)

lemma keeps_room_to_status:
  "(\<And>v s. db_evolves w v \<Longrightarrow> keeps (k s) v) \<Longrightarrow> keeps (room_to_status fmt st room ps now k) w"
  unfolding room_to_status_def by (rule keeps_participant_views)

lemma keeps_room_to_transcript:
  "(\<And>v s. db_evolves w v \<Longrightarrow> keeps (k s) v) \<Longrightarrow>
   keeps (room_to_transcript fmt st room ps ms a b now k) w"
  unfolding room_to_transcript_def by (rule keeps_participant_views)

text \<open>The views of a list of participants, and what building them leaves of the registry.\<close>

definition view_of :: "(time \<Rightarrow> string) \<Rightarrow> AppState \<Rightarrow> time \<Rightarrow> time \<Rightarrow> ParkMap \<Rightarrow> Participant \<Rightarrow> ParticipantView" where
  "view_of fmt st now t m p =
     \<lparr>pv_handle = p_handle p, pv_repo = repo p, pv_model = model p, pv_cwd = cwd p,
      pv_joined_at = fmt (joined_at p), pv_seconds_since_poll = max (whole_seconds (now - last_poll_at p)) 0,
      pv_stale = (now - last_poll_at p > GHOST_AFTER),
      pv_poll_live = fst (is_live (presence_grace st) (p_handle p) t m), pv_nickname = nickname p\<rparr>"

lemma is_live_other:
  "fst (is_live g h t (snd (is_live g h' t m))) = fst (is_live g h t m)"
  by (cases "h = h'") (auto simp: is_live_def Let_def split: option.split)

lemma view_of_probe: "view_of fmt st now t (snd (is_live (presence_grace st) h t m)) = view_of fmt st now t m"
  by (rule ext) (simp add: view_of_def is_live_other)

lemma run_participant_view:
  "run (participant_view fmt st p now k) w =
     run (k (view_of fmt st now (w_mono w) (w_presence w) p))
       (w\<lparr>w_presence := snd (is_live (presence_grace st) (p_handle p) (w_mono w) (w_presence w))\<rparr>)"
  by (simp add: participant_view_def view_of_def Let_def run_simps)

lemma run_participant_views:
  "\<exists>m. run (participant_views fmt st ps now k) w =
     run (k (map (view_of fmt st now (w_mono w) (w_presence w)) ps)) (w\<lparr>w_presence := m\<rparr>)"
proof (induction ps arbitrary: w k)
  case Nil
  show ?case by (rule exI [of _ "w_presence w"]) simp
next
  case (Cons p ps)
  let ?g = "presence_grace st"
  let ?w = "w\<lparr>w_presence := snd (is_live ?g (p_handle p) (w_mono w) (w_presence w))\<rparr>"
  obtain m where "run (participant_views fmt st ps now
        (\<lambda>vs. k (view_of fmt st now (w_mono w) (w_presence w) p # vs))) ?w =
      run (k (view_of fmt st now (w_mono w) (w_presence w) p #
        map (view_of fmt st now (w_mono w) (w_presence w)) ps)) (w\<lparr>w_presence := m\<rparr>)"
    using Cons.IH [of "\<lambda>vs. k (view_of fmt st now (w_mono w) (w_presence w) p # vs)" ?w]
    by (auto simp: view_of_probe)
  then show ?case
    by (auto simp: run_participant_view)
qed

end
