(* ===== verification/HttpMessages.thy ===== *)
theory HttpMessages
  imports Api
begin

text \<open>
  The handlers of \<open>http.rs\<close> that post to a room: \<open>send_message\<close> and \<open>signal_room\<close>, with the write
  guard they share.
\<close>

definition EXTEND_STEP :: u32 where
  "EXTEND_STEP = 20"

definition reject_unless_writable :: "Room \<Rightarrow> ApiError + unit" where
  "reject_unless_writable room =
     (if r_state room \<in> {Active, Idle, Stale} then Inr ()
      else Inl (Conflict (''room is '' @ RoomState_as_str (r_state room) @ ''; it is not accepting messages'')))"

section \<open>Sending\<close>

definition cap_reached :: "Room \<Rightarrow> ApiError" where
  "cap_reached room = Conflict (''hard cap reached ('' @ show_u32 (hard_cap (config room)) @
     '' messages); cbc_extend (consensus +'' @ show_u32 EXTEND_STEP @ '') to keep going, or close the room'')"

text \<open>A targeted \<open>to\<close> must be a participant's handle.\<close>

definition check_recipient ::
  "(time \<Rightarrow> string) \<Rightarrow> string \<Rightarrow> string option \<Rightarrow> (World, ApiError + 'b) prog \<Rightarrow> (World, ApiError + 'b) prog" where
  "check_recipient fmt rid to k = (case to of
       None \<Rightarrow> k
     | Some h \<Rightarrow> look (list_participants fmt rid) (\<lambda>ps.
         if list_ex (\<lambda>p. p_handle p = h) ps then k
         else fail (BadRequest ''recipient is not a participant of this room'')))"

text \<open>A message revives an idle or stale room; the \<open>expect\<close> on the transition cannot fail there.\<close>

definition revive :: "string \<Rightarrow> Room \<Rightarrow> time \<Rightarrow> (World, ApiError + 'b) prog \<Rightarrow> (World, ApiError + 'b) prog" where
  "revive rid room now k =
     (if r_state room \<in> {Idle, Stale} then
        (case transition (r_state room) EvMessage of
           Inl _ \<Rightarrow> Hang
         | Inr to \<Rightarrow> sql from_storage (update_room_state rid (r_state room) to now None) (\<lambda>_. k))
      else k)"

definition send_message ::
  "(time \<Rightarrow> string) \<Rightarrow> string \<Rightarrow> SendMessageRequest \<Rightarrow> (World, ApiError + SendMessageResponse) prog" where
  "send_message fmt rid req =
     fetch from_storage (get_room rid) (\<lambda>room. ok_or NotFound room (\<lambda>room.
     ensure (reject_unless_writable room) (\<lambda>_.
     call from_storage (resolve_participant rid (caller_instance req)) (\<lambda>s. ok_or not_a_participant s (\<lambda>s.
     check_recipient fmt rid (sm_to req) (
     now_utc (\<lambda>now.
     sql from_storage (create_message_capped rid (p_handle s) (sm_to req) (sm_body req) now
         (sm_from_human req) (uint (hard_cap (config room)))) (\<lambda>msg. ok_or (cap_reached room) msg (\<lambda>msg.
     sql from_storage (set_close_vote (p_handle s) None) (\<lambda>_.
     sql from_storage (clear_extend_vote (p_handle s)) (\<lambda>_.
     sql from_storage (touch_last_activity rid now) (\<lambda>_.
     revive rid room now (
     notify rid (
     ok \<lparr>ms_seq = m_seq msg\<rparr>))))))))))))))"

section \<open>Signalling\<close>

definition signal_type :: "string \<Rightarrow> ApiError + MessageType" where
  "signal_type s = (case MessageType_parse s of
       Some WaitingUser \<Rightarrow> Inr WaitingUser
     | Some Fold \<Rightarrow> Inr Fold
     | Some BlockerRealWork \<Rightarrow> Inr BlockerRealWork
     | _ \<Rightarrow> Inl (BadRequest (''unsupported signal type '' @ [CHR 0x27] @ s @ [CHR 0x27] @
              ''; expected waiting_user, fold or blocker_real_work'')))"

text \<open>The field rules of each sentinel: the severity it carries and the body it is posted with. The
  last branch is the \<open>unreachable!\<close> of the code.\<close>

fun signal_fields :: "MessageType \<Rightarrow> SignalRequest \<Rightarrow> ApiError + Severity option \<times> string" where
  "signal_fields WaitingUser req = (case sg_severity req of
       None \<Rightarrow> Inl (BadRequest ''waiting_user requires a severity (low|med|high)'')
     | Some s \<Rightarrow> (case Severity_parse s of
         None \<Rightarrow> Inl (BadRequest (''invalid severity '' @ [CHR 0x27] @ s @ [CHR 0x27]))
       | Some sev \<Rightarrow>
           if sg_question_text req = None \<or> sg_question_text req = Some []
           then Inl (BadRequest ''waiting_user requires a non-empty question_text'')
           else Inr (Some sev, [])))"
| "signal_fields Fold req =
     (if sg_severity req \<noteq> None then Inl (BadRequest ''fold takes no severity'')
      else if sg_question_text req \<noteq> None then Inl (BadRequest ''fold takes no question_text'')
      else Inr (None, []))"
| "signal_fields BlockerRealWork req =
     (if sg_severity req \<noteq> None then Inl (BadRequest ''blocker_real_work takes no severity'')
      else if sg_question_text req \<noteq> None then Inl (BadRequest ''blocker_real_work takes no question_text'')
      else Inr (None, case sg_reason req of None \<Rightarrow> [] | Some s \<Rightarrow> s))"
| "signal_fields _ req = Inl (Internal (Corrupt ''unreachable signal type''))"

definition cannot :: "string \<Rightarrow> Room \<Rightarrow> ApiError" where
  "cannot what room = Conflict (''cannot '' @ what @ '' from '' @ RoomState_as_str (r_state room))"

definition changed_concurrently :: ApiError where
  "changed_concurrently = Conflict ''room state changed concurrently; retry''"

definition pause_target :: "MessageType \<Rightarrow> Room \<Rightarrow> ApiError + RoomState option" where
  "pause_target mt room =
     (if mt = BlockerRealWork then
        (case transition (r_state room) EvPause of
           Inl _ \<Rightarrow> Inl (cannot ''Pause'' room)
         | Inr to \<Rightarrow> Inr (Some to))
      else Inr None)"

text \<open>The pause comes before the sentinel; a lost compare-and-set writes nothing.\<close>

definition pause_first ::
  "string \<Rightarrow> Room \<Rightarrow> RoomState option \<Rightarrow> time \<Rightarrow> string option \<Rightarrow> (World, ApiError + 'b) prog \<Rightarrow> (World, ApiError + 'b) prog" where
  "pause_first rid room pause_to now reason k = (case pause_to of
       None \<Rightarrow> k
     | Some to \<Rightarrow> sql from_storage (update_room_state rid (r_state room) to now reason) (\<lambda>changed.
         if changed then k else fail changed_concurrently))"

definition signal_room ::
  "string \<Rightarrow> SignalRequest \<Rightarrow> (World, ApiError + SignalResponse) prog" where
  "signal_room rid req =
     fetch from_storage (get_room rid) (\<lambda>room. ok_or NotFound room (\<lambda>room.
     ensure (reject_unless_writable room) (\<lambda>_.
     call from_storage (resolve_participant rid (caller_instance req)) (\<lambda>s. ok_or not_a_participant s (\<lambda>s.
     ensure (signal_type (sg_signal_type req)) (\<lambda>mt.
     ensure (signal_fields mt req) (\<lambda>(sev, bdy).
     ensure (pause_target mt room) (\<lambda>pause_to.
     now_utc (\<lambda>now.
     pause_first rid room pause_to now (sg_reason req) (
     sql from_storage (create_message_typed rid (p_handle s) None bdy now mt sev (sg_question_text req)) (\<lambda>msg.
     notify rid (
     ok \<lparr>gs_seq = m_seq msg\<rparr>))))))))))))"

section \<open>The handlers keep the contract\<close>

lemma get_room_row:
  assumes "get_room rid d = Inr (Some room)"
  shows "\<exists>row\<in>set (rooms d). r_id row = rid \<and> row_to_room row = Inr room"
  using assms by (auto simp: get_room_def split: option.splits sum.splits dest: find_SomeD)

lemma row_to_room_fields:
  assumes "row_to_room row = Inr room"
  shows "r_state room = r_state row" and "r_id room = r_id row"
    and "uint (hard_cap (config room)) = j_hard_cap (config row)"
    and "uint (soft_cap (config room)) = j_soft_cap (config row)"
  using assms
  by (auto simp: row_to_room_def config_from_json_def with_config_def fits_u32_def take_bit_int_eq_self_iff
      unsigned_of_int split: sum.splits if_splits)

lemma cap_grows:
  assumes "get_room rid (w_db v) = Inr (Some room)" and "db_evolves v x" and "db_ok x"
  shows "\<forall>r\<in>set (rooms (w_db x)). r_id r = rid \<longrightarrow> uint (hard_cap (config room)) \<le> j_hard_cap (config r)"
proof -
  obtain row where row: "row \<in> set (rooms (w_db v))" "r_id row = rid" "row_to_room row = Inr room"
    using get_room_row [OF assms(1)] by blast
  show ?thesis
    using evolves_cap [OF _ _ row(1)] assms(2,3) row(2) row_to_room_fields(3) [OF row(3)]
    by (auto simp: db_ok_def db_evolves_def)
qed

lemma check_recipient_keeps: "(\<And>v. db_evolves w v \<Longrightarrow> db_ok v \<Longrightarrow> keeps k v) \<Longrightarrow>
    db_ok w \<Longrightarrow> keeps (check_recipient fmt rid to k) w"
  unfolding check_recipient_def
  by (cases to) (auto intro!: keeps_look intro: server.R_refl)

lemma keeps_update_room_state:
  assumes "legal_move s to"
    and "\<And>v b. db_evolves w v \<Longrightarrow> db_ok v \<Longrightarrow> keeps (k b) v"
  shows "keeps (sql conv (update_room_state rid s to now det) k) w"
  by (rule keeps_sql) (auto intro: sound_update_room_state assms)

lemma revive_keeps: "(\<And>v. db_evolves w v \<Longrightarrow> db_ok v \<Longrightarrow> keeps k v) \<Longrightarrow> db_ok w \<Longrightarrow> keeps (revive rid room now k) w"
  unfolding revive_def
  by (auto intro!: keeps_update_room_state intro: server.R_refl transition_legal simp del: transition.simps split: sum.split)

lemma keeps_capped:
  assumes "get_room rid (w_db v) = Inr (Some room)" and "db_evolves v w"
    and "\<And>x r. db_evolves w x \<Longrightarrow> db_ok x \<Longrightarrow> keeps (k r) x"
  shows "keeps (sql conv (create_message_capped rid h rcp bdy t human (uint (hard_cap (config room)))) k) w"
proof (rule keeps_sql)
  fix x assume "db_evolves w x" and x: "db_ok x"
  then have "db_evolves v x" using assms(2) by (blast intro: server.R_trans)
  then show "sound (w_db x) (snd (create_message_capped rid h rcp bdy t human
      (uint (hard_cap (config room))) (w_db x)))"
    using cap_grows [OF assms(1) _ x] by (intro sound_create_message_capped)
qed (rule assms(3))

text \<open>The part of \<open>send_message\<close> after the checks.\<close>

lemma send_rest_keeps:
  assumes "get_room rid (w_db v) = Inr (Some room)" and "db_evolves v w"
  shows "keeps (sql from_storage (create_message_capped rid h rcp bdy now human (uint (hard_cap (config room))))
    (\<lambda>msg. ok_or (cap_reached room) msg (\<lambda>msg.
     sql from_storage (set_close_vote h None) (\<lambda>_.
     sql from_storage (clear_extend_vote h) (\<lambda>_.
     sql from_storage (touch_last_activity rid now) (\<lambda>_.
     revive rid room now (notify rid (ok \<lparr>ms_seq = m_seq msg\<rparr>)))))))) w"
  by (rule keeps_capped [OF assms])
    (auto intro!: keeps_ok_or keeps_sql revive_keeps keeps_notify wf_keeps)

lemma send_message_keeps: "keeps (send_message fmt rid req) w"
  unfolding send_message_def
proof (intro keeps_fetch keeps_ok_or keeps_ensure keeps_call keeps_resolve check_recipient_keeps keeps_now_utc)
  fix v u x z :: World and a room s
  assume "get_room rid (w_db v) = Inr a" "a = Some room"
    "db_evolves v u" "db_evolves u x" "db_evolves x z"
  then show "keeps (sql from_storage (create_message_capped rid (p_handle s) (sm_to req) (sm_body req) now
         (sm_from_human req) (uint (hard_cap (config room))))
    (\<lambda>msg. ok_or (cap_reached room) msg (\<lambda>msg.
     sql from_storage (set_close_vote (p_handle s) None) (\<lambda>_.
     sql from_storage (clear_extend_vote (p_handle s)) (\<lambda>_.
     sql from_storage (touch_last_activity rid now) (\<lambda>_.
     revive rid room now (notify rid (ok \<lparr>ms_seq = m_seq msg\<rparr>)))))))) z" for now
    by (intro send_rest_keeps) (simp, blast intro: server.R_trans)
qed

lemma signal_type_sentinel: "signal_type s = Inr mt \<Longrightarrow> mt \<noteq> Msg"
  by (auto simp: signal_type_def split: option.splits MessageType.splits)

lemma pause_first_keeps:
  assumes "pause_target mt room = Inr pause_to"
    and "\<And>v. db_evolves w v \<Longrightarrow> db_ok v \<Longrightarrow> keeps k v" and "db_ok w"
  shows "keeps (pause_first rid room pause_to now reason k) w"
proof (cases pause_to)
  case None
  then show ?thesis using assms server.R_refl by (simp add: pause_first_def)
next
  case (Some to)
  with assms(1) have "transition (r_state room) EvPause = Inr to"
    by (auto simp: pause_target_def split: if_splits sum.splits)
  with Some assms(2) show ?thesis
    by (auto simp: pause_first_def intro!: keeps_update_room_state intro: transition_legal)
qed

lemma signal_room_keeps: "keeps (signal_room rid req) w"
  unfolding signal_room_def
  by (intro keeps_fetch keeps_ok_or keeps_ensure keeps_call keeps_resolve)
    (auto intro!: keeps_ensure keeps_now_utc pause_first_keeps keeps_sql sound_create_message_typed
      keeps_notify dest: signal_type_sentinel)

end
