(* ===== verification/Samples.thy ===== *)
theory Samples
  imports Api
begin

text \<open>
  Concrete tables on which the properties are evaluated: one room with two participants.
\<close>

definition sample_config :: RoomConfig where
  "sample_config = \<lparr>hard_cap = 2, soft_cap = 4, close_quorum = QAll\<rparr>"

definition sample_room :: Room where
  "sample_room = \<lparr>r_id = ''r'', subject = ''s'', started_at = 0, last_activity_at = 0, r_state = Active,
     state_changed_at = 0, config = sample_config, prev_room_id = None\<rparr>"

definition alice :: Participant where
  "alice = sample_participant ''repo-m-0001'' ''r'' ''a'' 0"

definition bob :: Participant where
  "bob = sample_participant ''repo-m-0002'' ''r'' ''b'' 0"

definition sample_db :: Db where
  "sample_db = \<lparr>rooms = [room_to_row sample_room], participants = [alice, bob], messages = [], events = []\<rparr>"

definition sample_world :: World where
  "sample_world = world_of sample_db (seconds 5)"

text \<open>A formatter of fixed width, so that texts are ordered as the times are.\<close>

fun fixed_width :: "nat \<Rightarrow> int \<Rightarrow> string" where
  "fixed_width 0 t = []"
| "fixed_width (Suc n) t = (if t = 0 then replicate (Suc n) CHR ''0''
     else fixed_width n (t div 10) @ [char_of (48 + nat (t mod 10))])"

definition sample_fmt :: "time \<Rightarrow> string" where
  "sample_fmt t = fixed_width 19 (t + 1000000000000000000)"

lemmas sample_defs = sample_config_def sample_room_def alice_def bob_def sample_participant_def
  sample_db_def sample_world_def world_of_def

lemma sample_wf: "wf_db sample_db"
  by (simp add: wf_db_def wf_parts sample_defs room_ids_def top_seq_def room_events_def
      count_capped_messages_def room_to_row_def with_config_def config_to_json_def)

lemma sample_ok: "wf_db (w_db sample_world)"
  using sample_wf by (simp add: sample_world_def world_of_def)

definition say :: "string \<Rightarrow> string \<Rightarrow> SendMessageRequest" where
  "say inst txt = \<lparr>q_repo = ''repo'', q_model = ''m'', q_cwd = ''/w'', q_instance = inst, sm_to = None,
     sm_body = txt, sm_from_human = False\<rparr>"

definition lifecycle_request :: "string \<Rightarrow> LifecycleRequest" where
  "lifecycle_request inst = \<lparr>q_repo = ''repo'', q_model = ''m'', q_cwd = ''/w'', q_instance = inst,
     lr_reason = None, lr_force = False\<rparr>"

definition caller_of :: "string \<Rightarrow> Caller" where
  "caller_of inst = \<lparr>q_repo = ''repo'', q_model = ''m'', q_cwd = ''/w'', q_instance = inst\<rparr>"

definition wait_request :: "string \<Rightarrow> WaitRequest" where
  "wait_request inst = \<lparr>q_repo = ''repo'', q_model = ''m'', q_cwd = ''/w'', q_instance = inst,
     wr_max_wait_secs = None\<rparr>"

definition blocker_request :: SignalRequest where
  "blocker_request = \<lparr>q_repo = ''repo'', q_model = ''m'', q_cwd = ''/w'', q_instance = ''a'',
     sg_signal_type = ''blocker_real_work'', sg_severity = None, sg_question_text = None,
     sg_reason = Some ''fix''\<rparr>"

lemma say_simps [simp]: "sm_to (say i b) = None" "sm_body (say i b) = b" "sm_from_human (say i b) = False"
  by (simp_all add: say_def)

text \<open>Three messages of the first participant: to everyone, to itself, to the second participant.\<close>

definition mail_message :: "int \<Rightarrow> string option \<Rightarrow> Message" where
  "mail_message n to = \<lparr>m_seq = n, m_room_id = ''r'', sender = ''repo-m-0001'', recipient = to, m_body = ''hi'',
     created_at = 0, msg_type = Msg, from_human = False, severity = None, question_text = None\<rparr>"

definition mail_db :: Db where
  "mail_db = sample_db\<lparr>messages := [mail_message 1 None, (mail_message 2 (Some ''repo-m-0001''))\<lparr>msg_type := Fold\<rparr>,
     mail_message 3 (Some ''repo-m-0002'')]\<rparr>"

definition mail_world :: World where
  "mail_world = world_of mail_db (seconds 5)"

lemma mail_wf: "wf_db mail_db"
  by (simp add: wf_db_def wf_parts mail_db_def mail_message_def sample_defs room_ids_def top_seq_def
      room_events_def count_capped_messages_def cap_counting_def room_to_row_def with_config_def
      config_to_json_def)

end
