(* ===== verification/MessageSpec.thy ===== *)
theory MessageSpec
  imports HttpMessages Samples
begin

text \<open>
  What posting to a room does, run alone: every branch of \<open>send_message\<close> and \<open>signal_room\<close>, errors
  included, and what the write leaves untouched.
\<close>

section \<open>The checks of a send\<close>

text \<open>The checks in the order of the code, as a function of the tables: an error, or the room and the
  sender.\<close>

definition recipient_missing :: "string \<Rightarrow> string option \<Rightarrow> Db \<Rightarrow> bool" where
  "recipient_missing rid to d \<longleftrightarrow>
     (case to of None \<Rightarrow> False
      | Some h \<Rightarrow> \<not> list_ex (\<lambda>p. p_room_id p = rid \<and> p_handle p = h) (participants d))"

definition send_checks ::
  "string \<Rightarrow> SendMessageRequest \<Rightarrow> Db \<Rightarrow> ApiError + Room \<times> Participant" where
  "send_checks rid req d =
     (case get_room rid d of
        Inl e \<Rightarrow> Inl (Internal e)
      | Inr None \<Rightarrow> Inl NotFound
      | Inr (Some room) \<Rightarrow>
          if is_halted (r_state room) then
            Inl (Conflict (''room is '' @ RoomState_as_str (r_state room) @ ''; it is not accepting messages''))
          else (case resolved rid (caller_instance req) d of
              None \<Rightarrow> Inl not_a_participant
            | Some s \<Rightarrow>
                if recipient_missing rid (sm_to req) d
                then Inl (BadRequest ''recipient is not a participant of this room'')
                else if uint (hard_cap (config room)) \<le> count_capped_messages rid d
                then Inl (cap_reached room)
                else Inr (room, s)))"

text \<open>The message a send appends.\<close>

definition sent_message :: "string \<Rightarrow> string \<Rightarrow> SendMessageRequest \<Rightarrow> time \<Rightarrow> Db \<Rightarrow> Message" where
  "sent_message rid h req now d =
     \<lparr>m_seq = next_seq d, m_room_id = rid, sender = h, recipient = sm_to req, m_body = sm_body req,
      created_at = now, msg_type = Msg, from_human = sm_from_human req, severity = None,
      question_text = None\<rparr>"

definition without_votes :: "string \<Rightarrow> Participant \<Rightarrow> Participant" where
  "without_votes h p = (if p_handle p = h then p\<lparr>wants_close_at := None, wants_extend_at := None\<rparr> else p)"

text \<open>The room after a message: touched, and active again if it was idle or stale.\<close>

definition revived :: "string \<Rightarrow> time \<Rightarrow> RoomRow \<Rightarrow> RoomRow" where
  "revived rid now r =
     (if r_id r \<noteq> rid then r
      else if r_state r \<in> {Idle, Stale}
      then r\<lparr>last_activity_at := now, r_state := Active, state_changed_at := now\<rparr>
      else r\<lparr>last_activity_at := now\<rparr>)"

definition sent_db :: "string \<Rightarrow> Room \<Rightarrow> Participant \<Rightarrow> SendMessageRequest \<Rightarrow> time \<Rightarrow> Db \<Rightarrow> Db" where
  "sent_db rid room s req now d = d\<lparr>
     messages := messages d @ [sent_message rid (p_handle s) req now d],
     participants := map (without_votes (p_handle s)) (participants d),
     rooms := map (revived rid now) (rooms d),
     events := events d @ (if r_state room \<in> {Idle, Stale}
        then [state_row rid (r_state room) Active None now d] else [])\<rparr>"

lemma writable_iff: "r_state room \<in> {Active, Idle, Stale} \<longleftrightarrow> \<not> is_halted (r_state room)"
  by (cases "r_state room") auto

lemma recipient_check:
  "list_ex (\<lambda>p. p_handle p = h) (list_participants fmt rid d) \<longleftrightarrow>
     list_ex (\<lambda>p. p_room_id p = rid \<and> p_handle p = h) (participants d)"
  by (auto simp: list_participants_def list_ex_iff)

lemma room_row_unique:
  assumes "wf_db d" and "get_room rid d = Inr (Some room)" and "r \<in> set (rooms d)" and "r_id r = rid"
  shows "r_state r = r_state room"
proof -
  obtain row where row: "row \<in> set (rooms d)" "r_id row = rid" "row_to_room row = Inr room"
    using get_room_row [OF assms(2)] by blast
  with assms(1,3,4) have "r = row"
    by (auto simp: wf_db_def wf_rooms_def distinct_map dest: inj_onD)
  with row_to_room_fields(1) [OF row(3)] show ?thesis by simp
qed

lemma room_is_there: "get_room rid d = Inr (Some room) \<Longrightarrow> rid \<in> room_ids d"
  using get_room_row [of rid d room] by (auto simp: room_ids_def)

text \<open>The writes of a send, one after the other, on the tables.\<close>

lemma send_writes:
  assumes wf: "wf_db d" and room: "get_room rid d = Inr (Some room)"
    and writable: "\<not> is_halted (r_state room)"
  shows "(let d1 = d\<lparr>messages := messages d @ [sent_message rid h req now d]\<rparr>;
              d2 = snd (set_close_vote h None d1);
              d3 = snd (clear_extend_vote h d2);
              d4 = snd (touch_last_activity rid now d3)
          in if r_state room \<in> {Idle, Stale}
             then snd (update_room_state rid (r_state room) Active now None d4) else d4) =
         sent_db rid room (s\<lparr>p_handle := h\<rparr>) req now d"
proof -
  have state: "r_state r = r_state room" if "r \<in> set (rooms d)" "r_id r = rid" for r
    by (rule room_row_unique [OF wf room that])
  have there: "\<exists>r\<in>set (rooms d). r_id r = rid"
    using room_is_there [OF room] by (auto simp: room_ids_def)
  have rows: "map (moved rid (r_state room) Active now)
      (update_where (\<lambda>r. r_id r = rid) (\<lambda>r. r\<lparr>last_activity_at := now\<rparr>) (rooms d)) = map (revived rid now) (rooms d)"
    if "r_state room \<in> {Idle, Stale}"
    using state that by (auto simp: update_where_def moved_def revived_def)
  have touched: "update_where (\<lambda>r. r_id r = rid) (\<lambda>r. r\<lparr>last_activity_at := now\<rparr>) (rooms d) = map (revived rid now) (rooms d)"
    if "r_state room \<notin> {Idle, Stale}"
    using state that by (auto simp: update_where_def revived_def)
  have votes: "update_where (\<lambda>p. p_handle p = h) (\<lambda>p. p\<lparr>wants_extend_at := None\<rparr>)
      (update_where (\<lambda>p. p_handle p = h) (\<lambda>p. p\<lparr>wants_close_at := None\<rparr>) (participants d)) =
      map (without_votes h) (participants d)"
    by (auto simp: update_where_def without_votes_def)
  have found: "\<exists>r\<in>set (update_where (\<lambda>r. r_id r = rid) (\<lambda>r. r\<lparr>last_activity_at := now\<rparr>) (rooms d)).
      r_id r = rid \<and> r_state r = r_state room"
  proof -
    obtain r where r: "r \<in> set (rooms d)" "r_id r = rid" using there by blast
    then have "r\<lparr>last_activity_at := now\<rparr> \<in>
        set (update_where (\<lambda>r. r_id r = rid) (\<lambda>r. r\<lparr>last_activity_at := now\<rparr>) (rooms d))"
      by (auto simp: set_update_where)
    with r state show ?thesis by (intro bexI [of _ "r\<lparr>last_activity_at := now\<rparr>"]) simp_all
  qed
  show ?thesis
  proof (cases "r_state room \<in> {Idle, Stale}")
    case True
    with rows votes found show ?thesis
      by (simp add: Let_def set_close_vote_def clear_extend_vote_def update_participant_def
          touch_last_activity_def update_room_state_cases sent_db_def state_row_def)
  next
    case False
    with touched votes show ?thesis
      by (simp add: Let_def set_close_vote_def clear_extend_vote_def update_participant_def
          touch_last_activity_def sent_db_def)
  qed
qed

lemma capped_result:
  "create_message_capped rid h (sm_to req) (sm_body req) now (sm_from_human req) cap d =
     (if \<not> count_capped_messages rid d < cap then (Inr None, d)
      else if rid \<in> room_ids d then (Inr (Some (sent_message rid h req now d)),
        d\<lparr>messages := messages d @ [sent_message rid h req now d]\<rparr>)
      else (Inl ForeignKeyViolation, d))"
  by (simp add: create_message_capped_def insert_message_def room_exists_iff sent_message_def Let_def)

lemma votes_results [simp]:
  "fst (set_close_vote h vt d) = Inr ()" "fst (clear_extend_vote h d) = Inr ()"
  "fst (touch_last_activity rid t d) = Inr ()" "fst (touch_last_poll h t d) = Inr ()"
  "fst (set_nickname h nick d) = Inr ()" "fst (clear_close_votes rid d) = Inr ()"
  by (simp_all add: set_close_vote_def clear_extend_vote_def touch_last_activity_def
      touch_last_poll_def set_nickname_def clear_close_votes_def update_participant_def)

lemma update_room_state_ok: "\<exists>b. fst (update_room_state rid s to now det d) = Inr b"
  by (auto simp: update_room_state_cases)

lemma run_revive:
  "run (revive rid room now (notify rid (ok r))) w =
     Some (Inr r, w\<lparr>w_db := (if r_state room \<in> {Idle, Stale}
        then snd (update_room_state rid (r_state room) Active now None (w_db w)) else w_db w),
      w_hub := hub_notify rid (w_hub w)\<rparr>)"
  using update_room_state_ok [of rid "r_state room" Active now None "w_db w"]
  by (auto simp: revive_def run_simps)

lemma run_check_recipient:
  "run (check_recipient fmt rid to k) w =
     (if recipient_missing rid to (w_db w)
      then Some (Inl (BadRequest ''recipient is not a participant of this room''), w) else run k w)"
  by (auto simp: check_recipient_def run_simps recipient_check recipient_missing_def split: option.split)

lemma reject_cases:
  "reject_unless_writable room =
     (if is_halted (r_state room)
      then Inl (Conflict (''room is '' @ RoomState_as_str (r_state room) @ ''; it is not accepting messages''))
      else Inr ())"
  by (cases "r_state room") (simp_all add: reject_unless_writable_def)

text \<open>The part of \<open>send_message\<close> after the checks, on the tables.\<close>

lemma run_send_rest:
  assumes "wf_db (w_db w)" and "get_room rid (w_db w) = Inr (Some room)" and "\<not> is_halted (r_state room)"
  shows "run (sql from_storage (create_message_capped rid (p_handle s) (sm_to req) (sm_body req) now
      (sm_from_human req) (uint (hard_cap (config room)))) (\<lambda>msg. ok_or (cap_reached room) msg (\<lambda>msg.
     sql from_storage (set_close_vote (p_handle s) None) (\<lambda>_.
     sql from_storage (clear_extend_vote (p_handle s)) (\<lambda>_.
     sql from_storage (touch_last_activity rid now) (\<lambda>_.
     revive rid room now (notify rid (ok \<lparr>ms_seq = m_seq msg\<rparr>)))))))) w =
    Some (if uint (hard_cap (config room)) \<le> count_capped_messages rid (w_db w)
      then (Inl (cap_reached room), w)
      else (Inr \<lparr>ms_seq = next_seq (w_db w)\<rparr>,
        w\<lparr>w_db := sent_db rid room s req now (w_db w), w_hub := hub_notify rid (w_hub w)\<rparr>))"
proof (cases "uint (hard_cap (config room)) \<le> count_capped_messages rid (w_db w)")
  case True
  then show ?thesis by (simp add: run_sql run_ok_or capped_result)
next
  case False
  have seq: "m_seq (sent_message rid (p_handle s) req now (w_db w)) = next_seq (w_db w)"
    by (simp add: sent_message_def)
  have same: "s\<lparr>p_handle := p_handle s\<rparr> = s" by simp
  show ?thesis
    using False room_is_there [OF assms(2)] send_writes [OF assms, of "p_handle s" req now s]
    unfolding same by (auto simp: run_sql run_ok_or capped_result run_revive seq Let_def)
qed

section \<open>The checks of a signal\<close>

definition signal_checks ::
  "string \<Rightarrow> SignalRequest \<Rightarrow> Db \<Rightarrow>
   ApiError + Room \<times> Participant \<times> MessageType \<times> (Severity option \<times> string) \<times> RoomState option" where
  "signal_checks rid req d =
     (case get_room rid d of
        Inl e \<Rightarrow> Inl (Internal e)
      | Inr None \<Rightarrow> Inl NotFound
      | Inr (Some room) \<Rightarrow>
          if is_halted (r_state room) then
            Inl (Conflict (''room is '' @ RoomState_as_str (r_state room) @ ''; it is not accepting messages''))
          else (case resolved rid (caller_instance req) d of
              None \<Rightarrow> Inl not_a_participant
            | Some s \<Rightarrow> (case signal_type (sg_signal_type req) of
                Inl e \<Rightarrow> Inl e
              | Inr mt \<Rightarrow> (case signal_fields mt req of
                  Inl e \<Rightarrow> Inl e
                | Inr f \<Rightarrow> (case pause_target mt room of
                    Inl e \<Rightarrow> Inl e | Inr to \<Rightarrow> Inr (room, s, mt, f, to))))))"

definition sentinel ::
  "string \<Rightarrow> string \<Rightarrow> SignalRequest \<Rightarrow> MessageType \<Rightarrow> Severity option \<times> string \<Rightarrow> time \<Rightarrow> Db \<Rightarrow> Message" where
  "sentinel rid h req mt f now d =
     \<lparr>m_seq = next_seq d, m_room_id = rid, sender = h, recipient = None, m_body = snd f,
      created_at = now, msg_type = mt, from_human = False, severity = fst f,
      question_text = sg_question_text req\<rparr>"

text \<open>The tables after a signal: the sentinel, and for a blocker the pause with its audit row.\<close>

definition signalled_db ::
  "string \<Rightarrow> Room \<Rightarrow> Participant \<Rightarrow> SignalRequest \<Rightarrow> MessageType \<Rightarrow> Severity option \<times> string \<Rightarrow>
   RoomState option \<Rightarrow> time \<Rightarrow> Db \<Rightarrow> Db" where
  "signalled_db rid room s req mt f to now d = d\<lparr>
     messages := messages d @ [sentinel rid (p_handle s) req mt f now d],
     rooms := (case to of None \<Rightarrow> rooms d | Some t \<Rightarrow> map (moved rid (r_state room) t now) (rooms d)),
     events := events d @ (case to of None \<Rightarrow> []
       | Some t \<Rightarrow> [state_row rid (r_state room) t (sg_reason req) now d])\<rparr>"

lemma typed_result:
  "create_message_typed rid h None (snd f) now mt (fst f) (sg_question_text req) d =
     (if rid \<in> room_ids d then (Inr (sentinel rid h req mt f now d),
        d\<lparr>messages := messages d @ [sentinel rid h req mt f now d]\<rparr>)
      else (Inl ForeignKeyViolation, d))"
  by (simp add: create_message_typed_def insert_message_def room_exists_iff sentinel_def Let_def)

lemma cas_succeeds:
  assumes "get_room rid d = Inr (Some room)"
  shows "update_room_state rid (r_state room) to now det d =
    (Inr True, d\<lparr>rooms := map (moved rid (r_state room) to now) (rooms d),
       events := events d @ [state_row rid (r_state room) to det now d]\<rparr>)"
proof -
  obtain row where "row \<in> set (rooms d)" "r_id row = rid" "row_to_room row = Inr room"
    using get_room_row [OF assms] by blast
  with row_to_room_fields(1) [of row room] show ?thesis
    by (auto simp: update_room_state_cases)
qed

lemma room_ids_moved [simp]: "room_ids (d\<lparr>rooms := map (moved rid s t now) (rooms d), events := es\<rparr>) = room_ids d"
  by (simp add: room_ids_def image_image)

lemma run_signal_rest:
  assumes room: "get_room rid (w_db w) = Inr (Some room)"
  shows "run (pause_first rid room to now (sg_reason req) (
     sql from_storage (create_message_typed rid h None (snd f) now mt (fst f) (sg_question_text req)) (\<lambda>msg.
     notify rid (ok \<lparr>gs_seq = m_seq msg\<rparr>)))) w =
   Some (Inr \<lparr>gs_seq = next_seq (w_db w)\<rparr>,
     w\<lparr>w_db := signalled_db rid room (s\<lparr>p_handle := h\<rparr>) req mt f to now (w_db w),
       w_hub := hub_notify rid (w_hub w)\<rparr>)"
proof (cases to)
  case None
  then show ?thesis
    using room_is_there [OF room]
    by (simp add: pause_first_def run_sql run_notify run_ok_fail typed_result signalled_db_def sentinel_def)
next
  case (Some t)
  have "next_seq (w_db w\<lparr>rooms := rs, events := es\<rparr>) = next_seq (w_db w)" for rs es
    by (simp add: next_seq_def)
  with Some show ?thesis
    using room_is_there [OF room] cas_succeeds [OF room]
    by (simp add: pause_first_def run_sql run_notify run_ok_fail typed_result signalled_db_def sentinel_def)
qed

lemma run_send_message:
  assumes "wf_db (w_db w)"
  shows "run (send_message fmt rid req) w =
    Some (case send_checks rid req (w_db w) of
      Inl e \<Rightarrow> (Inl e, w)
    | Inr (room, s) \<Rightarrow> (Inr \<lparr>ms_seq = next_seq (w_db w)\<rparr>,
        w\<lparr>w_db := sent_db rid room s req (w_now w) (w_db w), w_hub := hub_notify rid (w_hub w)\<rparr>))"
proof (cases "get_room rid (w_db w)")
  case (Inr found)
  show ?thesis
  proof (cases found)
    case (Some room)
    with Inr have room: "get_room rid (w_db w) = Inr (Some room)" by simp
    show ?thesis
      using run_send_rest [OF assms room]
      by (simp add: send_message_def send_checks_def run_fetch run_ok_or run_ensure run_call
          run_resolve run_check_recipient run_now_utc reject_cases room split: option.split)
  qed (simp add: send_message_def send_checks_def run_simps Inr)
qed (simp add: send_message_def send_checks_def run_simps from_storage_def)

section \<open>Properties\<close>

text \<open>C5: sending, every branch. Run alone, \<open>send_message\<close> fails with the first failing check and then
  changes nothing; otherwise it answers with the next sequence number and has appended exactly one
  message, retracted exactly the sender's own close and extend votes, touched the room, revived it
  to active with its audit row if it was idle or stale, and rung the room once.\<close>

theorem send_message_outcome:
  assumes "wf_db (w_db w)"
  shows "run (send_message fmt rid req) w =
    Some (case send_checks rid req (w_db w) of
      Inl e \<Rightarrow> (Inl e, w)
    | Inr (room, s) \<Rightarrow> (Inr \<lparr>ms_seq = next_seq (w_db w)\<rparr>,
        w\<lparr>w_db := sent_db rid room s req (w_now w) (w_db w), w_hub := hub_notify rid (w_hub w)\<rparr>))"
  by (rule run_send_message [OF assms])

theorem send_message_outcome_witness:
  "wf_db (w_db sample_world) \<and>
   (\<exists>w. run (send_message sample_fmt ''r'' (say ''a'' ''hi'')) sample_world = Some (Inr \<lparr>ms_seq = 1\<rparr>, w) \<and>
      map m_body (messages (w_db w)) = [''hi''] \<and> w_hub w ''r'' = Some 1)"
proof -
  have checks: "send_checks ''r'' (say ''a'' ''hi'') (w_db sample_world) = Inr (sample_room, alice)"
    by code_simp
  have seq: "next_seq (w_db sample_world) = 1" by code_simp
  have hub: "w_hub sample_world = Map.empty" and none: "messages (w_db sample_world) = []"
    by (simp_all add: sample_defs)
  show ?thesis
    using send_message_outcome [OF sample_ok, of sample_fmt "''r''" "say ''a'' ''hi''"] sample_ok
    by (simp add: checks seq hub none sent_db_def sent_message_def hub_notify_def)
qed

text \<open>C12: signalling, every branch. Run alone, \<open>signal_room\<close> fails with the first failing check and
  changes nothing; otherwise it answers with the next sequence number and has appended exactly one
  broadcast sentinel, whatever the caps; votes are untouched; and a \<open>blocker_real_work\<close> has also
  paused the room, with the reason in the audit row, in the same request.\<close>

theorem signal_room_outcome:
  "run (signal_room rid req) w =
    Some (case signal_checks rid req (w_db w) of
      Inl e \<Rightarrow> (Inl e, w)
    | Inr (room, s, mt, f, to) \<Rightarrow> (Inr \<lparr>gs_seq = next_seq (w_db w)\<rparr>,
        w\<lparr>w_db := signalled_db rid room s req mt f to (w_now w) (w_db w), w_hub := hub_notify rid (w_hub w)\<rparr>)) \<and>
   (\<forall>room s mt f to. signal_checks rid req (w_db w) = Inr (room, s, mt, f, to) \<longrightarrow>
      (mt = BlockerRealWork \<longleftrightarrow> to = Some Paused) \<and> (mt \<noteq> BlockerRealWork \<longrightarrow> to = None) \<and> mt \<noteq> Msg)"
proof
  show "run (signal_room rid req) w =
    Some (case signal_checks rid req (w_db w) of
      Inl e \<Rightarrow> (Inl e, w)
    | Inr (room, s, mt, f, to) \<Rightarrow> (Inr \<lparr>gs_seq = next_seq (w_db w)\<rparr>,
        w\<lparr>w_db := signalled_db rid room s req mt f to (w_now w) (w_db w), w_hub := hub_notify rid (w_hub w)\<rparr>))"
  proof (cases "get_room rid (w_db w)")
    case (Inr found)
    show ?thesis
    proof (cases found)
      case (Some room)
      with Inr have room: "get_room rid (w_db w) = Inr (Some room)" by simp
      have same: "s\<lparr>p_handle := p_handle s\<rparr> = s" for s :: Participant by simp
      show ?thesis
        using run_signal_rest [OF room, where s = s and h = "p_handle s" for s, unfolded same]
        by (auto simp: signal_room_def signal_checks_def run_fetch run_ok_or run_ensure run_call
            run_resolve run_now_utc reject_cases room split: option.split sum.split)
    qed (simp add: signal_room_def signal_checks_def run_simps Inr)
  qed (simp add: signal_room_def signal_checks_def run_simps from_storage_def)
  have target: "pause_target mt room = Inr to \<Longrightarrow>
      (mt = BlockerRealWork \<longleftrightarrow> to = Some Paused) \<and> (mt \<noteq> BlockerRealWork \<longrightarrow> to = None)" for mt room to
    by (cases "r_state room") (auto simp: pause_target_def split: if_splits)
  show "\<forall>room s mt f to. signal_checks rid req (w_db w) = Inr (room, s, mt, f, to) \<longrightarrow>
      (mt = BlockerRealWork \<longleftrightarrow> to = Some Paused) \<and> (mt \<noteq> BlockerRealWork \<longrightarrow> to = None) \<and> mt \<noteq> Msg"
    using target signal_type_sentinel
    by (auto simp: signal_checks_def split: sum.splits option.splits if_splits)
qed

theorem signal_room_outcome_witness:
  "signal_checks ''r'' blocker_request (w_db sample_world) =
     Inr (sample_room, alice, BlockerRealWork, (None, ''fix''), Some Paused) \<and>
   (\<exists>w. run (signal_room ''r'' blocker_request) sample_world = Some (Inr \<lparr>gs_seq = 1\<rparr>, w) \<and>
      map r_state (rooms (w_db w)) = [Paused] \<and> map detail (events (w_db w)) = [Some ''fix''])"
proof -
  have checks: "signal_checks ''r'' blocker_request (w_db sample_world) =
     Inr (sample_room, alice, BlockerRealWork, (None, ''fix''), Some Paused)"
    by code_simp
  have seq: "next_seq (w_db sample_world) = 1" by code_simp
  have state: "map (moved ''r'' Active Paused (w_now sample_world)) (rooms (w_db sample_world)) =
      [(room_to_row sample_room)\<lparr>r_state := Paused, state_changed_at := seconds 5\<rparr>]"
    by code_simp
  have "events (w_db sample_world) = []" "r_state sample_room = Active" "sg_reason blocker_request = Some ''fix''"
    by (simp_all add: sample_defs blocker_request_def)
  then show ?thesis
    using signal_room_outcome [of "''r''" blocker_request sample_world]
    by (simp add: checks seq signalled_db_def state state_row_def)
qed

end
