(* ===== verification/HttpConsensus.thy ===== *)
theory HttpConsensus
  imports HttpMessages
begin

text \<open>
  The handlers of \<open>http.rs\<close> that change a room's life: the consensus close and extend votes, and
  the explicit pause and wake.
\<close>

section \<open>Closing\<close>

definition close_response :: "string \<Rightarrow> RoomState \<Rightarrow> (u32 \<times> u32) option \<Rightarrow> LifecycleResponse" where
  "close_response status state progress =
     \<lparr>ls_state = RoomState_as_str state, ls_status = Some status,
      ls_votes = map_option fst progress, ls_needed = map_option snd progress\<rparr>"

definition close_now ::
  "string \<Rightarrow> RoomState \<Rightarrow> time \<Rightarrow> (World, ApiError + unit) prog" where
  "close_now rid from_s now =
     ensure (case transition from_s EvClose of
         Inl _ \<Rightarrow> Inl (Conflict (''cannot close from '' @ RoomState_as_str from_s)) | Inr to \<Rightarrow> Inr to) (\<lambda>to.
     sql from_storage (update_room_state rid from_s to now None) (\<lambda>changed.
     let finish = sql from_storage (clear_close_votes rid) (\<lambda>_. notify rid (ok ()))
     in if changed then finish
        else fetch from_storage (get_room rid) (\<lambda>cur. ok_or NotFound cur (\<lambda>cur.
          if is_terminal (r_state cur) then finish else fail changed_concurrently))))"

definition polled_recently :: "time \<Rightarrow> Participant \<Rightarrow> bool" where
  "polled_recently now p \<longleftrightarrow> now - last_poll_at p \<le> GHOST_AFTER"

definition live_count :: "time \<Rightarrow> Participant list \<Rightarrow> nat" where
  "live_count now ps = count_where (polled_recently now) ps"

definition close_vote_count :: "time \<Rightarrow> Participant list \<Rightarrow> nat" where
  "close_vote_count now ps = count_where (\<lambda>p. wants_close_at p \<noteq> None \<and> polled_recently now p) ps"

definition close_room ::
  "(time \<Rightarrow> string) \<Rightarrow> string \<Rightarrow> LifecycleRequest \<Rightarrow> (World, ApiError + LifecycleResponse) prog" where
  "close_room fmt rid req =
     fetch from_storage (get_room rid) (\<lambda>room. ok_or NotFound room (\<lambda>room.
     if is_terminal (r_state room) then fail (cannot ''close'' room)
     else call from_storage (resolve_participant rid (caller_instance req)) (\<lambda>c. ok_or not_a_participant c (\<lambda>c.
     now_utc (\<lambda>now.
     if lr_force req then
       call id (close_now rid (r_state room) now) (\<lambda>_. ok (close_response ''closed'' Closed None))
     else
       sql from_storage (touch_last_poll (p_handle c) now) (\<lambda>_.
       sql from_storage (set_close_vote (p_handle c) (Some now)) (\<lambda>_.
       look (list_participants fmt rid) (\<lambda>ps.
       let live = live_count now ps;
           votes = close_vote_count now ps;
           needed = CloseQuorum_needed (close_quorum (config room)) live
       in if needed \<le> votes then
            call id (close_now rid (r_state room) now) (\<lambda>_. ok (close_response ''closed'' Closed None))
          else
            notify rid (ok (close_response ''close_proposed'' (r_state room)
              (Some (of_nat votes, of_nat needed))))))))))))"

section \<open>Extending\<close>

definition extended_body :: "u32 \<Rightarrow> string" where
  "extended_body cap = ''Message cap extended to '' @ show_u32 cap @ '' by consensus (+'' @ show_u32 EXTEND_STEP @ '').''"

definition extend_room ::
  "(time \<Rightarrow> string) \<Rightarrow> string \<Rightarrow> ExtendRequest \<Rightarrow> (World, ApiError + ExtendResponse) prog" where
  "extend_room fmt rid req =
     fetch from_storage (get_room rid) (\<lambda>room. ok_or NotFound room (\<lambda>room.
     if is_halted (r_state room) then fail (cannot ''extend'' room)
     else call from_storage (resolve_participant rid (caller_instance req)) (\<lambda>v. ok_or not_a_participant v (\<lambda>v.
     now_utc (\<lambda>now.
     sql from_storage (try_extend fmt rid (p_handle v) EXTEND_STEP now (now - GHOST_AFTER)
         (close_quorum (config room))) (\<lambda>outcome. case outcome of
       Extended cap \<Rightarrow>
         sql from_storage (create_message_typed rid (p_handle v) None (extended_body cap) now ExtendMsg None None) (\<lambda>_.
         notify rid (ok \<lparr>es_state = RoomState_as_str (r_state room), es_status = ''extended'',
           es_votes = None, es_needed = None, es_hard_cap = Some cap\<rparr>))
     | Proposed votes needed \<Rightarrow>
         notify rid (ok \<lparr>es_state = RoomState_as_str (r_state room), es_status = ''extend_proposed'',
           es_votes = Some votes, es_needed = Some needed, es_hard_cap = None\<rparr>)))))))"

section \<open>Pausing and waking\<close>

fun LifecycleEvent_debug :: "LifecycleEvent \<Rightarrow> string" where
  "LifecycleEvent_debug EvMessage = ''Message''"
| "LifecycleEvent_debug EvPause = ''Pause''"
| "LifecycleEvent_debug EvWake = ''Wake''"
| "LifecycleEvent_debug EvClose = ''Close''"
| "LifecycleEvent_debug EvIdle = ''Idle''"
| "LifecycleEvent_debug EvStale = ''Stale''"
| "LifecycleEvent_debug EvArchive = ''Archive''"
| "LifecycleEvent_debug EvGhostAllStale = ''GhostAllStale''"

definition apply_transition ::
  "string \<Rightarrow> LifecycleRequest \<Rightarrow> LifecycleEvent \<Rightarrow> string option \<Rightarrow> (World, ApiError + LifecycleResponse) prog" where
  "apply_transition rid req ev det =
     fetch from_storage (get_room rid) (\<lambda>room. ok_or NotFound room (\<lambda>room.
     call from_storage (resolve_participant rid (caller_instance req)) (\<lambda>c. ok_or not_a_participant c (\<lambda>_.
     ensure (case transition (r_state room) ev of
         Inl _ \<Rightarrow> Inl (cannot (LifecycleEvent_debug ev) room) | Inr to \<Rightarrow> Inr to) (\<lambda>to.
     now_utc (\<lambda>now.
     sql from_storage (update_room_state rid (r_state room) to now det) (\<lambda>changed.
     if \<not> changed then fail changed_concurrently
     else notify rid (ok \<lparr>ls_state = RoomState_as_str to, ls_status = None, ls_votes = None,
            ls_needed = None\<rparr>))))))))"

definition pause_room :: "string \<Rightarrow> LifecycleRequest \<Rightarrow> (World, ApiError + LifecycleResponse) prog" where
  "pause_room rid req = apply_transition rid req EvPause (lr_reason req)"

definition wake_room :: "string \<Rightarrow> LifecycleRequest \<Rightarrow> (World, ApiError + LifecycleResponse) prog" where
  "wake_room rid req = apply_transition rid req EvWake None"

section \<open>The handlers keep the contract\<close>

lemma ensured_legal:
  "(case transition s e of Inl _ \<Rightarrow> Inl x | Inr to \<Rightarrow> Inr to) = Inr to \<Longrightarrow> legal_move s to"
  by (auto split: sum.splits intro: transition_legal)

lemma close_now_keeps: "keeps (close_now rid from_s now) w"
  unfolding close_now_def Let_def
  by (intro keeps_ensure keeps_update_room_state)
    (auto dest: ensured_legal intro!: keeps_sql keeps_fetch keeps_ok_or keeps_notify wf_keeps)

lemma close_room_keeps: "keeps (close_room fmt rid req) w"
  unfolding close_room_def Let_def
  by (intro keeps_fetch keeps_ok_or)
    (auto intro!: keeps_call keeps_resolve keeps_ok_or keeps_now_utc close_now_keeps keeps_sql
      keeps_look keeps_notify wf_keeps)

lemma extend_room_keeps: "keeps (extend_room fmt rid req) w"
  unfolding extend_room_def
  by (intro keeps_fetch keeps_ok_or)
    (auto intro!: keeps_call keeps_resolve keeps_ok_or keeps_now_utc keeps_sql keeps_notify
      sound_create_message_typed wf_keeps split: ExtendOutcome.split)

lemma apply_transition_keeps: "keeps (apply_transition rid req ev det) w"
  unfolding apply_transition_def
  by (intro keeps_fetch keeps_ok_or keeps_call keeps_resolve keeps_ensure keeps_now_utc
      keeps_update_room_state)
    (auto dest: ensured_legal intro!: keeps_notify)

lemma pause_wake_keep: "keeps (pause_room rid req) w" "keeps (wake_room rid req) w"
  by (simp_all add: pause_room_def wake_room_def apply_transition_keeps)

end
