(* ===== verification/ConsensusSpec.thy ===== *)
theory ConsensusSpec
  imports HttpConsensus MessageSpec
begin

text \<open>
  What the consensus handlers do, run alone: the close vote and its quorum, the extend vote and its
  step, pause and wake, with every error branch; the quorum laws come from the interpretation
  \<open>quorum\<close> of the locale \<open>quorum_policy\<close>.
\<close>

section \<open>The close vote\<close>

definition close_checks :: "string \<Rightarrow> 'a Caller_scheme \<Rightarrow> Db \<Rightarrow> ApiError + Room \<times> Participant" where
  "close_checks rid req d =
     (case get_room rid d of
        Inl e \<Rightarrow> Inl (Internal e)
      | Inr None \<Rightarrow> Inl NotFound
      | Inr (Some room) \<Rightarrow>
          if is_terminal (r_state room) then Inl (cannot ''close'' room)
          else (case resolved rid (caller_instance req) d of
              None \<Rightarrow> Inl not_a_participant | Some c \<Rightarrow> Inr (room, c)))"

text \<open>The tables after the vote of \<open>h\<close>, and after a completed close.\<close>

definition close_voted :: "string \<Rightarrow> time \<Rightarrow> Participant \<Rightarrow> Participant" where
  "close_voted h now p = (if p_handle p = h then p\<lparr>last_poll_at := now, wants_close_at := Some now\<rparr> else p)"

definition voted_db :: "string \<Rightarrow> time \<Rightarrow> Db \<Rightarrow> Db" where
  "voted_db h now d = d\<lparr>participants := map (close_voted h now) (participants d)\<rparr>"

definition vote_cleared :: "string \<Rightarrow> Participant \<Rightarrow> Participant" where
  "vote_cleared rid p = (if p_room_id p = rid then p\<lparr>wants_close_at := None\<rparr> else p)"

definition closed_db :: "string \<Rightarrow> RoomState \<Rightarrow> time \<Rightarrow> Db \<Rightarrow> Db" where
  "closed_db rid from_s now d = d\<lparr>
     rooms := map (moved rid from_s Closed now) (rooms d),
     events := events d @ [state_row rid from_s Closed None now d],
     participants := map (vote_cleared rid) (participants d)\<rparr>"

text \<open>The live participants of a room and the live votes.\<close>

definition live_in :: "string \<Rightarrow> time \<Rightarrow> Db \<Rightarrow> nat" where
  "live_in rid now d = count_where (\<lambda>p. p_room_id p = rid \<and> polled_recently now p) (participants d)"

definition votes_in :: "string \<Rightarrow> time \<Rightarrow> Db \<Rightarrow> nat" where
  "votes_in rid now d =
     count_where (\<lambda>p. p_room_id p = rid \<and> wants_close_at p \<noteq> None \<and> polled_recently now p) (participants d)"

lemma counts_of_list:
  "live_count now (list_participants fmt rid d) = live_in rid now d"
  "close_vote_count now (list_participants fmt rid d) = votes_in rid now d"
  by (simp_all add: live_count_def close_vote_count_def list_participants_def live_in_def votes_in_def
      count_where_filter)

lemma close_legal: "\<not> is_terminal s \<Longrightarrow> transition s EvClose = Inr Closed"
  by (cases s) auto

lemma run_close_now:
  assumes room: "get_room rid (w_db w) = Inr (Some room)" and "\<not> is_terminal (r_state room)"
  shows "run (close_now rid (r_state room) now) w =
    Some (Inr (), w\<lparr>w_db := closed_db rid (r_state room) now (w_db w), w_hub := hub_notify rid (w_hub w)\<rparr>)"
  using cas_succeeds [OF room] close_legal [OF assms(2)]
  by (simp add: close_now_def run_ensure run_sql run_notify run_ok_fail Let_def closed_db_def
      clear_close_votes_def update_where_def vote_cleared_def)

lemma vote_writes:
  "snd (set_close_vote h (Some now) (snd (touch_last_poll h now d))) = voted_db h now d"
  by (auto simp: set_close_vote_def touch_last_poll_def update_participant_def voted_db_def
      update_where_def close_voted_def)

lemma voted_tables [simp]: "rooms (voted_db h now d) = rooms d" "events (voted_db h now d) = events d"
  by (simp_all add: voted_db_def)

lemma get_room_voted [simp]: "get_room rid (voted_db h now d) = get_room rid d"
  by (simp add: voted_db_def get_room_def)

section \<open>Unanimity\<close>

lemma polled_now [simp]: "polled_recently now (p\<lparr>last_poll_at := now, wants_close_at := v\<rparr>)"
  by (simp add: polled_recently_def windows)

text \<open>The live participants other than \<open>c\<close> that have not voted to close.\<close>

definition holdouts :: "string \<Rightarrow> time \<Rightarrow> Participant \<Rightarrow> Db \<Rightarrow> Participant set" where
  "holdouts rid now c d = {p \<in> set (participants d). p_room_id p = rid \<and> p_handle p \<noteq> p_handle c \<and>
     polled_recently now p \<and> wants_close_at p = None}"

lemma voter_is_live:
  assumes "c \<in> set (participants d)" and "p_room_id c = rid"
  shows "0 < votes_in rid now (voted_db (p_handle c) now d)"
    and "0 < live_in rid now (voted_db (p_handle c) now d)"
proof -
  let ?c = "close_voted (p_handle c) now c"
  have "?c \<in> set (participants (voted_db (p_handle c) now d))"
    using assms(1) by (simp add: voted_db_def)
  moreover have "p_room_id ?c = rid" "wants_close_at ?c \<noteq> None" "polled_recently now ?c"
    using assms(2) by (simp_all add: close_voted_def)
  ultimately show "0 < votes_in rid now (voted_db (p_handle c) now d)"
    "0 < live_in rid now (voted_db (p_handle c) now d)"
    unfolding votes_in_def live_in_def count_where_pos by blast+
qed

lemma unanimous_iff:
  "live_in rid now (voted_db (p_handle c) now d) \<le> votes_in rid now (voted_db (p_handle c) now d) \<longleftrightarrow>
     holdouts rid now c d = {}"
  unfolding live_in_def votes_in_def
  by (subst count_where_same_iff) (auto simp: voted_db_def close_voted_def holdouts_def)

lemma close_checks_facts:
  assumes "close_checks rid req d = Inr (room, c)"
  shows "get_room rid d = Inr (Some room)" and "\<not> is_terminal (r_state room)"
    and "c \<in> set (participants d)" and "p_room_id c = rid"
  using assms resolved_in [of rid _ d]
  by (auto simp: close_checks_def split: sum.splits option.splits if_splits)

lemma closed_state:
  assumes "wf_db d" and "get_room rid d = Inr (Some room)" and "r \<in> set (rooms (closed_db rid (r_state room) now d))"
    and "r_id r = rid"
  shows "r_state r = Closed"
proof -
  from assms(3) obtain r0 where "r0 \<in> set (rooms d)" and r: "r = moved rid (r_state room) Closed now r0"
    by (auto simp: closed_db_def)
  moreover from r assms(4) have "r_id r0 = rid" by simp
  ultimately show ?thesis using room_row_unique [OF assms(1,2)] by simp
qed

lemma wf_voted: "wf_db d \<Longrightarrow> wf_db (voted_db h now d)"
  using sound_set_close_vote [of "snd (touch_last_poll h now d)" h "Some now"]
    sound_touch_last_poll [of d h now]
  by (simp add: sound_def vote_writes)

lemma run_close_room:
  "run (close_room fmt rid req) w =
    Some (case close_checks rid req (w_db w) of
      Inl e \<Rightarrow> (Inl e, w)
    | Inr (room, c) \<Rightarrow>
        (let now = w_now w; d = voted_db (p_handle c) now (w_db w);
             votes = votes_in rid now d;
             needed = CloseQuorum_needed (close_quorum (config room)) (live_in rid now d);
             rung = hub_notify rid (w_hub w)
         in if lr_force req then
              (Inr (close_response ''closed'' Closed None),
               w\<lparr>w_db := closed_db rid (r_state room) now (w_db w), w_hub := rung\<rparr>)
            else if needed \<le> votes then
              (Inr (close_response ''closed'' Closed None),
               w\<lparr>w_db := closed_db rid (r_state room) now d, w_hub := rung\<rparr>)
            else
              (Inr (close_response ''close_proposed'' (r_state room) (Some (of_nat votes, of_nat needed))),
               w\<lparr>w_db := d, w_hub := rung\<rparr>)))"
proof (cases "get_room rid (w_db w)")
  case (Inr found)
  show ?thesis
  proof (cases found)
    case (Some room)
    with Inr have room: "get_room rid (w_db w) = Inr (Some room)" by simp
    have closes: "run (close_now rid (r_state room) now) v =
        Some (Inr (), v\<lparr>w_db := closed_db rid (r_state room) now (w_db v), w_hub := hub_notify rid (w_hub v)\<rparr>)"
      if "\<not> is_terminal (r_state room)" "get_room rid (w_db v) = Inr (Some room)" for v now
      by (rule run_close_now [OF that(2,1)])
    show ?thesis
      by (auto simp: close_room_def close_checks_def run_fetch run_ok_or run_call run_resolve
          run_now_utc run_sql run_look run_notify run_ok_fail closes room vote_writes counts_of_list
          Let_def split: option.split)
  qed (simp add: close_room_def close_checks_def run_simps Inr)
qed (simp add: close_room_def close_checks_def run_simps from_storage_def)

lemma run_close_accepted:
  assumes "close_checks rid req (w_db w) = Inr (room, c)" and "\<not> lr_force req"
  shows "run (close_room fmt rid req) w =
    Some (let now = w_now w; d = voted_db (p_handle c) now (w_db w);
             votes = votes_in rid now d;
             needed = CloseQuorum_needed (close_quorum (config room)) (live_in rid now d);
             rung = hub_notify rid (w_hub w)
         in if needed \<le> votes then
              (Inr (close_response ''closed'' Closed None),
               w\<lparr>w_db := closed_db rid (r_state room) now d, w_hub := rung\<rparr>)
            else
              (Inr (close_response ''close_proposed'' (r_state room) (Some (of_nat votes, of_nat needed))),
               w\<lparr>w_db := d, w_hub := rung\<rparr>))"
  using assms by (simp add: run_close_room Let_def)

section \<open>A message, then a vote\<close>

lemma resolved_map:
  assumes "participants d' = map f (participants d)"
    and "\<And>p. p_room_id (f p) = p_room_id p" "\<And>p. p_instance (f p) = p_instance p"
    "\<And>p. p_handle (f p) = p_handle p"
  shows "resolved rid inst d' = map_option f (resolved rid inst d)"
  using assms
  by (auto simp: resolved_def get_participant_by_instance_def get_participant_by_handle_def
      find_map_same split: option.split)

lemma without_votes_keeps [simp]:
  "p_room_id (without_votes h p) = p_room_id p" "p_instance (without_votes h p) = p_instance p"
  "p_handle (without_votes h p) = p_handle p" "last_poll_at (without_votes h p) = last_poll_at p"
  "p_handle p \<noteq> h \<Longrightarrow> without_votes h p = p"
  by (simp_all add: without_votes_def)

lemma revived_keeps [simp]:
  "r_id (revived rid now r) = r_id r" "config (revived rid now r) = config r"
  by (simp_all add: revived_def)

lemma get_room_map:
  assumes "rooms d' = map f (rooms d)" and "\<And>r. r_id (f r) = r_id r" "\<And>r. config (f r) = config r"
    and "get_room rid d = Inr (Some room)"
  obtains row room' where "row \<in> set (rooms d)" "r_id row = rid" "row_to_room row = Inr room"
    "get_room rid d' = Inr (Some room')" "r_state room' = r_state (f row)" "config room' = config room"
proof -
  obtain row where row: "find (\<lambda>r. r_id r = rid) (rooms d) = Some row" "row_to_room row = Inr room"
    using assms(4) by (auto simp: get_room_def split: option.splits sum.splits)
  then obtain c where c: "config_from_json (config row) = Inr c" "room = with_config row c"
    by (auto simp: row_to_room_def split: sum.splits)
  have "get_room rid d' = Inr (Some (with_config (f row) c))"
    using row(1) c(1) assms(1-3) by (simp add: get_room_def find_map_same row_to_room_def)
  moreover have "row \<in> set (rooms d)" "r_id row = rid" using find_SomeD [OF row(1)] by simp_all
  ultimately show ?thesis using that row(2) c(2) by (simp add: with_config_def)
qed

lemma send_checks_facts:
  assumes "send_checks rid req d = Inr (room, s)"
  shows "get_room rid d = Inr (Some room)" and "\<not> is_halted (r_state room)"
    and "resolved rid (caller_instance req) d = Some s"
  using assms by (auto simp: send_checks_def split: sum.splits option.splits if_splits)

text \<open>After a send, its sender may vote to close, and the others' votes are still there.\<close>

lemma close_checks_after_send:
  assumes "wf_db d" and "send_checks rid sreq d = Inr (room, s)"
    and "caller_instance creq = caller_instance sreq"
  shows "\<exists>room'. close_checks rid creq (sent_db rid room s sreq now d) =
      Inr (room', without_votes (p_handle s) s) \<and> config room' = config room"
proof -
  note facts = send_checks_facts [OF assms(2)]
  have rows: "rooms (sent_db rid room s sreq now d) = map (revived rid now) (rooms d)"
    by (simp add: sent_db_def)
  obtain row room' where row: "row \<in> set (rooms d)" "r_id row = rid" "row_to_room row = Inr room"
    and room': "get_room rid (sent_db rid room s sreq now d) = Inr (Some room')"
      "r_state room' = r_state (revived rid now row)" "config room' = config room"
    by (rule get_room_map [OF rows revived_keeps facts(1)])
  have "\<not> is_terminal (r_state room')"
    using room'(2) facts(2) row_to_room_fields(1) [OF row(3)] terminal_halted
    by (auto simp: revived_def split: if_splits)
  moreover have "resolved rid (caller_instance creq) (sent_db rid room s sreq now d) = Some (without_votes (p_handle s) s)"
    using resolved_map [of "sent_db rid room s sreq now d" "without_votes (p_handle s)" d rid] facts(3) assms(3)
    by (simp add: sent_db_def)
  ultimately show ?thesis using room' by (simp add: close_checks_def)
qed

section \<open>Properties\<close>

text \<open>C4: closing, every branch. A close is refused with nothing changed for an unknown or terminal
  room and for a stranger; a forced one closes at once; any other records the caller's vote and
  liveness, and closes exactly if the live votes, the new one included, reach the quorum of the live
  participants. A completed close moves the state with its audit row and clears the room's votes; an
  incomplete one only answers with the count and wakes the waiters.\<close>

theorem close_room_outcome:
  "run (close_room fmt rid req) w =
    Some (case close_checks rid req (w_db w) of
      Inl e \<Rightarrow> (Inl e, w)
    | Inr (room, c) \<Rightarrow>
        (let now = w_now w; d = voted_db (p_handle c) now (w_db w);
             votes = votes_in rid now d;
             needed = CloseQuorum_needed (close_quorum (config room)) (live_in rid now d);
             rung = hub_notify rid (w_hub w)
         in if lr_force req then
              (Inr (close_response ''closed'' Closed None),
               w\<lparr>w_db := closed_db rid (r_state room) now (w_db w), w_hub := rung\<rparr>)
            else if needed \<le> votes then
              (Inr (close_response ''closed'' Closed None),
               w\<lparr>w_db := closed_db rid (r_state room) now d, w_hub := rung\<rparr>)
            else
              (Inr (close_response ''close_proposed'' (r_state room) (Some (of_nat votes, of_nat needed))),
               w\<lparr>w_db := d, w_hub := rung\<rparr>)))"
  by (rule run_close_room)

theorem close_room_outcome_witness:
  "\<exists>w. run (close_room sample_fmt ''r'' (lifecycle_request ''a'')) sample_world =
     Some (Inr (close_response ''close_proposed'' Active (Some (1, 2))), w) \<and>
   map wants_close_at (participants (w_db w)) = [Some (seconds 5), None]"
proof -
  have checks: "close_checks ''r'' (lifecycle_request ''a'') (w_db sample_world) = Inr (sample_room, alice)"
    by code_simp
  have counts: "votes_in ''r'' (w_now sample_world) (voted_db (p_handle alice) (w_now sample_world) (w_db sample_world)) = 1"
    "live_in ''r'' (w_now sample_world) (voted_db (p_handle alice) (w_now sample_world) (w_db sample_world)) = 2"
    by code_simp+
  have votes: "map wants_close_at (participants (voted_db (p_handle alice) (w_now sample_world) (w_db sample_world))) =
      [Some (seconds 5), None]"
    by code_simp
  have "close_quorum (config sample_room) = QAll" "r_state sample_room = Active"
    "\<not> lr_force (lifecycle_request ''a'')"
    by (simp_all add: sample_defs lifecycle_request_def)
  then show ?thesis
    using close_room_outcome [of sample_fmt "''r''" "lifecycle_request ''a''" sample_world]
    by (simp add: checks counts votes Let_def)
qed

lemma close_by_consensus:
  assumes "wf_db (w_db w)" and "close_checks rid req (w_db w) = Inr (room, c)"
    and "close_quorum (config room) = QAll" and "\<not> lr_force req"
  shows "\<exists>resp w'. run (close_room fmt rid req) w = Some (Inr resp, w') \<and>
    (if holdouts rid (w_now w) c (w_db w) = {}
     then ls_status resp = Some ''closed'' \<and>
       (\<forall>r\<in>set (rooms (w_db w')). r_id r = rid \<longrightarrow> r_state r = Closed)
     else ls_status resp = Some ''close_proposed'' \<and> rooms (w_db w') = rooms (w_db w) \<and>
       events (w_db w') = events (w_db w))"
proof -
  note facts = close_checks_facts [OF assms(2)]
  let ?d = "voted_db (p_handle c) (w_now w) (w_db w)"
  have "CloseQuorum_needed QAll (live_in rid (w_now w) ?d) \<le> votes_in rid (w_now w) ?d \<longleftrightarrow>
      holdouts rid (w_now w) c (w_db w) = {}"
    using unanimous_iff [of rid "w_now w" c "w_db w"] voter_is_live [OF facts(3,4), of "w_now w"]
    by (auto simp: max_def)
  then show ?thesis
    using run_close_accepted [OF assms(2,4), of fmt] assms(3)
      closed_state [OF wf_voted [OF assms(1)], where rid = rid and room = room] facts(1)
    by (auto simp: Let_def close_response_def)
qed

text \<open>C10: a close needs exactly the live. Under the default quorum an accepted, unforced close closes
  the room if and only if no other live participant is still without a vote: ghosts never block it,
  one live holdout always does, and a lone live agent closes alone.\<close>

theorem close_is_unanimous:
  assumes "wf_db (w_db w)" and "close_checks rid req (w_db w) = Inr (room, c)"
    and "close_quorum (config room) = QAll" and "\<not> lr_force req"
  shows "\<exists>resp w'. run (close_room fmt rid req) w = Some (Inr resp, w') \<and>
    (if holdouts rid (w_now w) c (w_db w) = {}
     then ls_status resp = Some ''closed'' \<and>
       (\<forall>r\<in>set (rooms (w_db w')). r_id r = rid \<longrightarrow> r_state r = Closed)
     else ls_status resp = Some ''close_proposed'' \<and> rooms (w_db w') = rooms (w_db w) \<and>
       events (w_db w') = events (w_db w))"
  by (rule close_by_consensus [OF assms])

theorem close_is_unanimous_witness:
  "holdouts ''r'' (seconds 5) alice sample_db = {bob} \<and>
   (\<exists>w. run (close_room sample_fmt ''r'' (lifecycle_request ''a'')) sample_world = Some w \<and>
      rooms (w_db (snd w)) = rooms sample_db)"
proof -
  have checks: "close_checks ''r'' (lifecycle_request ''a'') (w_db sample_world) = Inr (sample_room, alice)"
    by code_simp
  have holdouts: "holdouts ''r'' (seconds 5) alice sample_db = {bob}"
    by (auto simp: holdouts_def sample_defs polled_recently_def windows)
  have "close_quorum (config sample_room) = QAll" "\<not> lr_force (lifecycle_request ''a'')"
    by (simp_all add: sample_defs lifecycle_request_def)
  moreover have "w_now sample_world = seconds 5" "w_db sample_world = sample_db"
    by (simp_all add: sample_world_def world_of_def)
  ultimately show ?thesis
    using close_is_unanimous [OF sample_ok checks, of sample_fmt] holdouts by auto
qed

text \<open>A message does not take back the counterpart's vote. If every other agent that is live has
  voted to close, an agent may still post its wrap-up message and then vote: the message retracts
  only its own vote, and its vote closes the room, whatever time passed in between.\<close>

lemma message_then_vote_closes:
  assumes "wf_db (w_db w)" and "send_checks rid sreq (w_db w) = Inr (room, s)"
    and "close_quorum (config room) = QAll"
    and "caller_instance creq = caller_instance sreq" and "\<not> lr_force creq"
    and "holdouts rid later s (w_db w) = {}"
  shows "\<exists>r v resp v'. run (send_message fmt rid sreq) w = Some (Inr r, v) \<and>
    run (close_room fmt rid creq) (v\<lparr>w_now := later\<rparr>) = Some (Inr resp, v') \<and>
    ls_status resp = Some ''closed''"
proof -
  let ?d = "sent_db rid room s sreq (w_now w) (w_db w)"
  let ?v = "w\<lparr>w_db := ?d, w_hub := hub_notify rid (w_hub w)\<rparr>"
  have send: "run (send_message fmt rid sreq) w = Some (Inr \<lparr>ms_seq = next_seq (w_db w)\<rparr>, ?v)"
    using run_send_message [OF assms(1), of fmt rid sreq] assms(2) by simp
  obtain room' where checks: "close_checks rid creq ?d = Inr (room', without_votes (p_handle s) s)"
    and room': "config room' = config room"
    using close_checks_after_send [OF assms(1,2,4)] by blast
  have "holdouts rid later (without_votes (p_handle s) s) ?d \<subseteq> holdouts rid later s (w_db w)"
  proof
    fix p assume p: "p \<in> holdouts rid later (without_votes (p_handle s) s) ?d"
    then obtain q where "q \<in> set (participants (w_db w))" and q: "p = without_votes (p_handle s) q"
      by (auto simp: holdouts_def sent_db_def)
    moreover from p q have "p = q" by (simp add: holdouts_def)
    ultimately show "p \<in> holdouts rid later s (w_db w)" using p by (simp add: holdouts_def)
  qed
  then have "holdouts rid later (without_votes (p_handle s) s) ?d = {}" using assms(6) by blast
  moreover note facts = close_checks_facts [OF checks]
  ultimately have "CloseQuorum_needed QAll (live_in rid later (voted_db (p_handle s) later ?d))
      \<le> votes_in rid later (voted_db (p_handle s) later ?d)"
    using unanimous_iff [of rid later "without_votes (p_handle s) s" ?d]
      voter_is_live [OF facts(3,4), of later] by (auto simp: max_def)
  then show ?thesis
    using send run_close_accepted [of rid creq "?v\<lparr>w_now := later\<rparr>" room' "without_votes (p_handle s) s" fmt]
      checks assms(3,5) room'
    by (auto simp: Let_def close_response_def)
qed

end
