(* ===== verification/HttpWait.thy ===== *)
theory HttpWait
  imports HttpConsensus
begin

text \<open>
  \<open>wait_room\<close> of \<open>http.rs\<close> and everything it derives its answer from: the gates before the park, the
  choice of the park, the predicate that ends a park early, the backoff hints and the status of a
  timeout. \<open>n\<close> is the fuel of the wait loop.
\<close>

section \<open>What the answer is derived from\<close>

definition has_counterpart :: "(time \<Rightarrow> string) \<Rightarrow> string \<Rightarrow> string \<Rightarrow> Db \<Rightarrow> bool" where
  "has_counterpart fmt rid h d = list_ex (\<lambda>p. p_handle p \<noteq> h) (list_participants fmt rid d)"

definition close_proposed_at :: "time \<Rightarrow> string \<Rightarrow> Participant list \<Rightarrow> bool" where
  "close_proposed_at now h ps =
     (if list_ex (\<lambda>p. p_handle p = h \<and> wants_close_at p \<noteq> None) ps then False
      else list_ex (\<lambda>p. p_handle p \<noteq> h \<and> wants_close_at p \<noteq> None \<and> now - last_poll_at p \<le> GHOST_AFTER) ps)"

definition close_proposed ::
  "(time \<Rightarrow> string) \<Rightarrow> string \<Rightarrow> string \<Rightarrow> (World, StorageError + bool) prog" where
  "close_proposed fmt rid h = now_utc (\<lambda>now. look (list_participants fmt rid) (\<lambda>ps.
     ok (close_proposed_at now h ps)))"

definition extend_proposed_at :: "time \<Rightarrow> string \<Rightarrow> Participant list \<Rightarrow> bool" where
  "extend_proposed_at now h ps =
     (if list_ex (\<lambda>p. p_handle p = h \<and> wants_extend_at p \<noteq> None) ps then False
      else list_ex (\<lambda>p. p_handle p \<noteq> h \<and> wants_extend_at p \<noteq> None \<and> now - last_poll_at p \<le> GHOST_AFTER) ps)"

definition extend_proposed ::
  "(time \<Rightarrow> string) \<Rightarrow> string \<Rightarrow> string \<Rightarrow> (World, StorageError + bool) prog" where
  "extend_proposed fmt rid h = now_utc (\<lambda>now. look (list_participants fmt rid) (\<lambda>ps.
     ok (extend_proposed_at now h ps)))"

definition stale_at :: "time \<Rightarrow> string \<Rightarrow> Participant list \<Rightarrow> bool" where
  "stale_at now h ps =
     (let others = filter (\<lambda>p. p_handle p \<noteq> h) ps
      in others \<noteq> [] \<and> list_all (\<lambda>p. now - last_poll_at p > GHOST_AFTER) others)"

definition counterpart_is_stale ::
  "(time \<Rightarrow> string) \<Rightarrow> string \<Rightarrow> string \<Rightarrow> (World, StorageError + bool) prog" where
  "counterpart_is_stale fmt rid h = now_utc (\<lambda>now. look (list_participants fmt rid) (\<lambda>ps.
     ok (stale_at now h ps)))"

text \<open>The hint of an active \<open>waiting_user\<close> sentinel; the clock is read only if there is one.\<close>

definition active_sentinel_backoff ::
  "string \<Rightarrow> string \<Rightarrow> (World, StorageError + int option) prog" where
  "active_sentinel_backoff rid h =
     look (latest_message_from_other rid h) (\<lambda>m. case m of
       None \<Rightarrow> ok None
     | Some m \<Rightarrow>
         if msg_type m = WaitingUser then
           (case severity m of
              None \<Rightarrow> ok None
            | Some sev \<Rightarrow> now_utc (\<lambda>now. ok (Some (backoff_secs sev (whole_seconds (now - created_at m))))))
         else ok None)"

definition counterpart_busy_backoff ::
  "(time \<Rightarrow> string) \<Rightarrow> string \<Rightarrow> string \<Rightarrow> (World, StorageError + int option) prog" where
  "counterpart_busy_backoff fmt rid h =
     look (room_latest_message rid) (\<lambda>m. case m of
       None \<Rightarrow> ok None
     | Some latest \<Rightarrow>
         if sender latest \<noteq> h then ok None
         else look (list_participants fmt rid) (\<lambda>ps.
           if \<not> list_ex (\<lambda>p. p_handle p \<noteq> h \<and> m_seq latest \<le> last_read_seq p) ps then ok None
           else now_utc (\<lambda>now.
             ok (Some (backoff_secs Med (whole_seconds (now - created_at latest)))))))"

section \<open>The end of a park\<close>

text \<open>The short-circuit \<open>||\<close> of two awaited predicates.\<close>

definition or_else ::
  "(World, StorageError + bool) prog \<Rightarrow> (World, StorageError + bool) prog \<Rightarrow> (World, StorageError + bool) prog" where
  "or_else p q = call id p (\<lambda>b. if b then ok True else q)"

definition wait_relevant_change ::
  "(time \<Rightarrow> string) \<Rightarrow> string \<Rightarrow> string \<Rightarrow> (World, StorageError + bool) prog" where
  "wait_relevant_change fmt rid h =
     fetch id (get_room rid) (\<lambda>room.
       let halted = (case room of None \<Rightarrow> False | Some r \<Rightarrow> is_halted (r_state r))
       in if halted then ok True
          else or_else (close_proposed fmt rid h) (extend_proposed fmt rid h))"

definition timeout_response ::
  "(time \<Rightarrow> string) \<Rightarrow> string \<Rightarrow> string \<Rightarrow> u32 option \<Rightarrow> bool \<Rightarrow> (World, ApiError + WaitResponse) prog" where
  "timeout_response fmt rid h retry_after away_active =
     fetch from_storage (get_room rid) (\<lambda>room. ok_or NotFound room (\<lambda>room.
     if is_halted (r_state room) then ok (WaitTimeout (RoomState_as_str (r_state room)) None)
     else call from_storage (close_proposed fmt rid h) (\<lambda>closing.
     if closing then ok (WaitTimeout (as_wire WsCloseProposed) None)
     else call from_storage (extend_proposed fmt rid h) (\<lambda>extending.
     if extending then ok (WaitTimeout (as_wire WsExtendProposed) None)
     else call from_storage (if away_active then ok False else counterpart_is_stale fmt rid h) (\<lambda>stale.
     if stale then ok (WaitTimeout (as_wire WsCounterpartStale) None)
     else ok (WaitTimeout (as_wire WsPausedByTimeout) retry_after))))))"

section \<open>Waiting\<close>

text \<open>The drain of a halted room: a zero-cap claim, then the state.\<close>

definition drain_halted ::
  "(time \<Rightarrow> string) \<Rightarrow> nat \<Rightarrow> string \<Rightarrow> Room \<Rightarrow> string \<Rightarrow> (World, ApiError + WaitResponse) prog" where
  "drain_halted fmt n rid room h =
     call from_storage (wait_for_message n rid h 0) (\<lambda>outcome. ok (case outcome of
       Delivered m \<Rightarrow> WaitMessage (message_view fmt m) False None (Some (RoomState_as_str (r_state room)))
     | PausedByTimeout \<Rightarrow> WaitTimeout (RoomState_as_str (r_state room)) None))"

definition full_cap :: "AppState \<Rightarrow> WaitRequest \<Rightarrow> time" where
  "full_cap st req = (case wr_max_wait_secs req of
       None \<Rightarrow> wait_cap st | Some secs \<Rightarrow> min (wait_cap st) (seconds (uint secs)))"

definition park_cap ::
  "(time \<Rightarrow> string) \<Rightarrow> AppState \<Rightarrow> WaitRequest \<Rightarrow> string \<Rightarrow> string \<Rightarrow> (World, StorageError + time) prog" where
  "park_cap fmt st req rid h =
     call id (active_sentinel_backoff rid h) (\<lambda>backoff. case backoff of
       Some secs \<Rightarrow> ok (min (full_cap st req) (seconds secs))
     | None \<Rightarrow>
         call id (or_else (counterpart_is_stale fmt rid h)
             (or_else (close_proposed fmt rid h) (extend_proposed fmt rid h))) (\<lambda>zero.
           ok (if zero then 0 else full_cap st req)))"

text \<open>What is said of a delivered message: the soft cap is evaluated at its sequence number.\<close>

definition deliver_response ::
  "(time \<Rightarrow> string) \<Rightarrow> string \<Rightarrow> Room \<Rightarrow> Message \<Rightarrow> u32 option \<Rightarrow> (World, ApiError + WaitResponse) prog" where
  "deliver_response fmt rid room m retry_after =
     look (consecutive_msg_count rid (m_seq m)) (\<lambda>consecutive.
       ok (WaitMessage (message_view fmt m) (consecutive = uint (soft_cap (config room)) - 1) retry_after None))"

definition hint :: "int option \<Rightarrow> u32 option" where
  "hint = map_option word_of_int"

definition wait_after_gates ::
  "(time \<Rightarrow> string) \<Rightarrow> AppState \<Rightarrow> nat \<Rightarrow> string \<Rightarrow> WaitRequest \<Rightarrow> Room \<Rightarrow> string \<Rightarrow>
   (World, ApiError + WaitResponse) prog" where
  "wait_after_gates fmt st n rid req room h =
     call from_storage (park_cap fmt st req rid h) (\<lambda>cap.
     call from_storage (wait_for_message_until n rid h cap (wait_relevant_change fmt rid h)) (\<lambda>outcome.
     call from_storage (active_sentinel_backoff rid h) (\<lambda>away.
     call from_storage (case away of Some secs \<Rightarrow> ok (Some secs) | None \<Rightarrow> counterpart_busy_backoff fmt rid h) (\<lambda>retry_after.
     case outcome of
       Delivered m \<Rightarrow> deliver_response fmt rid room m (hint retry_after)
     | PausedByTimeout \<Rightarrow> timeout_response fmt rid h (hint retry_after) (away \<noteq> None)))))"

definition wait_room ::
  "(time \<Rightarrow> string) \<Rightarrow> AppState \<Rightarrow> nat \<Rightarrow> string \<Rightarrow> WaitRequest \<Rightarrow> (World, ApiError + WaitResponse) prog" where
  "wait_room fmt st n rid req =
     fetch from_storage (get_room rid) (\<lambda>room. ok_or NotFound room (\<lambda>room.
     call from_storage (resolve_participant rid (caller_instance req)) (\<lambda>c. ok_or not_a_participant c (\<lambda>c.
     now_utc (\<lambda>now.
     sql from_storage (touch_last_poll (p_handle c) now) (\<lambda>_.
     with_park st (p_handle c) (
       if is_halted (r_state room) then drain_halted fmt n rid room (p_handle c)
       else look (has_counterpart fmt rid (p_handle c)) (\<lambda>joined.
         if \<not> joined then ok (WaitTimeout (as_wire WsAwaitingCounterpart) None)
         else wait_after_gates fmt st n rid req room (p_handle c)))))))))"

section \<open>The handler keeps the contract\<close>

lemma predicates_keep:
  "keeps (close_proposed fmt rid h) w" "keeps (extend_proposed fmt rid h) w"
  "keeps (counterpart_is_stale fmt rid h) w"
  unfolding close_proposed_def extend_proposed_def counterpart_is_stale_def
  by (intro keeps_now_utc keeps_look keeps_ok)+

lemma or_else_keeps: "(\<And>v. keeps p v) \<Longrightarrow> (\<And>v. keeps q v) \<Longrightarrow> keeps (or_else p q) w"
  unfolding or_else_def by (rule keeps_call) auto

lemma relevant_change_keeps: "keeps (wait_relevant_change fmt rid h) w"
  unfolding wait_relevant_change_def Let_def
  by (rule keeps_fetch) (auto intro: or_else_keeps predicates_keep)

lemma hints_keep:
  "keeps (active_sentinel_backoff rid h) w" "keeps (counterpart_busy_backoff fmt rid h) w"
  unfolding active_sentinel_backoff_def counterpart_busy_backoff_def
  by (rule keeps_look, auto split: option.split intro!: keeps_now_utc keeps_look)+

lemma park_cap_keeps: "keeps (park_cap fmt st req rid h) w"
  unfolding park_cap_def
  by (intro keeps_call hints_keep)
    (auto split: option.split intro!: keeps_call or_else_keeps predicates_keep)

lemma timeout_response_keeps: "keeps (timeout_response fmt rid h r a) w"
  unfolding timeout_response_def
  by (intro keeps_fetch keeps_ok_or) (auto intro!: keeps_call predicates_keep)

lemma wait_after_gates_keeps: "keeps (wait_after_gates fmt st n rid req room h) w"
  unfolding wait_after_gates_def
  by (intro keeps_call park_cap_keeps wait_until_keeps relevant_change_keeps hints_keep)
    (auto simp: deliver_response_def split: option.split WaitOutcome.split
      intro!: hints_keep keeps_look timeout_response_keeps)

lemma drain_halted_keeps: "keeps (drain_halted fmt n rid room h) w"
  unfolding drain_halted_def by (intro keeps_call wait_keeps keeps_ok)

lemma wait_room_keeps: "keeps (wait_room fmt st n rid req) w"
  unfolding wait_room_def
  by (intro keeps_fetch keeps_ok_or keeps_call keeps_resolve keeps_now_utc keeps_sql keeps_with_park)
    (auto intro!: wf_keeps drain_halted_keeps keeps_look wait_after_gates_keeps)

end
