(* ===== verification/HttpRooms.thy ===== *)
theory HttpRooms
  imports Api
begin

text \<open>
  The handlers of \<open>http.rs\<close> that open, show, list, join and prune rooms. The calendar fields of the
  opening time (\<open>civil\<close>), the RFC 3339 formatter (\<open>fmt\<close>) and the random session hexes of each join
  attempt (\<open>sess\<close>) are arguments.
\<close>

definition MAX_ATTEMPTS :: nat where
  "MAX_ATTEMPTS = 64"

section \<open>Opening\<close>

definition candidate_id :: "string \<Rightarrow> nat \<Rightarrow> string" where
  "candidate_id base attempt = (if attempt = 1 then base else base @ ''-'' @ show_nat attempt)"

definition new_room :: "OpenRoomRequest \<Rightarrow> RoomConfig \<Rightarrow> time \<Rightarrow> string \<Rightarrow> Room" where
  "new_room req cfg now rid =
     \<lparr>r_id = rid, subject = or_subject req, started_at = now, last_activity_at = now,
      r_state = Active, state_changed_at = now, config = cfg, prev_room_id = or_prev_room_id req\<rparr>"

function open_loop ::
  "OpenRoomRequest \<Rightarrow> RoomConfig \<Rightarrow> time \<Rightarrow> string \<Rightarrow> nat \<Rightarrow> (World, ApiError + OpenRoomResponse) prog" where
  "open_loop req cfg now base attempt =
     sql_match (create_room (new_room req cfg now (candidate_id base attempt))) (\<lambda>r. case r of
       Inr _ \<Rightarrow> ok \<lparr>os_room_id = candidate_id base attempt,
                   os_share_line = share_line (candidate_id base attempt)\<rparr>
     | Inl e \<Rightarrow>
         if is_unique_violation e \<and> attempt < MAX_ATTEMPTS then open_loop req cfg now base (attempt + 1)
         else fail (from_storage e))"
  by pat_completeness auto
termination
  by (relation "measure (\<lambda>(_, _, _, _, attempt). MAX_ATTEMPTS - attempt)") auto

declare open_loop.simps [simp del]

definition requested_config :: "OpenRoomRequest \<Rightarrow> RoomConfig" where
  "requested_config req =
     \<lparr>hard_cap = (case or_hard_cap req of None \<Rightarrow> hard_cap RoomConfig_default | Some n \<Rightarrow> n),
      soft_cap = (case or_soft_cap req of None \<Rightarrow> soft_cap RoomConfig_default | Some n \<Rightarrow> n),
      close_quorum = close_quorum RoomConfig_default\<rparr>"

definition open_room ::
  "(time \<Rightarrow> civil) \<Rightarrow> OpenRoomRequest \<Rightarrow> (World, ApiError + OpenRoomResponse) prog" where
  "open_room civil_of req = now_utc (\<lambda>now.
     let base = room_id (or_subject req) (civil_of now);
         cfg = requested_config req
     in if hard_cap cfg < 1 \<or> soft_cap cfg < 2 then
          fail (BadRequest (''invalid caps: hard_cap must be >= 1 and soft_cap >= 2 (got hard_cap='' @
            show_u32 (hard_cap cfg) @ '', soft_cap='' @ show_u32 (soft_cap cfg) @ '')''))
        else open_loop req cfg now base 1)"

section \<open>Showing\<close>

definition get_room_status ::
  "(time \<Rightarrow> string) \<Rightarrow> AppState \<Rightarrow> string \<Rightarrow> (World, ApiError + RoomStatus) prog" where
  "get_room_status fmt st rid = now_utc (\<lambda>now.
     fetch from_storage (get_room rid) (\<lambda>room. ok_or NotFound room (\<lambda>room.
     look (list_participants fmt rid) (\<lambda>ps.
     room_to_status fmt st room ps now ok))))"

definition list_rooms_handler ::
  "(time \<Rightarrow> string) \<Rightarrow> RoomState option \<Rightarrow> bool \<Rightarrow> (World, ApiError + RoomSummary list) prog" where
  "list_rooms_handler fmt state all =
     fetch from_storage (list_rooms fmt state all) (\<lambda>rows. ok (map (room_summary fmt) rows))"

definition transcript ::
  "(time \<Rightarrow> string) \<Rightarrow> AppState \<Rightarrow> string \<Rightarrow> (World, ApiError + RoomTranscript) prog" where
  "transcript fmt st rid = now_utc (\<lambda>now.
     fetch from_storage (get_room rid) (\<lambda>room. ok_or NotFound room (\<lambda>room.
     look (list_participants fmt rid) (\<lambda>ps.
     look (all_messages rid) (\<lambda>msgs.
     look (count_capped_messages rid) (\<lambda>hard_cap_count.
     look (current_seq rid) (\<lambda>high_water.
     look (consecutive_msg_count rid high_water) (\<lambda>soft_cap_consecutive.
     room_to_transcript fmt st room ps msgs hard_cap_count soft_cap_consecutive now ok))))))))"

section \<open>Joining\<close>

definition RECENT_MESSAGE_LIMIT :: nat where
  "RECENT_MESSAGE_LIMIT = 50"

definition recent_message_views_up_to ::
  "(time \<Rightarrow> string) \<Rightarrow> string \<Rightarrow> int \<Rightarrow> (MessageView list \<Rightarrow> (World, 'r) prog) \<Rightarrow> (World, 'r) prog" where
  "recent_message_views_up_to fmt rid max_seq k =
     look (recent_messages_up_to rid max_seq RECENT_MESSAGE_LIMIT) (\<lambda>msgs. k (map (message_view fmt) msgs))"

definition join_response :: "string \<Rightarrow> bool \<Rightarrow> Room \<Rightarrow> MessageView list \<Rightarrow> JoinRoomResponse" where
  "join_response h resumed room recent =
     \<lparr>js_handle = h, js_resumed = resumed, js_room_state = RoomState_as_str (r_state room),
      js_recent_messages = recent\<rparr>"

text \<open>The update of a re-join that supplies a nickname.\<close>

definition maybe_nickname ::
  "string \<Rightarrow> string option \<Rightarrow> (World, ApiError + 'b) prog \<Rightarrow> (World, ApiError + 'b) prog" where
  "maybe_nickname h nick k =
     (if nick \<noteq> None then sql from_storage (set_nickname h nick) (\<lambda>_. k) else k)"

definition new_participant ::
  "JoinIdentity \<Rightarrow> string \<Rightarrow> string \<Rightarrow> int \<Rightarrow> string option \<Rightarrow> time \<Rightarrow> Participant" where
  "new_participant ident rid h start_seq nick now =
     \<lparr>p_handle = h, p_room_id = rid, repo = i_repo ident, model = i_model ident, cwd = i_cwd ident,
      p_instance = i_instance ident, joined_at = now, last_poll_at = now, last_read_seq = start_seq,
      nickname = nick, wants_close_at = None, wants_extend_at = None\<rparr>"

text \<open>The three ways a round of the join loop returns a response.\<close>

definition join_reused ::
  "(time \<Rightarrow> string) \<Rightarrow> string \<Rightarrow> Room \<Rightarrow> JoinIdentity \<Rightarrow> string option \<Rightarrow> int \<Rightarrow> string \<Rightarrow>
   (World, ApiError + JoinRoomResponse) prog" where
  "join_reused fmt rid room ident nick start_seq h =
     maybe_nickname h nick (
     look (get_participant_by_instance rid (i_instance ident)) (\<lambda>p.
     let cursor = (case p of None \<Rightarrow> start_seq | Some p \<Rightarrow> last_read_seq p)
     in recent_message_views_up_to fmt rid cursor (\<lambda>recent. ok (join_response h True room recent))))"

definition join_fresh ::
  "(time \<Rightarrow> string) \<Rightarrow> string \<Rightarrow> Room \<Rightarrow> int \<Rightarrow> string \<Rightarrow> (World, ApiError + JoinRoomResponse) prog" where
  "join_fresh fmt rid room start_seq h =
     recent_message_views_up_to fmt rid start_seq (\<lambda>recent. ok (join_response h False room recent))"

definition join_resumed ::
  "(time \<Rightarrow> string) \<Rightarrow> string \<Rightarrow> Room \<Rightarrow> Participant \<Rightarrow> (World, ApiError + JoinRoomResponse) prog" where
  "join_resumed fmt rid room p =
     recent_message_views_up_to fmt rid (last_read_seq p)
       (\<lambda>recent. ok (join_response (p_handle p) True room recent))"

function join_loop ::
  "(time \<Rightarrow> string) \<Rightarrow> string \<Rightarrow> Room \<Rightarrow> JoinIdentity \<Rightarrow> string option \<Rightarrow> int \<Rightarrow> (nat \<Rightarrow> string list) \<Rightarrow>
   nat \<Rightarrow> (World, ApiError + JoinRoomResponse) prog" where
  "join_loop fmt rid room ident nick start_seq sess attempt =
     look (list_participants fmt rid) (\<lambda>existing.
     case derive_handle ident existing (sess attempt) of
       Reused h \<Rightarrow> join_reused fmt rid room ident nick start_seq h
     | Created h \<Rightarrow> now_utc (\<lambda>now.
         sql_match (create_participant (new_participant ident rid h start_seq nick now)) (\<lambda>r. case r of
           Inr _ \<Rightarrow> join_fresh fmt rid room start_seq h
         | Inl e \<Rightarrow>
             if is_unique_violation e \<and> attempt < MAX_ATTEMPTS then
               look (get_participant_by_instance rid (i_instance ident)) (\<lambda>p. case p of
                 Some p \<Rightarrow> join_resumed fmt rid room p
               | None \<Rightarrow> join_loop fmt rid room ident nick start_seq sess (attempt + 1))
             else fail (from_storage e))))"
  by pat_completeness auto
termination
  by (relation "measure (\<lambda>(_, _, _, _, _, _, _, attempt). MAX_ATTEMPTS - attempt)") auto

declare join_loop.simps [simp del]

definition join_identity :: "'a Caller_scheme \<Rightarrow> JoinIdentity" where
  "join_identity req =
     \<lparr>i_repo = q_repo req, i_model = q_model req, i_cwd = q_cwd req, i_instance = caller_instance req\<rparr>"

definition join_room ::
  "(time \<Rightarrow> string) \<Rightarrow> (nat \<Rightarrow> string list) \<Rightarrow> string \<Rightarrow> JoinRoomRequest \<Rightarrow>
   (World, ApiError + JoinRoomResponse) prog" where
  "join_room fmt sess rid req =
     fetch from_storage (get_room rid) (\<lambda>room. ok_or NotFound room (\<lambda>room.
     look (current_seq rid) (\<lambda>start_seq.
     let nick = normalize_nickname (jr_nickname req);
         ident = join_identity req
     in call from_storage (resolve_participant rid (i_instance ident)) (\<lambda>found. case found of
          Some p \<Rightarrow> maybe_nickname (p_handle p) nick (join_resumed fmt rid room p)
        | None \<Rightarrow> join_loop fmt rid room ident nick start_seq sess 1))))"

section \<open>Pruning\<close>

definition prune_room :: "(time \<Rightarrow> string) \<Rightarrow> string \<Rightarrow> (World, ApiError + PruneResponse) prog" where
  "prune_room fmt rid =
     fetch from_storage (get_room rid) (\<lambda>room. ok_or NotFound room (\<lambda>_.
     now_utc (\<lambda>now.
     sql from_storage (prune_stale_participants fmt rid (now - GHOST_AFTER)) (\<lambda>pruned.
     look (list_participants fmt rid) (\<lambda>ps.
     ok \<lparr>pr_pruned = of_nat pruned, pr_remaining = of_nat (length ps)\<rparr>)))))"

section \<open>The handlers keep the contract\<close>

lemma open_loop_keeps: "keeps (open_loop req cfg now base attempt) w"
proof (induction "MAX_ATTEMPTS - attempt" arbitrary: attempt w rule: less_induct)
  case less
  show ?case
    unfolding open_loop.simps [of req cfg now base attempt]
  proof (rule keeps_sql_match)
    show "sound (w_db v) (snd (create_room (new_room req cfg now (candidate_id base attempt)) (w_db v)))" for v
      by (rule sound_create_room) (simp add: new_room_def)
  qed (auto intro: less split: sum.split)
qed

lemma open_room_keeps: "keeps (open_room civil_of req) w"
  unfolding open_room_def Let_def by (intro keeps_now_utc) (auto intro: open_loop_keeps)

lemma get_room_keeps: "keeps (get_room_status fmt st rid) w"
  unfolding get_room_status_def
  by (intro keeps_now_utc keeps_fetch keeps_ok_or keeps_look keeps_room_to_status keeps_ok)

lemma list_rooms_keeps: "keeps (list_rooms_handler fmt state all) w"
  unfolding list_rooms_handler_def by (intro keeps_fetch keeps_ok)

lemma transcript_keeps: "keeps (transcript fmt st rid) w"
  unfolding transcript_def
  by (intro keeps_now_utc keeps_fetch keeps_ok_or keeps_look keeps_room_to_transcript keeps_ok)

lemma recent_keeps: "(\<And>v r. db_evolves w v \<Longrightarrow> db_ok v \<Longrightarrow> keeps (k r) v) \<Longrightarrow>
    keeps (recent_message_views_up_to fmt rid n k) w"
  unfolding recent_message_views_up_to_def by (rule keeps_look)

lemma maybe_nickname_keeps: "(\<And>v. keeps k v) \<Longrightarrow> keeps (maybe_nickname h nick k) w"
  by (auto simp: maybe_nickname_def intro!: keeps_sql intro: wf_keeps)

lemma join_answers_keep:
  "keeps (join_reused fmt rid room ident nick start_seq h) w"
  "keeps (join_fresh fmt rid room start_seq h) w"
  "keeps (join_resumed fmt rid room p) w"
  unfolding join_reused_def join_fresh_def join_resumed_def Let_def
  by (intro maybe_nickname_keeps keeps_look recent_keeps keeps_ok)+

lemma db_later_top:
  "n \<le> top_seq (w_db w) \<Longrightarrow> db_evolves w v \<Longrightarrow> db_ok v \<Longrightarrow> n \<le> top_seq (w_db v)"
  using evolves_top_seq [of "w_db v" "w_db w"] by (simp add: db_evolves_def db_ok_def)

lemma join_loop_keeps:
  assumes "0 \<le> start_seq" and "start_seq \<le> top_seq (w_db w)"
  shows "keeps (join_loop fmt rid room ident nick start_seq sess attempt) w"
  using assms
proof (induction "MAX_ATTEMPTS - attempt" arbitrary: attempt w rule: less_induct)
  case less
  have again: "keeps (join_loop fmt rid room ident nick start_seq sess (Suc attempt)) y"
    if "attempt < MAX_ATTEMPTS" "db_evolves w y" "db_ok y" for y
    by (rule less.hyps) (use that less.prems db_later_top in auto)
  have sound: "sound (w_db x) (snd (create_participant (new_participant ident rid h start_seq nick now) (w_db x)))"
    if "db_evolves w x" "db_ok x" for x h now
    using that by (intro sound_create_participant)
      (simp_all add: new_participant_def less.prems db_later_top [OF less.prems(2)])
  show ?case
    unfolding join_loop.simps [of fmt rid room ident nick start_seq sess attempt]
    by (rule keeps_look)
      (auto split: HandleOutcome.split sum.split option.split
        intro!: join_answers_keep keeps_now_utc keeps_sql_match sound keeps_look again
        intro: server.R_trans, (blast intro: server.R_trans)+)
qed

lemma join_room_keeps: "keeps (join_room fmt sess rid req) w"
  unfolding join_room_def Let_def
proof (intro keeps_fetch keeps_ok_or keeps_look keeps_call keeps_resolve)
  fix v u x :: World and room :: Room and found
  assume u: "db_ok u" and x: "db_evolves u x" "db_ok x"
  have "keeps (join_loop fmt rid room ident nick (current_seq rid (w_db u)) sess n) x" for ident nick n
    using current_seq_bounds [of "w_db u" rid] u x db_later_top [of "current_seq rid (w_db u)" u x]
    by (intro join_loop_keeps) (auto simp: db_ok_def)
  then show "keeps (case found of
          Some p \<Rightarrow> maybe_nickname (p_handle p) (normalize_nickname (jr_nickname req)) (join_resumed fmt rid room p)
        | None \<Rightarrow> join_loop fmt rid room (join_identity req) (normalize_nickname (jr_nickname req))
            (current_seq rid (w_db u)) sess 1) x"
    by (auto split: option.split intro!: maybe_nickname_keeps join_answers_keep)
qed

lemma prune_room_keeps: "keeps (prune_room fmt rid) w"
  unfolding prune_room_def
  by (intro keeps_fetch keeps_ok_or keeps_now_utc keeps_sql keeps_look keeps_ok wf_keeps)

end
