(* ===== verification/Sweeper.thy ===== *)
theory Sweeper
  imports Api
begin

text \<open>
  \<open>crates/chatbotchat-core/src/sweeper.rs\<close>: one pass over the rooms that are not archived, and the
  hourly loop around it, followed for a given number of ticks.
\<close>

record SweepOutcome =
  so_room_id :: string
  so_from :: RoomState
  so_to :: RoomState

fun sweep_rooms ::
  "(time \<Rightarrow> string) \<Rightarrow> time \<Rightarrow> Room list \<Rightarrow> SweepOutcome list \<Rightarrow> (World, StorageError + SweepOutcome list) prog" where
  "sweep_rooms fmt now [] outcomes = ok outcomes"
| "sweep_rooms fmt now (room # rest) outcomes =
     look (list_participants fmt (r_id room)) (\<lambda>ps.
     case compute_time_event (r_state room) (last_activity_at room) (state_changed_at room)
         (map last_poll_at ps) now of
       None \<Rightarrow> sweep_rooms fmt now rest outcomes
     | Some ev \<Rightarrow> (case transition (r_state room) ev of
         Inl _ \<Rightarrow> sweep_rooms fmt now rest outcomes
       | Inr to \<Rightarrow> sql id (update_room_state (r_id room) (r_state room) to now None) (\<lambda>changed.
           if changed then
             sweep_rooms fmt now rest
               (outcomes @ [\<lparr>so_room_id = r_id room, so_from = r_state room, so_to = to\<rparr>])
           else sweep_rooms fmt now rest outcomes)))"

definition sweep_once ::
  "(time \<Rightarrow> string) \<Rightarrow> time \<Rightarrow> (World, StorageError + SweepOutcome list) prog" where
  "sweep_once fmt now = fetch id list_rooms_for_sweep (\<lambda>rooms. sweep_rooms fmt now rooms [])"

text \<open>\<open>ticks\<close> rounds of the loop; a failed pass is logged and the loop goes on.\<close>

definition SWEEP_PERIOD :: time where
  "SWEEP_PERIOD = seconds 3600"

fun sweep_ticks :: "(time \<Rightarrow> string) \<Rightarrow> nat \<Rightarrow> time \<Rightarrow> (World, unit) prog" where
  "sweep_ticks fmt 0 next_tick = Hang"
| "sweep_ticks fmt (Suc n) next_tick =
     Await (\<lambda>w. next_tick \<le> w_mono w) (\<lambda>w. ((), w)) (\<lambda>_.
     now_utc (\<lambda>now. bind (sweep_once fmt now) (\<lambda>_. sweep_ticks fmt n (next_tick + SWEEP_PERIOD))))"

definition run_sweeper :: "(time \<Rightarrow> string) \<Rightarrow> nat \<Rightarrow> (World, unit) prog" where
  "run_sweeper fmt ticks = mono_now (\<lambda>t. sweep_ticks fmt ticks (t + SWEEP_PERIOD))"

section \<open>The sweeper keeps the contract\<close>

lemma sweep_rooms_keeps: "keeps (sweep_rooms fmt now rms outcomes) w"
proof (induction rms arbitrary: outcomes w)
  case (Cons room rest)
  show ?case
    unfolding sweep_rooms.simps
    by (rule keeps_look)
      (auto split: option.split sum.split intro!: keeps_sql Cons.IH
        intro: sound_update_room_state transition_legal)
qed simp

lemma sweep_once_keeps: "keeps (sweep_once fmt now) w"
  unfolding sweep_once_def by (intro keeps_fetch sweep_rooms_keeps)

lemma sweep_ticks_keeps: "keeps (sweep_ticks fmt n t) w"
proof (induction n arbitrary: t w)
  case (Suc n)
  show ?case
    unfolding sweep_ticks.simps
    by (rule server.upholds_Await)
      (auto simp: server.R_refl intro!: keeps_now_utc server.upholds_bind sweep_once_keeps Suc.IH)
qed simp

lemma run_sweeper_keeps: "keeps (run_sweeper fmt n) w"
  unfolding run_sweeper_def by (intro keeps_mono_now sweep_ticks_keeps)

end
