(* ===== verification/ExtendSpec.thy ===== *)
theory ExtendSpec
  imports ConsensusSpec HttpWait HttpRooms Sweeper
begin

text \<open>
  What the extend vote does, run alone, what a completed extend leaves of the votes, and what
  happens to a room whose cap is extended past \<open>u32\<close>.
\<close>

section \<open>The extend vote\<close>

definition extend_checks :: "string \<Rightarrow> 'a Caller_scheme \<Rightarrow> Db \<Rightarrow> ApiError + Room \<times> Participant" where
  "extend_checks rid req d =
     (case get_room rid d of
        Inl e \<Rightarrow> Inl (Internal e)
      | Inr None \<Rightarrow> Inl NotFound
      | Inr (Some room) \<Rightarrow>
          if is_halted (r_state room) then Inl (cannot ''extend'' room)
          else (case resolved rid (caller_instance req) d of
              None \<Rightarrow> Inl not_a_participant | Some v \<Rightarrow> Inr (room, v)))"

definition extend_voted :: "string \<Rightarrow> time \<Rightarrow> Participant \<Rightarrow> Participant" where
  "extend_voted h now p = (if p_handle p = h then p\<lparr>wants_extend_at := Some now, last_poll_at := now\<rparr> else p)"

definition extend_voted_db :: "string \<Rightarrow> time \<Rightarrow> Db \<Rightarrow> Db" where
  "extend_voted_db h now d = d\<lparr>participants := map (extend_voted h now) (participants d)\<rparr>"

definition extend_vote_cleared :: "string \<Rightarrow> Participant \<Rightarrow> Participant" where
  "extend_vote_cleared rid p = (if p_room_id p = rid then p\<lparr>wants_extend_at := None\<rparr> else p)"

lemma extend_vote_cleared_simps [simp]:
  "p_room_id (extend_vote_cleared rid p) = p_room_id p"
  "wants_extend_at (extend_vote_cleared rid p) = (if p_room_id p = rid then None else wants_extend_at p)"
  by (simp_all add: extend_vote_cleared_def)

definition bumped :: "string \<Rightarrow> u32 \<Rightarrow> RoomRow \<Rightarrow> RoomRow" where
  "bumped rid step r =
     (if r_id r = rid then r\<lparr>config := (config r)\<lparr>j_hard_cap := j_hard_cap (config r) + uint step\<rparr>\<rparr> else r)"

definition extended_db :: "string \<Rightarrow> u32 \<Rightarrow> Db \<Rightarrow> Db" where
  "extended_db rid step d = d\<lparr>
     rooms := map (bumped rid step) (rooms d),
     participants := map (extend_vote_cleared rid) (participants d)\<rparr>"

text \<open>Liveness as SQL compares it: the text of the last poll against the text of the cutoff.\<close>

definition live_by_text :: "(time \<Rightarrow> string) \<Rightarrow> string \<Rightarrow> time \<Rightarrow> Participant \<Rightarrow> bool" where
  "live_by_text fmt rid now p \<longleftrightarrow> p_room_id p = rid \<and> fmt (now - GHOST_AFTER) \<le> fmt (last_poll_at p)"

definition extend_live :: "(time \<Rightarrow> string) \<Rightarrow> string \<Rightarrow> time \<Rightarrow> Db \<Rightarrow> nat" where
  "extend_live fmt rid now d = count_where (live_by_text fmt rid now) (participants d)"

definition extend_votes :: "(time \<Rightarrow> string) \<Rightarrow> string \<Rightarrow> time \<Rightarrow> Db \<Rightarrow> nat" where
  "extend_votes fmt rid now d =
     count_where (\<lambda>p. live_by_text fmt rid now p \<and> wants_extend_at p \<noteq> None) (participants d)"

definition extend_note :: "string \<Rightarrow> string \<Rightarrow> u32 \<Rightarrow> time \<Rightarrow> Db \<Rightarrow> Message" where
  "extend_note rid h cap now d =
     \<lparr>m_seq = next_seq d, m_room_id = rid, sender = h, recipient = None, m_body = extended_body cap,
      created_at = now, msg_type = ExtendMsg, from_human = False, severity = None, question_text = None\<rparr>"

definition noted :: "Message \<Rightarrow> Db \<Rightarrow> Db" where
  "noted m d = d\<lparr>messages := messages d @ [m]\<rparr>"

lemma try_extend_result:
  assumes "get_room rid d = Inr (Some room)"
  shows "try_extend fmt rid h step now (now - GHOST_AFTER) q d =
    (let d1 = extend_voted_db h now d;
         votes = extend_votes fmt rid now d1;
         needed = CloseQuorum_needed q (extend_live fmt rid now d1)
     in if needed \<le> votes then (Inr (Extended (hard_cap (config room) + step)), extended_db rid step d1)
        else (Inr (Proposed (of_nat votes) (of_nat needed)), d1))"
proof -
  obtain row where row: "find (\<lambda>r. r_id r = rid) (rooms d) = Some row" "row_to_room row = Inr room"
    using assms by (auto simp: get_room_def split: option.splits sum.splits)
  have "0 \<le> uint (hard_cap (config room)) + uint step" by simp
  then have cap: "word_of_int (max (j_hard_cap (config row) + uint step) 0) = hard_cap (config room) + step"
    unfolding row_to_room_fields(3) [OF row(2), symmetric] by (simp only: max_absorb1 word_add_def)
  have votes: "update_where (\<lambda>p. p_handle p = h) (\<lambda>p. p\<lparr>wants_extend_at := Some now, last_poll_at := now\<rparr>)
      (participants d) = map (extend_voted h now) (participants d)"
    by (simp add: update_where_def extend_voted_def [abs_def])
  have bump: "update_where (\<lambda>r. r_id r = rid)
      (\<lambda>r. r\<lparr>config := (config r)\<lparr>j_hard_cap := j_hard_cap (config r) + uint step\<rparr>\<rparr>) (rooms d) =
      map (bumped rid step) (rooms d)"
    by (simp add: update_where_def bumped_def [abs_def])
  have clear: "update_where (\<lambda>p. p_room_id p = rid) (\<lambda>p. p\<lparr>wants_extend_at := None\<rparr>) ps =
      map (extend_vote_cleared rid) ps" for ps
    by (simp add: update_where_def extend_vote_cleared_def [abs_def])
  show ?thesis
    unfolding try_extend_def votes bump clear
    using row(1) cap
    by (simp add: Let_def extend_voted_db_def extended_db_def extend_votes_def extend_live_def
        live_by_text_def [abs_def])
qed

lemma bumped_id [simp]: "r_id (bumped rid step r) = r_id r" "r_state (bumped rid step r) = r_state r"
  by (simp_all add: bumped_def)

lemma extended_room_ids [simp]: "room_ids (extended_db rid step d) = room_ids d"
  by (simp add: room_ids_def extended_db_def image_image)

lemma voted_room_ids [simp]: "room_ids (extend_voted_db h now d) = room_ids d"
  by (simp add: room_ids_def extend_voted_db_def)

lemma note_result:
  "rid \<in> room_ids d \<Longrightarrow>
   create_message_typed rid h None (extended_body cap) now ExtendMsg None None d =
     (Inr (extend_note rid h cap now d), noted (extend_note rid h cap now d) d)"
  by (simp add: create_message_typed_def insert_message_def room_exists_iff extend_note_def noted_def Let_def)

definition extend_response :: "Room \<Rightarrow> u32 \<Rightarrow> ExtendResponse" where
  "extend_response room cap = \<lparr>es_state = RoomState_as_str (r_state room), es_status = ''extended'',
     es_votes = None, es_needed = None, es_hard_cap = Some cap\<rparr>"

definition extend_pending :: "Room \<Rightarrow> nat \<Rightarrow> nat \<Rightarrow> ExtendResponse" where
  "extend_pending room votes needed = \<lparr>es_state = RoomState_as_str (r_state room), es_status = ''extend_proposed'',
     es_votes = Some (of_nat votes), es_needed = Some (of_nat needed), es_hard_cap = None\<rparr>"

lemma run_extend_room:
  "run (extend_room fmt rid req) w =
    Some (case extend_checks rid req (w_db w) of
      Inl e \<Rightarrow> (Inl e, w)
    | Inr (room, v) \<Rightarrow>
        (let now = w_now w; h = p_handle v; d = extend_voted_db h now (w_db w);
             votes = extend_votes fmt rid now d;
             needed = CloseQuorum_needed (close_quorum (config room)) (extend_live fmt rid now d);
             cap = hard_cap (config room) + 20;
             d' = extended_db rid 20 d;
             rung = hub_notify rid (w_hub w)
         in if needed \<le> votes then
              (Inr (extend_response room cap), w\<lparr>w_db := noted (extend_note rid h cap now d') d', w_hub := rung\<rparr>)
            else (Inr (extend_pending room votes needed), w\<lparr>w_db := d, w_hub := rung\<rparr>)))"
proof (cases "get_room rid (w_db w)")
  case (Inr found)
  show ?thesis
  proof (cases found)
    case (Some room)
    with Inr have room: "get_room rid (w_db w) = Inr (Some room)" by simp
    show ?thesis
      using room_is_there [OF room]
      by (auto simp: extend_room_def extend_checks_def run_fetch run_ok_or run_call run_resolve
          run_now_utc run_sql run_notify run_ok_fail room try_extend_result [OF room] EXTEND_STEP_def
          note_result extend_response_def extend_pending_def Let_def split: option.split)
  qed (simp add: extend_room_def extend_checks_def run_simps Inr)
qed (simp add: extend_room_def extend_checks_def run_simps from_storage_def)

section \<open>A second vote\<close>

lemma extend_checks_facts:
  assumes "extend_checks rid req d = Inr (room, c)"
  shows "get_room rid d = Inr (Some room)" and "\<not> is_halted (r_state room)"
    and "c \<in> set (participants d)" and "p_room_id c = rid"
  using assms resolved_in [of rid _ d]
  by (auto simp: extend_checks_def split: sum.splits option.splits if_splits)

lemma count_where_le_1:
  assumes "distinct (map f xs)" and "\<And>x. x \<in> set xs \<Longrightarrow> P x \<Longrightarrow> f x = y"
  shows "count_where P xs \<le> 1"
  using assms
proof (induction xs)
  case (Cons x xs)
  show ?case
  proof (cases "P x")
    case True
    with Cons.prems have "f x = y" by simp
    with Cons.prems have "\<forall>z\<in>set xs. \<not> P z" by (auto simp: image_iff)
    then have "count_where P xs = 0" by (simp add: count_where_eq_0)
    with True show ?thesis by simp
  next
    case False
    with Cons show ?thesis by simp
  qed
qed simp

lemma needed_two: "2 \<le> live \<Longrightarrow> 2 \<le> CloseQuorum_needed q live"
  by (cases q) auto

lemma votes_after_clear:
  assumes "distinct (map p_handle (participants d))"
    and "\<forall>p\<in>set (participants d). p_room_id p = rid \<longrightarrow> wants_extend_at p = None"
  shows "extend_votes fmt rid t (extend_voted_db h t d) \<le> 1"
  unfolding extend_votes_def extend_voted_db_def
proof (rule count_where_le_1 [where f = p_handle and y = h])
  show "distinct (map p_handle (participants (d\<lparr>participants := map (extend_voted h t) (participants d)\<rparr>)))"
    using assms(1) by (simp add: extend_voted_def comp_def if_distrib cong: if_cong)
  show "p_handle p = h" if "p \<in> set (participants (d\<lparr>participants := map (extend_voted h t) (participants d)\<rparr>))"
    "live_by_text fmt rid t p \<and> wants_extend_at p \<noteq> None" for p
    using that assms(2) by (auto simp: extend_voted_def live_by_text_def split: if_splits)
qed

lemma extended_leaves:
  assumes "run (extend_room fmt rid req) w = Some (Inr r, v)" and "es_status r = ''extended''"
  shows "\<exists>m d. w_db v = noted m (extended_db rid 20 d)"
proof (cases "extend_checks rid req (w_db w)")
  case (Inl e)
  then show ?thesis using assms(1) by (simp add: run_extend_room)
next
  case (Inr x)
  obtain room c where x: "x = (room, c)" by fastforce
  have pending: "es_status (extend_pending room a b) \<noteq> ''extended''" for a b
    by (simp add: extend_pending_def)
  show ?thesis
    using assms(1) pending assms(2) unfolding run_extend_room Inr x sum.case prod.case Let_def
    by (auto split: if_splits) blast
qed

section \<open>An unreadable room\<close>

definition unreadable :: StorageError where
  "unreadable = Corrupt ''config json: invalid value''"

lemma row_error: "row_to_room row = Inl e \<Longrightarrow> e = unreadable"
  by (auto simp: row_to_room_def config_from_json_def unreadable_def split: sum.splits if_splits)

lemma collect_error:
  assumes "Inl e \<in> set rs" and "\<And>e'. Inl e' \<in> set rs \<Longrightarrow> e' = e"
  shows "collect rs = Inl e"
  using assms
proof (induction rs)
  case (Cons r rs)
  show ?case
  proof (cases r)
    case (Inl x)
    then have "x = e" by (intro Cons.prems(2)) simp
    with Inl show ?thesis by simp
  next
    case (Inr a)
    have "collect rs = Inl e"
    proof (rule Cons.IH)
      show "Inl e \<in> set rs" using Cons.prems(1) Inr by simp
      show "e' = e" if "Inl e' \<in> set rs" for e' by (rule Cons.prems(2)) (simp add: that)
    qed
    with Inr show ?thesis by simp
  qed
qed simp

lemma bumped_unreadable:
  assumes "row_to_room row = Inr room" and "r_id row = rid" and "2 ^ 32 \<le> uint (hard_cap (config room)) + uint step"
  shows "row_to_room (bumped rid step row) = Inl unreadable"
proof -
  have "\<not> fits_u32 (j_hard_cap (config row) + uint step)"
    using assms(3) unfolding row_to_room_fields(3) [OF assms(1)] by (simp add: fits_u32_def)
  then show ?thesis
    using assms(2) by (simp add: row_to_room_def bumped_def config_from_json_def unreadable_def)
qed

text \<open>Tables with an unreadable room that is not archived: every reader of it fails, and so do the lists.\<close>

lemma unreadable_room:
  assumes "row \<in> set (rooms d)" and "row_to_room row = Inl unreadable" and "r_state row \<noteq> Archived"
  shows "list_rooms_for_sweep d = Inl unreadable" and "list_rooms fmt None True d = Inl unreadable"
proof -
  show "list_rooms_for_sweep d = Inl unreadable"
    unfolding list_rooms_for_sweep_def
    using assms by (intro collect_error) (auto simp: image_iff dest: row_error [OF sym] row_error)
  have "Inl unreadable \<in> (\<lambda>row. case row_to_room row of
            Inl e \<Rightarrow> Inl e
          | Inr r \<Rightarrow> Inr \<lparr>s_room = r, s_participant_count =
              int (count_where (\<lambda>p. p_room_id p = r_id row) (participants d))\<rparr>) ` set (rooms d)"
    using assms by force
  then show "list_rooms fmt None True d = Inl unreadable"
    unfolding list_rooms_def Let_def
    by (intro collect_error) (auto split: sum.splits dest: row_error)
qed

lemma unreadable_requests:
  assumes "get_room rid (w_db v) = Inl e"
  shows "run (send_message fmt rid mreq) v = Some (Inl (Internal e), v)"
    and "run (close_room fmt rid lreq) v = Some (Inl (Internal e), v)"
    and "run (extend_room fmt rid ereq) v = Some (Inl (Internal e), v)"
    and "run (wait_room fmt st n rid wreq) v = Some (Inl (Internal e), v)"
  using assms
  by (simp_all add: send_message_def close_room_def extend_room_def wait_room_def run_fetch from_storage_def)

text \<open>Tables in which one of the two participants has voted, for the witnesses.\<close>

definition ready_to_extend :: Db where
  "ready_to_extend = extend_voted_db (p_handle alice) (seconds 5) sample_db"

lemma ready_wf: "wf_db ready_to_extend"
  by (simp add: wf_db_def wf_parts ready_to_extend_def extend_voted_db_def extend_voted_def sample_defs
      room_ids_def top_seq_def room_events_def count_capped_messages_def room_to_row_def with_config_def
      config_to_json_def)

definition huge_db :: Db where
  "huge_db = ready_to_extend\<lparr>rooms := [room_to_row (sample_room\<lparr>config := sample_config\<lparr>hard_cap := 4294967290\<rparr>\<rparr>)]\<rparr>"

lemma huge_wf: "wf_db huge_db"
  by (simp add: huge_db_def wf_db_def wf_parts ready_to_extend_def extend_voted_db_def extend_voted_def sample_defs
      room_ids_def top_seq_def room_events_def count_capped_messages_def room_to_row_def with_config_def
      config_to_json_def)

definition votable :: "string \<Rightarrow> Caller \<Rightarrow> Db \<Rightarrow> bool" where
  "votable rid req d = (case extend_checks rid req d of Inl _ \<Rightarrow> False
     | Inr (_, c) \<Rightarrow> 2 \<le> extend_live sample_fmt rid (seconds 5) (extend_voted_db (p_handle c) (seconds 5) d))"

definition caps_of :: "Db \<Rightarrow> int list" where
  "caps_of d = map (\<lambda>r. j_hard_cap (config r)) (rooms d)"

section \<open>Properties\<close>

text \<open>C11: extending, every branch. An extend is refused with nothing changed for an unknown or halted
  room and for a stranger; otherwise the caller's vote and liveness are recorded, and exactly if the
  live votes reach the quorum of the live participants the cap grows by 20 for that room alone, every
  extend vote of the room is cleared and one broadcast \<open>extend\<close> sentinel is posted; else the answer
  is the count. Close votes are untouched.\<close>

theorem extend_room_outcome:
  "run (extend_room fmt rid req) w =
    Some (case extend_checks rid req (w_db w) of
      Inl e \<Rightarrow> (Inl e, w)
    | Inr (room, v) \<Rightarrow>
        (let now = w_now w; h = p_handle v; d = extend_voted_db h now (w_db w);
             votes = extend_votes fmt rid now d;
             needed = CloseQuorum_needed (close_quorum (config room)) (extend_live fmt rid now d);
             cap = hard_cap (config room) + 20;
             d' = extended_db rid 20 d;
             rung = hub_notify rid (w_hub w)
         in if needed \<le> votes then
              (Inr (extend_response room cap), w\<lparr>w_db := noted (extend_note rid h cap now d') d', w_hub := rung\<rparr>)
            else (Inr (extend_pending room votes needed), w\<lparr>w_db := d, w_hub := rung\<rparr>)))"
  by (rule run_extend_room)

text \<open>No double bump. Right after a completed extend, an agent that votes again while at least two
  participants of the room are live only makes a new proposal: the caps stay as they are, whatever
  the quorum policy of the room.\<close>

lemma extend_twice_needs_new_votes:
  assumes "wf_db (w_db w)" and "run (extend_room fmt rid req) w = Some (Inr r, v)"
    and "es_status r = ''extended''" and "extend_checks rid req2 (w_db v) = Inr (room2, c2)"
    and "2 \<le> extend_live fmt rid t (extend_voted_db (p_handle c2) t (w_db v))"
  shows "\<exists>r2 u. run (extend_room fmt rid req2) (v\<lparr>w_now := t\<rparr>) = Some (Inr r2, u) \<and>
    es_status r2 = ''extend_proposed'' \<and> rooms (w_db u) = rooms (w_db v)"
proof -
  let ?e = "extend_voted_db (p_handle c2) t (w_db v)"
  obtain m d where v: "w_db v = noted m (extended_db rid 20 d)"
    using extended_leaves [OF assms(2,3)] by blast
  have "distinct (map p_handle (participants (w_db v)))"
    using server.run_ok [OF extend_room_keeps _ assms(2)] assms(1)
    by (simp add: db_ok_def wf_db_def wf_participants_def)
  moreover have "\<forall>p\<in>set (participants (w_db v)). p_room_id p = rid \<longrightarrow> wants_extend_at p = None"
    by (simp add: v noted_def extended_db_def)
  ultimately have "extend_votes fmt rid t ?e \<le> 1" by (rule votes_after_clear)
  moreover have "2 \<le> CloseQuorum_needed (close_quorum (config room2)) (extend_live fmt rid t ?e)"
    by (rule needed_two [OF assms(5)])
  ultimately have "\<not> CloseQuorum_needed (close_quorum (config room2)) (extend_live fmt rid t ?e) \<le> extend_votes fmt rid t ?e"
    by linarith
  with assms(4) show ?thesis
    by (simp add: run_extend_room Let_def extend_pending_def extend_voted_db_def)
qed



end
