(* ===== verification/InboxSpec.thy ===== *)
theory InboxSpec
  imports Api Samples
begin

text \<open>
  What a participant is delivered: the inbox it has not read, taken message by message. The locale
  \<open>queue_source\<close> is the contract between the cursor operations and whoever drains them; it is
  interpreted on \<open>claimable\<close>/\<open>after_claim\<close>, the effect of \<open>claim_next_unread\<close> run alone. Under
  concurrency, at most one claim gets a message.
\<close>

section \<open>A source that is drained from the front\<close>

locale queue_source =
  fixes ok :: "'s \<Rightarrow> bool" and pending :: "'s \<Rightarrow> 'm list" and first :: "'s \<Rightarrow> 'm option" and rest :: "'s \<Rightarrow> 's"
  assumes first_hd: "ok s \<Longrightarrow> first s = first_row (pending s)"
    and rest_tl: "ok s \<Longrightarrow> pending (rest s) = tl (pending s)"
    and rest_ok: "ok s \<Longrightarrow> ok (rest s)"
begin

fun drain :: "nat \<Rightarrow> 's \<Rightarrow> 'm option list" where
  "drain 0 s = []"
| "drain (Suc k) s = first s # drain k (rest s)"

fun after :: "nat \<Rightarrow> 's \<Rightarrow> 's" where
  "after 0 s = s"
| "after (Suc k) s = after k (rest s)"

lemma drain_all:
  "ok s \<Longrightarrow> drain k s = map Some (take k (pending s)) @ replicate (k - length (pending s)) None"
proof (induction k arbitrary: s)
  case (Suc k)
  have IH: "drain k (rest s) = map Some (take k (tl (pending s))) @ replicate (k - length (tl (pending s))) None"
    using Suc.IH [OF rest_ok [OF Suc.prems]] rest_tl [OF Suc.prems] by simp
  show ?case
    using IH first_hd [OF Suc.prems] by (cases "pending s") simp_all
qed simp

lemma after_pending: "ok s \<Longrightarrow> pending (after k s) = drop k (pending s)"
  by (induction k arbitrary: s) (simp_all add: rest_tl rest_ok drop_Suc)

lemma after_ok: "ok s \<Longrightarrow> ok (after k s)"
  by (induction k arbitrary: s) (simp_all add: rest_ok)

end

section \<open>The inbox\<close>

definition unread_for :: "string \<Rightarrow> string \<Rightarrow> int \<Rightarrow> Message \<Rightarrow> bool" where
  "unread_for rid h c m \<longleftrightarrow> m_room_id m = rid \<and> c < m_seq m \<and> addressed_to h m"

definition inbox :: "string \<Rightarrow> string \<Rightarrow> Db \<Rightarrow> Message list" where
  "inbox rid h d = (case read_cursor h d of None \<Rightarrow> [] | Some c \<Rightarrow> filter (unread_for rid h c) (messages d))"

definition reader_ok :: "string \<Rightarrow> Db \<Rightarrow> bool" where
  "reader_ok h d \<longleftrightarrow> wf_db d \<and> read_cursor h d \<noteq> None"

lemma wf_sorted: "wf_db d \<Longrightarrow> sorted_wrt (<) (map m_seq (messages d))"
  by (simp add: wf_db_def wf_messages_def)

lemma sorted_filter_lt: "sorted_wrt (<) (map m_seq ms) \<Longrightarrow> sorted_wrt (<) (map m_seq (filter P ms))"
  by (induction ms) auto

lemma order_by_filter:
  assumes "wf_db d"
  shows "order_by m_seq (filter P (messages d)) = filter P (messages d)"
proof -
  have "sorted_wrt (<) (map m_seq (filter P (messages d)))"
    by (rule sorted_filter_lt [OF wf_sorted [OF assms]])
  then show ?thesis by (intro order_by_sorted) (simp add: strict_sorted_iff strict_sorted_imp_sorted)
qed

lemma next_unread_first:
  "wf_db d \<Longrightarrow> next_unread rid h c d = first_row (filter (unread_for rid h c) (messages d))"
  by (simp add: next_unread_def order_by_filter unread_for_def [abs_def])

lemma claimable_first: "wf_db d \<Longrightarrow> claimable rid h d = first_row (inbox rid h d)"
  by (simp add: claimable_def inbox_def next_unread_first split: option.split)

lemma read_cursor_swap:
  assumes "read_cursor h d = Some c"
  shows "read_cursor h (snd (swap_cursor h c n d)) = Some n"
proof -
  from assms obtain p where p: "find (\<lambda>p. p_handle p = h) (participants d) = Some p" "last_read_seq p = c"
    by (auto simp: read_cursor_def)
  have "find (\<lambda>p. p_handle p = h) (update_where (\<lambda>p. p_handle p = h \<and> last_read_seq p = c)
      (\<lambda>p. p\<lparr>last_read_seq := n\<rparr>) (participants d)) =
    map_option (\<lambda>p. if p_handle p = h \<and> last_read_seq p = c then p\<lparr>last_read_seq := n\<rparr> else p)
      (find (\<lambda>p. p_handle p = h) (participants d))"
    by (rule find_update_where) simp
  then show ?thesis using p find_SomeD [OF p(1)] by (simp add: swap_cursor_def read_cursor_def Let_def)
qed

lemma swap_tables [simp]:
  "messages (snd (swap_cursor h c n d)) = messages d" "rooms (snd (swap_cursor h c n d)) = rooms d"
  "events (snd (swap_cursor h c n d)) = events d"
  by (simp_all add: swap_cursor_def Let_def)

text \<open>After the first unread message, exactly the others are unread.\<close>

lemma unread_after:
  assumes "sorted_wrt (<) (map m_seq ms)" and "filter (unread_for rid h c) ms = m # rest"
  shows "filter (unread_for rid h (m_seq m)) ms = rest"
  using assms
proof (induction ms)
  case (Cons x xs)
  show ?case
  proof (cases "unread_for rid h c x")
    case True
    with Cons.prems(2) have "x = m" and rest: "filter (unread_for rid h c) xs = rest" by auto
    have "filter (unread_for rid h (m_seq m)) xs = filter (unread_for rid h c) xs"
      using Cons.prems(1) True \<open>x = m\<close> by (intro filter_cong) (auto simp: unread_for_def)
    moreover have "\<not> unread_for rid h (m_seq m) m" by (simp add: unread_for_def)
    ultimately show ?thesis using rest \<open>x = m\<close> by simp
  next
    case False
    with Cons have tail: "filter (unread_for rid h (m_seq m)) xs = rest" by simp
    have "m \<in> set xs" using Cons.prems(2) False by (metis filter.simps(2) filter_is_subset list.set_intros(1) subsetD)
    with Cons.prems(1) have "m_seq x < m_seq m" by auto
    then have "\<not> unread_for rid h (m_seq m) x" by (simp add: unread_for_def)
    with tail show ?thesis by simp
  qed
qed simp

lemma inbox_after_claim:
  assumes "reader_ok h d"
  shows "inbox rid h (after_claim rid h d) = tl (inbox rid h d)"
proof -
  from assms obtain c where c: "read_cursor h d = Some c" and wf: "wf_db d" by (auto simp: reader_ok_def)
  show ?thesis
  proof (cases "inbox rid h d")
    case Nil
    then have "claimable rid h d = None" using claimable_first [OF wf] by simp
    with Nil show ?thesis by (simp add: after_claim_def)
  next
    case (Cons m ms)
    then have claim: "claimable rid h d = Some m" using claimable_first [OF wf] by simp
    have "filter (unread_for rid h (m_seq m)) (messages d) = ms"
      using unread_after [OF wf_sorted [OF wf]] Cons c by (simp add: inbox_def)
    with claim c Cons show ?thesis
      by (simp add: after_claim_def inbox_def read_cursor_swap)
  qed
qed

lemma claimed_message: "claimable rid h d = Some m \<Longrightarrow> m \<in> set (messages d)"
  by (auto simp: claimable_def next_unread_def split: option.splits dest!: first_row_Some)

lemma reader_after_claim:
  assumes "reader_ok h d"
  shows "reader_ok h (after_claim rid h d)"
proof (cases "claimable rid h d")
  case None
  with assms show ?thesis by (simp add: after_claim_def)
next
  case (Some m)
  from assms obtain c where c: "read_cursor h d = Some c" and wf: "wf_db d" by (auto simp: reader_ok_def)
  have "0 \<le> m_seq m" "m_seq m \<le> top_seq d"
    using claimed_message [OF Some] wf by (auto simp: wf_db_def wf_messages_def intro: top_seq_ge less_imp_le)
  then have "sound d (snd (swap_cursor h c (m_seq m) d))" by (rule sound_swap_cursor)
  with wf Some c show ?thesis by (simp add: after_claim_def reader_ok_def sound_def read_cursor_swap)
qed

interpretation mail: queue_source "reader_ok h" "inbox rid h" "claimable rid h" "after_claim rid h"
proof
  fix s assume "reader_ok h s"
  then show "claimable rid h s = first_row (inbox rid h s)" by (simp add: claimable_first reader_ok_def)
qed (simp_all add: inbox_after_claim reader_after_claim)

text \<open>Claims made one after the other by the program, with nothing else running.\<close>

fun claim_times :: "nat \<Rightarrow> nat \<Rightarrow> string \<Rightarrow> string \<Rightarrow> World \<Rightarrow> Message option list option" where
  "claim_times n 0 rid h w = Some []"
| "claim_times n (Suc k) rid h w =
     (case run (claim_next_unread n rid h) w of
        Some (Inr m, w') \<Rightarrow> map_option (Cons m) (claim_times n k rid h w')
      | _ \<Rightarrow> None)"

lemma claim_times_drain:
  "reader_ok h (w_db w) \<Longrightarrow> claim_times (Suc n) k rid h w = Some (mail.drain rid h k (w_db w))"
proof (induction k arbitrary: w)
  case (Suc k)
  then have "db_ok w" by (simp add: reader_ok_def db_ok_def)
  from run_claim [OF this, of n rid h] Suc.IH reader_after_claim [OF Suc.prems]
  show ?case by simp
qed simp

lemma inbox_set:
  assumes "read_cursor h d = Some c"
  shows "set (inbox rid h d) = {m \<in> set (messages d). m_room_id m = rid \<and> c < m_seq m \<and> sender m \<noteq> h \<and>
    (recipient m = None \<or> recipient m = Some h)}"
  using assms by (auto simp: inbox_def unread_for_def addressed_to_def)

lemma inbox_sorted: "wf_db d \<Longrightarrow> sorted_wrt (<) (map m_seq (inbox rid h d))"
  by (auto simp: inbox_def sorted_filter_lt wf_sorted split: option.split)

section \<open>Concurrent claims\<close>

text \<open>What the rest of the daemon may do to the reader \<open>h\<close>: anything but move its cursor.\<close>

definition others_move :: "string \<Rightarrow> World \<Rightarrow> World \<Rightarrow> bool" where
  "others_move h w w' \<longleftrightarrow> distinct (map p_handle (participants (w_db w'))) \<and>
     read_cursor h (w_db w') = read_cursor h (w_db w)"

definition claim_swap :: "nat \<Rightarrow> string \<Rightarrow> string \<Rightarrow> int \<Rightarrow> Message \<Rightarrow> (World, StorageError + Message option) prog" where
  "claim_swap n rid h c m = sql id (swap_cursor h c (m_seq m)) (\<lambda>claimed.
     if claimed then Ret (Inr (Some m)) else claim_next_unread n rid h)"

definition claim_read :: "nat \<Rightarrow> string \<Rightarrow> string \<Rightarrow> int \<Rightarrow> (World, StorageError + Message option) prog" where
  "claim_read n rid h c = look (next_unread rid h c) (\<lambda>m. case m of
     None \<Rightarrow> Ret (Inr None) | Some m \<Rightarrow> claim_swap n rid h c m)"

lemma claim_unfold:
  "claim_next_unread (Suc n) rid h = look (read_cursor h) (\<lambda>c. case c of
     None \<Rightarrow> Ret (Inr None) | Some c \<Rightarrow> claim_read n rid h c)"
  by (simp only: claim_next_unread.simps claim_read_def claim_swap_def)

text \<open>The points a claim passes through.\<close>

inductive_set claim_points :: "string \<Rightarrow> string \<Rightarrow> (World, StorageError + Message option) prog set"
  for rid h where
  begin_claim: "claim_next_unread n rid h \<in> claim_points rid h"
| have_cursor: "claim_read n rid h c \<in> claim_points rid h"
| have_message: "c < m_seq m \<Longrightarrow> claim_swap n rid h c m \<in> claim_points rid h"
| finished: "Ret r \<in> claim_points rid h"

fun result_seq :: "(World, StorageError + Message option) prog \<Rightarrow> int list" where
  "result_seq (Ret (Inr (Some m))) = [m_seq m]"
| "result_seq _ = []"

definition delivered :: "(World, StorageError + Message option) prog list \<Rightarrow> int list" where
  "delivered ps = concat (map result_seq ps)"

definition claims_ok :: "string \<Rightarrow> string \<Rightarrow> World \<times> (World, StorageError + Message option) prog list \<Rightarrow> bool" where
  "claims_ok rid h s \<longleftrightarrow> distinct (map p_handle (participants (w_db (fst s)))) \<and>
     set (snd s) \<subseteq> claim_points rid h \<and> distinct (delivered (snd s)) \<and>
     (\<forall>q\<in>set (delivered (snd s)). \<exists>c. read_cursor h (w_db (fst s)) = Some c \<and> q \<le> c)"

lemma next_unread_above: "next_unread rid h c d = Some m \<Longrightarrow> c < m_seq m"
  by (auto simp: next_unread_def dest!: first_row_Some)

lemma swap_hit:
  assumes "fst (swap_cursor h c n d) = Inr True" and "distinct (map p_handle (participants d))"
  shows "read_cursor h d = Some c"
proof -
  from assms(1) have "0 < count_where (\<lambda>p. p_handle p = h \<and> last_read_seq p = c) (participants d)"
    by (simp add: swap_cursor_def Let_def)
  then obtain p where p: "p \<in> set (participants d)" "p_handle p = h" "last_read_seq p = c"
    by (auto simp: count_where_pos)
  have "find (\<lambda>p. p_handle p = h) (participants d) = Some p"
    using p assms(2) by (intro find_unique) (auto simp: distinct_map dest: inj_onD)
  with p show ?thesis by (simp add: read_cursor_def)
qed

lemma swap_miss:
  assumes "fst (swap_cursor h c n d) = Inr False" and "distinct (map p_handle (participants d))"
  shows "snd (swap_cursor h c n d) = d"
proof -
  have "\<forall>p\<in>set (participants d). \<not> (p_handle p = h \<and> last_read_seq p = c)"
  proof (rule ccontr)
    assume "\<not> ?thesis"
    then obtain p where "p \<in> set (participants d)" "p_handle p = h" "last_read_seq p = c" by blast
    with count_handle [OF assms(2), of p] assms(1) show False by (simp add: swap_cursor_def Let_def)
  qed
  then show ?thesis by (simp add: swap_cursor_def Let_def update_where_none)
qed

lemma swap_handles [simp]:
  "map p_handle (participants (snd (swap_cursor h c n d))) = map p_handle (participants d)"
  by (simp add: swap_cursor_def Let_def map_update_where)

lemma swap_total: "\<exists>b. fst (swap_cursor h c n d) = Inr b"
  by (auto simp: swap_cursor_def Let_def)

text \<open>One action of a claim: it delivers nothing and leaves the cursor, or it delivers a message above
  the cursor and moves the cursor to it.\<close>

lemma claim_action:
  assumes "Act g u k \<in> claim_points rid h" and "g w"
    and wf: "distinct (map p_handle (participants (w_db w)))"
  shows "distinct (map p_handle (participants (w_db (u w)))) \<and> k w \<in> claim_points rid h \<and>
    (result_seq (k w) = [] \<and> read_cursor h (w_db (u w)) = read_cursor h (w_db w) \<or>
     (\<exists>c n. result_seq (k w) = [n] \<and> read_cursor h (w_db w) = Some c \<and> c < n \<and>
       read_cursor h (w_db (u w)) = Some n))"
  using assms(1)
proof (cases rule: claim_points.cases)
  case (begin_claim n)
  have silent: "result_seq (claim_read n rid h c) = []" for n c
    by (simp add: claim_read_def look_def Query_def)
  show ?thesis
  proof (cases n)
    case 0
    with begin_claim assms(2) show ?thesis by (simp add: Hang_def)
  next
    case (Suc m)
    from begin_claim have "u w = w" and "k w = (case read_cursor h (w_db w) of
        None \<Rightarrow> Ret (Inr None) | Some c \<Rightarrow> claim_read m rid h c)"
      unfolding claim_unfold [of m] Suc by (auto simp: look_def Query_def)
    with wf silent show ?thesis by (auto split: option.split intro: claim_points.intros)
  qed
next
  case (have_cursor n c)
  have silent: "result_seq (claim_swap n rid h c m) = []" for m
    by (simp add: claim_swap_def sql_def Exec_def)
  from have_cursor have "u w = w" and "k w = (case next_unread rid h c (w_db w) of
      None \<Rightarrow> Ret (Inr None) | Some m \<Rightarrow> claim_swap n rid h c m)"
    by (auto simp: look_def Query_def claim_read_def)
  with wf silent show ?thesis
    by (auto split: option.split intro: claim_points.intros dest: next_unread_above)
next
  case (have_message c m n)
  let ?d = "w_db w"
  obtain b where b: "fst (swap_cursor h c (m_seq m) ?d) = Inr b" using swap_total by blast
  from have_message b have u: "w_db (u w) = snd (swap_cursor h c (m_seq m) ?d)"
    and k: "k w = (if b then Ret (Inr (Some m)) else claim_next_unread n rid h)"
    by (auto simp: claim_swap_def sql_def Exec_def)
  show ?thesis
  proof (cases b)
    case True
    with b wf swap_hit have "read_cursor h ?d = Some c" by simp
    with True u k wf have_message show ?thesis
      by (auto simp: read_cursor_swap intro: claim_points.intros)
  next
    case False
    have silent: "result_seq (claim_next_unread n rid h) = []"
      by (cases n) (simp_all add: Hang_def look_def Query_def)
    from False b wf swap_miss u k silent show ?thesis by (auto intro: claim_points.intros)
  qed
qed

lemma delivered_split: "delivered (xs @ p # ys) = delivered xs @ result_seq p @ delivered ys"
  by (simp add: delivered_def)

lemma claims_step:
  assumes "sys_step (others_move h) {claim_next_unread n rid h |n. True} s t" and "claims_ok rid h s"
  shows "claims_ok rid h t"
  using assms
proof (cases rule: sys_step.cases)
  case (act i ps g u k w)
  let ?xs = "take i ps" and ?ys = "drop (Suc i) ps"
  from act have ps: "ps = ?xs @ Act g u k # ?ys" by (metis id_take_nth_drop)
  then have upd: "ps[i := k w] = ?xs @ k w # ?ys" using act upd_conv_take_nth_drop by metis
  from act assms(2) have ok: "claims_ok rid h (w, ps)" by simp
  then have "Act g u k \<in> claim_points rid h" by (subst (asm) ps) (simp add: claims_ok_def)
  from claim_action [OF this] act ok have step: "distinct (map p_handle (participants (w_db (u w))))"
    "k w \<in> claim_points rid h"
    "result_seq (k w) = [] \<and> read_cursor h (w_db (u w)) = read_cursor h (w_db w) \<or>
     (\<exists>c n. result_seq (k w) = [n] \<and> read_cursor h (w_db w) = Some c \<and> c < n \<and>
       read_cursor h (w_db (u w)) = Some n)"
    by (simp_all add: claims_ok_def)
  have old: "distinct (delivered ?xs @ delivered ?ys)"
    "\<forall>q\<in>set (delivered ?xs @ delivered ?ys). \<exists>c. read_cursor h (w_db w) = Some c \<and> q \<le> c"
    "set ?xs \<union> set ?ys \<subseteq> claim_points rid h"
    using ok by (subst (asm) ps, simp add: claims_ok_def delivered_split)+
  have "claims_ok rid h (u w, ?xs @ k w # ?ys)"
    using step(3)
  proof
    assume "result_seq (k w) = [] \<and> read_cursor h (w_db (u w)) = read_cursor h (w_db w)"
    with step old show ?thesis by (simp add: claims_ok_def delivered_split)
  next
    assume "\<exists>c n. result_seq (k w) = [n] \<and> read_cursor h (w_db w) = Some c \<and> c < n \<and>
       read_cursor h (w_db (u w)) = Some n"
    then obtain c n where n: "result_seq (k w) = [n]" "read_cursor h (w_db w) = Some c" "c < n"
      "read_cursor h (w_db (u w)) = Some n" by blast
    with old have "\<forall>q\<in>set (delivered ?xs @ delivered ?ys). q < n" by fastforce
    with n step old show ?thesis
      by (auto simp: claims_ok_def delivered_split intro: less_imp_le)
  qed
  with act upd show ?thesis by simp
next
  case (env w w' ps)
  with assms(2) show ?thesis by (simp add: claims_ok_def others_move_def)
next
  case (spawn p w ps)
  have "result_seq (claim_next_unread n rid h) = []" for n
    by (cases n) (simp_all add: Hang_def look_def Query_def)
  with spawn assms(2) show ?thesis
    by (auto simp: claims_ok_def delivered_def intro: claim_points.intros)
next
  case (cancel w ps p qs)
  with assms(2) show ?thesis by (auto simp: claims_ok_def delivered_split) (auto simp: delivered_def)
qed

section \<open>Properties\<close>

text \<open>C13: claims deliver exactly the unread messages. Claims made one after the other return the
  messages of the inbox in the order of their sequence numbers, each once, and then nothing; and the
  inbox of a participant is exactly the messages of its room above its cursor that someone else
  sent to everyone or to it.\<close>

theorem claims_drain_inbox:
  assumes "wf_db (w_db w)" and "read_cursor h (w_db w) = Some c"
  shows "claim_times (Suc n) k rid h w =
      Some (map Some (take k (inbox rid h (w_db w))) @ replicate (k - length (inbox rid h (w_db w))) None) \<and>
    set (inbox rid h (w_db w)) = {m \<in> set (messages (w_db w)). m_room_id m = rid \<and> c < m_seq m \<and>
      sender m \<noteq> h \<and> (recipient m = None \<or> recipient m = Some h)} \<and>
    sorted_wrt (<) (map m_seq (inbox rid h (w_db w)))"
proof -
  have "reader_ok h (w_db w)" using assms by (simp add: reader_ok_def)
  from claim_times_drain [OF this] mail.drain_all [OF this] inbox_set [OF assms(2)] inbox_sorted [OF assms(1)]
  show ?thesis by simp
qed

theorem claims_drain_inbox_witness:
  "claim_times 1 3 ''r'' ''repo-m-0002'' mail_world = Some [Some (mail_message 1 None), Some (mail_message 3 (Some ''repo-m-0002'')), None]"
proof -
  have wf: "wf_db (w_db mail_world)" by (simp add: mail_world_def world_of_def mail_wf)
  have cursor: "read_cursor ''repo-m-0002'' (w_db mail_world) = Some 0" by code_simp
  have inbox: "inbox ''r'' ''repo-m-0002'' (w_db mail_world) =
      [mail_message 1 None, mail_message 3 (Some ''repo-m-0002'')]" by code_simp
  show ?thesis
    using claims_drain_inbox [OF wf cursor, of 0 3 "''r''"] by (simp add: inbox numeral_3_eq_3)
qed

text \<open>C3: a message is delivered to at most one claim. However many claims of the same handle run at
  the same time, whatever else happens to the tables meanwhile and wherever they are cancelled, no
  two of them return the same message.\<close>

theorem claims_at_most_once:
  assumes "sys_reach (others_move h) {claim_next_unread n rid h |n. True} (w, []) (v, ps)"
    and "distinct (map p_handle (participants (w_db w)))"
    and "i < j" and "j < length ps"
    and "ps ! i = Ret (Inr (Some a))" and "ps ! j = Ret (Inr (Some b))"
  shows "m_seq a \<noteq> m_seq b"
proof -
  have "claims_ok rid h t" if "sys_reach (others_move h) {claim_next_unread n rid h |n. True} (w, []) t" for t
    using that
  proof (induction rule: sys_reach.induct)
    case here
    then show ?case using assms(2) by (simp add: claims_ok_def delivered_def)
  next
    case (further t u)
    then show ?case using claims_step by blast
  qed
  from this [OF assms(1)] have "distinct (delivered ps)" by (simp add: claims_ok_def)
  moreover have "ps = take i ps @ ps ! i # drop (Suc i) ps"
    using assms(3,4) by (intro id_take_nth_drop) simp
  moreover have "ps ! j \<in> set (drop (Suc i) ps)"
    using assms(3,4) by (auto simp: in_set_conv_nth intro!: exI [of _ "j - Suc i"])
  ultimately have "distinct (delivered (take i ps) @ m_seq a # delivered (drop (Suc i) ps))"
    and "m_seq b \<in> set (delivered (drop (Suc i) ps))"
    using assms(5,6) delivered_split [of "take i ps" "ps ! i" "drop (Suc i) ps"]
    by (auto simp: delivered_def intro!: bexI [of _ "ps ! j"])
  then show ?thesis by auto
qed

theorem claims_at_most_once_witness:
  "\<exists>v a b. sys_reach (others_move ''repo-m-0002'') {claim_next_unread n ''r'' ''repo-m-0002'' |n. True}
      (mail_world, []) (v, [Ret (Inr (Some a)), Ret (Inr (Some b))]) \<and> m_seq a \<noteq> m_seq b"
proof -
  let ?h = "''repo-m-0002''"
  let ?E = "others_move ?h" and ?P = "{claim_next_unread n ''r'' ?h |n. True}"
  let ?p = "claim_next_unread 1 ''r'' ?h"
  have "returned (run ?p mail_world) (\<lambda>x w. x = Some (mail_message 1 None) \<and>
      returned (run ?p w) (\<lambda>y v. y = Some (mail_message 3 (Some ?h))))"
    by code_simp
  then obtain w v where one: "run ?p mail_world = Some (Inr (Some (mail_message 1 None)), w)"
    and two: "run ?p w = Some (Inr (Some (mail_message 3 (Some ?h))), v)"
    by (blast elim: returnedE)
  have spawn: "sys_step ?E ?P (u, ps) (u, ps @ [?p])" for u ps
    by (rule sys_step.spawn) blast
  have first: "sys_reach ?E ?P (mail_world, []) (w, [Ret (Inr (Some (mail_message 1 None)))])"
    using reach_step_first [OF spawn [of _ "[]"] run_reach [OF one]] by simp
  have second: "sys_reach ?E ?P (w, [Ret (Inr (Some (mail_message 1 None)))])
      (v, [Ret (Inr (Some (mail_message 1 None))), Ret (Inr (Some (mail_message 3 (Some ?h))))])"
    using reach_step_first [OF spawn [of _ "[Ret (Inr (Some (mail_message 1 None)))]"] run_reach [OF two]] by simp
  note reach = sys_reach_trans [OF first second]
  have "distinct (map p_handle (participants (w_db mail_world)))" by code_simp
  from claims_at_most_once [OF reach this, of 0 1] reach show ?thesis by fastforce
qed

end
