(* ===== verification/WaitSpec.thy ===== *)
theory WaitSpec
  imports HttpWait InboxSpec MessageSpec
begin

text \<open>
  What \<open>wait_room\<close> answers: the drain of a halted room, the immediate answers, and the park with
  what wakes it. Facts about single claims come from the interpretation \<open>mail\<close> of \<open>queue_source\<close>.
\<close>

section \<open>The predicates as functions of the tables and the clock\<close>

definition sentinel_backoff :: "string \<Rightarrow> string \<Rightarrow> time \<Rightarrow> Db \<Rightarrow> int option" where
  "sentinel_backoff rid h now d = (case latest_message_from_other rid h d of
     None \<Rightarrow> None
   | Some m \<Rightarrow> if msg_type m = WaitingUser
       then map_option (\<lambda>sev. backoff_secs sev (whole_seconds (now - created_at m))) (severity m)
       else None)"

definition busy_backoff :: "(time \<Rightarrow> string) \<Rightarrow> string \<Rightarrow> string \<Rightarrow> time \<Rightarrow> Db \<Rightarrow> int option" where
  "busy_backoff fmt rid h now d = (case room_latest_message rid d of
     None \<Rightarrow> None
   | Some m \<Rightarrow> if sender m = h \<and>
         list_ex (\<lambda>p. p_handle p \<noteq> h \<and> m_seq m \<le> last_read_seq p) (list_participants fmt rid d)
       then Some (backoff_secs Med (whole_seconds (now - created_at m))) else None)"

lemma run_sentinel: "run (active_sentinel_backoff rid h) w = Some (Inr (sentinel_backoff rid h (w_now w) (w_db w)), w)"
  by (auto simp: active_sentinel_backoff_def sentinel_backoff_def run_look run_now_utc run_ok_fail
      split: option.split)

lemma run_busy: "run (counterpart_busy_backoff fmt rid h) w = Some (Inr (busy_backoff fmt rid h (w_now w) (w_db w)), w)"
  by (auto simp: counterpart_busy_backoff_def busy_backoff_def run_look run_now_utc run_ok_fail
      split: option.split)

lemma run_predicates:
  "run (close_proposed fmt rid h) w = Some (Inr (close_proposed_at (w_now w) h (list_participants fmt rid (w_db w))), w)"
  "run (extend_proposed fmt rid h) w = Some (Inr (extend_proposed_at (w_now w) h (list_participants fmt rid (w_db w))), w)"
  "run (counterpart_is_stale fmt rid h) w = Some (Inr (stale_at (w_now w) h (list_participants fmt rid (w_db w))), w)"
  by (simp_all add: close_proposed_def extend_proposed_def counterpart_is_stale_def run_now_utc run_look run_ok_fail)

text \<open>A proposal that waits for the caller's decision.\<close>

definition proposal :: "(time \<Rightarrow> string) \<Rightarrow> string \<Rightarrow> string \<Rightarrow> time \<Rightarrow> Db \<Rightarrow> WaitStatus option" where
  "proposal fmt rid h now d =
     (if close_proposed_at now h (list_participants fmt rid d) then Some WsCloseProposed
      else if extend_proposed_at now h (list_participants fmt rid d) then Some WsExtendProposed
      else None)"

lemma run_or_else:
  "run (or_else p q) w = (case run p w of None \<Rightarrow> None
     | Some (Inl e, w') \<Rightarrow> Some (Inl e, w') | Some (Inr b, w') \<Rightarrow> if b then Some (Inr True, w') else run q w')"
  by (auto simp: or_else_def run_call run_ok_fail split: option.split sum.split)

lemma run_relevant_change:
  assumes "get_room rid (w_db w) = Inr (Some room)"
  shows "run (wait_relevant_change fmt rid h) w =
    Some (Inr (is_halted (r_state room) \<or> proposal fmt rid h (w_now w) (w_db w) \<noteq> None), w)"
  using assms
  by (simp add: wait_relevant_change_def run_fetch run_ok_fail run_or_else run_predicates proposal_def)

section \<open>The caller is touched\<close>

definition touched :: "string \<Rightarrow> time \<Rightarrow> Db \<Rightarrow> Db" where
  "touched h now d = snd (touch_last_poll h now d)"

lemma touched_tables [simp]:
  "rooms (touched h now d) = rooms d" "messages (touched h now d) = messages d"
  "events (touched h now d) = events d"
  by (simp_all add: touched_def touch_last_poll_def update_participant_def)

lemma touched_get_room [simp]: "get_room rid (touched h now d) = get_room rid d"
  by (simp add: get_room_def)

lemma touched_wf: "wf_db d \<Longrightarrow> wf_db (touched h now d)"
  using sound_touch_last_poll [of d h now] by (simp add: touched_def sound_def)

lemma touched_cursor [simp]: "read_cursor h' (touched h now d) = read_cursor h' d"
proof -
  have "find (\<lambda>p. p_handle p = h') (update_where (\<lambda>p. p_handle p = h) (\<lambda>p. p\<lparr>last_poll_at := now\<rparr>) ps) =
      map_option (\<lambda>p. if p_handle p = h then p\<lparr>last_poll_at := now\<rparr> else p) (find (\<lambda>p. p_handle p = h') ps)" for ps :: "Participant list"
    by (rule find_update_where) simp
  then show ?thesis
    by (cases "find (\<lambda>p. p_handle p = h') (participants d)")
      (simp_all add: read_cursor_def touched_def touch_last_poll_def update_participant_def)
qed

lemma touched_inbox [simp]: "inbox rid h' (touched h now d) = inbox rid h' d"
  by (simp add: inbox_def split: option.split)

lemma touched_twice [simp]: "touched h now (touched h now d) = touched h now d"
  by (simp add: touched_def touch_last_poll_def update_participant_def update_where_def)

section \<open>The wait loop, alone\<close>

lemma run_wait_claims:
  assumes "db_ok w" and "claimable rid h (w_db w) = Some m"
  shows "run (wait_loop (Suc n) rid h deadline y rx) w =
    Some (Inr (Delivered m), w\<lparr>w_db := after_claim rid h (w_db w)\<rparr>)"
  using run_claim [OF assms(1), of n rid h] assms(2)
  by (simp add: wait_loop.simps run_call run_simps del: claim_next_unread.simps)

lemma run_wait_idle:
  assumes "db_ok w" and "claimable rid h (w_db w) = None"
    and "deadline \<le> w_mono w \<or> run y w = Some (Inr True, w)"
  shows "run (wait_loop (Suc n) rid h deadline y rx) w = Some (Inr PausedByTimeout, w)"
  using run_claim [OF assms(1), of n rid h] assms(2,3)
  by (auto simp: wait_loop.simps run_call run_mono_now run_simps after_claim_def saturating_since_def Let_def
      simp del: claim_next_unread.simps)

lemma run_wait_until:
  "run (wait_for_message_until n rid h timeout y) w =
     run (wait_loop n rid h (w_mono w + timeout) y (fst (hub_subscribe rid (w_hub w))))
       (w\<lparr>w_db := touched h (w_now w) (w_db w), w_hub := snd (hub_subscribe rid (w_hub w))\<rparr>)"
  by (simp add: wait_for_message_until_def run_now_utc run_sql run_subscribe run_mono_now touched_def)

section \<open>Entering a live room\<close>

definition joined_other :: "string \<Rightarrow> string \<Rightarrow> Db \<Rightarrow> bool" where
  "joined_other rid h d \<longleftrightarrow> list_ex (\<lambda>p. p_room_id p = rid \<and> p_handle p \<noteq> h) (participants d)"

lemma has_counterpart_iff: "has_counterpart fmt rid h d \<longleftrightarrow> joined_other rid h d"
  by (auto simp: has_counterpart_def joined_other_def list_participants_def list_ex_iff)

lemma joined_other_touched [simp]: "joined_other rid h (touched h' now d) \<longleftrightarrow> joined_other rid h d"
  by (simp add: joined_other_def touched_def touch_last_poll_def update_participant_def list_ex_update_where)

text \<open>The world in which the gates are passed.\<close>

definition entered :: "AppState \<Rightarrow> string \<Rightarrow> World \<Rightarrow> World" where
  "entered st h w = w\<lparr>w_db := touched h (w_now w) (w_db w),
     w_presence := enter (presence_grace st) h (w_mono w) (w_presence w)\<rparr>"

definition left_park :: "string \<Rightarrow> World \<Rightarrow> World" where
  "left_park h w = w\<lparr>w_presence := release h (w_mono w) (w_presence w)\<rparr>"

lemma entered_simps [simp]:
  "w_db (entered st h w) = touched h (w_now w) (w_db w)" "w_now (entered st h w) = w_now w"
  "w_mono (entered st h w) = w_mono w" "w_hub (entered st h w) = w_hub w"
  "w_db (left_park h w) = w_db w"
  by (simp_all add: entered_def left_park_def)

lemma run_wait_entry:
  assumes "get_room rid (w_db w) = Inr (Some room)" and "\<not> is_halted (r_state room)"
    and "resolved rid (caller_instance req) (w_db w) = Some c"
  shows "run (wait_room fmt st n rid req) w =
    (if joined_other rid (p_handle c) (w_db w)
     then map_option (\<lambda>(r, v). (r, left_park (p_handle c) v))
       (run (wait_after_gates fmt st n rid req room (p_handle c)) (entered st (p_handle c) w))
     else Some (Inr (WaitTimeout ''awaiting_counterpart'' None), left_park (p_handle c) (entered st (p_handle c) w)))"
  using assms
  by (simp add: wait_room_def run_fetch run_ok_or run_call run_resolve run_now_utc run_sql run_look
      run_ok_fail run_with_park has_counterpart_iff entered_def left_park_def touched_def [symmetric]
      split: option.split)

definition park_time ::
  "(time \<Rightarrow> string) \<Rightarrow> AppState \<Rightarrow> WaitRequest \<Rightarrow> string \<Rightarrow> string \<Rightarrow> time \<Rightarrow> Db \<Rightarrow> time" where
  "park_time fmt st req rid h now d = (case sentinel_backoff rid h now d of
     Some secs \<Rightarrow> min (full_cap st req) (seconds secs)
   | None \<Rightarrow> if stale_at now h (list_participants fmt rid d) \<or> proposal fmt rid h now d \<noteq> None then 0
       else full_cap st req)"

lemma run_park_cap:
  "run (park_cap fmt st req rid h) w = Some (Inr (park_time fmt st req rid h (w_now w) (w_db w)), w)"
  by (auto simp: park_cap_def park_time_def run_call run_sentinel run_or_else run_predicates run_ok_fail
      proposal_def split: option.split)

text \<open>The hint of an answer: the sentinel first, then a busy counterpart.\<close>

definition hint_at :: "(time \<Rightarrow> string) \<Rightarrow> string \<Rightarrow> string \<Rightarrow> time \<Rightarrow> Db \<Rightarrow> int option" where
  "hint_at fmt rid h now d = (case sentinel_backoff rid h now d of
     Some secs \<Rightarrow> Some secs | None \<Rightarrow> busy_backoff fmt rid h now d)"

definition timeout_status :: "(time \<Rightarrow> string) \<Rightarrow> string \<Rightarrow> string \<Rightarrow> time \<Rightarrow> Db \<Rightarrow> WaitStatus" where
  "timeout_status fmt rid h now d = (case proposal fmt rid h now d of
     Some s \<Rightarrow> s
   | None \<Rightarrow> if sentinel_backoff rid h now d = None \<and> stale_at now h (list_participants fmt rid d)
       then WsCounterpartStale else WsPausedByTimeout)"

lemma run_timeout:
  assumes "get_room rid (w_db w) = Inr (Some room)" and "\<not> is_halted (r_state room)"
    and "away = (sentinel_backoff rid h (w_now w) (w_db w) \<noteq> None)"
  shows "run (timeout_response fmt rid h hnt away) w =
    Some (Inr (let s = timeout_status fmt rid h (w_now w) (w_db w)
      in WaitTimeout (as_wire s) (if s = WsPausedByTimeout then hnt else None)), w)"
  using assms
  by (auto simp: timeout_response_def run_fetch run_ok_or run_call run_predicates run_ok_fail
      timeout_status_def proposal_def Let_def split: option.split)

text \<open>After the wait loop, in the world it left.\<close>

lemma run_answer:
  assumes loop: "run (wait_for_message_until n rid h (park_time fmt st req rid h (w_now w) (w_db w))
      (wait_relevant_change fmt rid h)) w = Some (Inr outcome, v)"
    and "get_room rid (w_db v) = Inr (Some room')" and "\<not> is_halted (r_state room')"
  shows "run (wait_after_gates fmt st n rid req room h) w = Some (Inr (case outcome of
      Delivered m \<Rightarrow> WaitMessage (message_view fmt m)
        (consecutive_msg_count rid (m_seq m) (w_db v) = uint (soft_cap (config room)) - 1)
        (hint (hint_at fmt rid h (w_now v) (w_db v))) None
    | PausedByTimeout \<Rightarrow> (let s = timeout_status fmt rid h (w_now v) (w_db v)
        in WaitTimeout (as_wire s)
          (if s = WsPausedByTimeout then hint (hint_at fmt rid h (w_now v) (w_db v)) else None))), v)"
  by (auto simp: run_timeout [OF assms(2,3)] wait_after_gates_def run_call run_park_cap loop run_sentinel run_busy run_ok_fail
      deliver_response_def run_look hint_at_def Let_def split: option.split WaitOutcome.split)

lemma hub_world [simp]:
  "w_db (w\<lparr>w_hub := x\<rparr>) = w_db w" "w_now (w\<lparr>w_hub := x\<rparr>) = w_now w"
  by simp_all

lemma wait_until_delivers:
  assumes "wf_db (w_db w)" and "inbox rid h (w_db w) = m # ms"
  shows "\<exists>v. run (wait_for_message_until (Suc n) rid h timeout y) w = Some (Inr (Delivered m), v) \<and>
    inbox rid h (w_db v) = ms \<and> messages (w_db v) = messages (w_db w) \<and> rooms (w_db v) = rooms (w_db w)"
proof -
  let ?d = "touched h (w_now w) (w_db w)"
  let ?v = "w\<lparr>w_db := ?d, w_hub := snd (hub_subscribe rid (w_hub w))\<rparr>"
  have wf: "wf_db ?d" by (rule touched_wf [OF assms(1)])
  have claim: "claimable rid h (w_db ?v) = Some m"
    using claimable_first [OF wf, of rid h] assms(2) by simp
  have "reader_ok h ?d" using wf assms(2) by (auto simp: reader_ok_def inbox_def split: option.splits)
  then have rest: "inbox rid h (after_claim rid h ?d) = ms"
    using inbox_after_claim [of h ?d rid] assms(2) by simp
  have same: "messages (after_claim rid h ?d) = messages (w_db w)" "rooms (after_claim rid h ?d) = rooms (w_db w)"
    by (simp_all add: after_claim_def split: option.split)
  show ?thesis
    using run_wait_claims [OF _ claim, of n "w_mono w + timeout" y "fst (hub_subscribe rid (w_hub w))"] wf rest same
    by (simp add: run_wait_until db_ok_def)
qed

lemma wait_until_idle:
  assumes "wf_db (w_db w)" and "inbox rid h (w_db w) = []"
    and "timeout \<le> 0 \<or> (\<forall>hub. run y (w\<lparr>w_db := touched h (w_now w) (w_db w), w_hub := hub\<rparr>) =
      Some (Inr True, w\<lparr>w_db := touched h (w_now w) (w_db w), w_hub := hub\<rparr>))"
  shows "run (wait_for_message_until (Suc n) rid h timeout y) w =
    Some (Inr PausedByTimeout, w\<lparr>w_db := touched h (w_now w) (w_db w), w_hub := snd (hub_subscribe rid (w_hub w))\<rparr>)"
proof -
  let ?v = "w\<lparr>w_db := touched h (w_now w) (w_db w), w_hub := snd (hub_subscribe rid (w_hub w))\<rparr>"
  have wf: "wf_db (touched h (w_now w) (w_db w))" by (rule touched_wf [OF assms(1)])
  then have "claimable rid h (w_db ?v) = None"
    using claimable_first [OF wf, of rid h] assms(2) by simp
  then show ?thesis
    using run_wait_idle [of ?v rid h "w_mono w + timeout" y n "fst (hub_subscribe rid (w_hub w))"] wf assms(3)
    by (auto simp: run_wait_until db_ok_def)
qed

section \<open>Properties\<close>

text \<open>C14: a halted room never parks and is drained. For a paused, closed or archived room, \<open>wait\<close>
  returns at once: the first unread message, marked with the state, as long as there is one, and
  then the state. The message is consumed, the caller is stamped as live, and its park is released.\<close>

theorem wait_drains_halted_room:
  assumes "wf_db (w_db w)" and "get_room rid (w_db w) = Inr (Some room)" and "is_halted (r_state room)"
    and "resolved rid (caller_instance req) (w_db w) = Some c"
  shows "\<exists>w'. run (wait_room fmt st (Suc n) rid req) w = Some (Inr (case inbox rid (p_handle c) (w_db w) of
        [] \<Rightarrow> WaitTimeout (RoomState_as_str (r_state room)) None
      | m # _ \<Rightarrow> WaitMessage (message_view fmt m) False None (Some (RoomState_as_str (r_state room)))), w') \<and>
    inbox rid (p_handle c) (w_db w') = tl (inbox rid (p_handle c) (w_db w)) \<and>
    messages (w_db w') = messages (w_db w) \<and> rooms (w_db w') = rooms (w_db w)"
proof -
  let ?h = "p_handle c"
  let ?d = "touched ?h (w_now w) (w_db w)"
  let ?u = "w\<lparr>w_db := ?d, w_presence := enter (presence_grace st) ?h (w_mono w) (w_presence w)\<rparr>"
  let ?v = "w\<lparr>w_presence := enter (presence_grace st) ?h (w_mono w) (w_presence w), w_db := ?d,
      w_hub := snd (hub_subscribe rid (w_hub w))\<rparr>"
  have entry: "run (wait_room fmt st (Suc n) rid req) w =
      (case run (drain_halted fmt (Suc n) rid room ?h) ?u of
        None \<Rightarrow> None | Some (r, w') \<Rightarrow> Some (r, w'\<lparr>w_presence := release ?h (w_mono w') (w_presence w')\<rparr>))"
    using assms(2-4)
    by (simp add: wait_room_def run_fetch run_ok_or run_call run_resolve run_now_utc run_sql
        run_with_park touched_def)
  have wait: "run (wait_for_message (Suc n) rid ?h 0) ?u =
      run (wait_loop (Suc n) rid ?h (w_mono w) (Ret (Inr False)) (fst (hub_subscribe rid (w_hub w)))) ?v"
    unfolding wait_for_message_def run_wait_until by simp
  have wf: "wf_db ?d" by (rule touched_wf [OF assms(1)])
  then have ok: "db_ok ?v" by (simp add: db_ok_def)
  have first: "claimable rid ?h (w_db ?v) = first_row (inbox rid ?h (w_db w))"
    using claimable_first [OF wf, of rid ?h] by simp
  show ?thesis
  proof (cases "inbox rid ?h (w_db w)")
    case Nil
    with first have "claimable rid ?h (w_db ?v) = None" by simp
    from run_wait_idle [OF ok this, of "w_mono w"] wait entry Nil show ?thesis
      by (simp add: drain_halted_def run_call run_ok_fail)
  next
    case (Cons m ms)
    with first have claim: "claimable rid ?h (w_db ?v) = Some m" by simp
    have "reader_ok ?h ?d" using wf Cons by (auto simp: reader_ok_def inbox_def split: option.splits)
    then have rest: "inbox rid ?h (after_claim rid ?h ?d) = ms"
      using inbox_after_claim [of ?h ?d rid] Cons by simp
    have same: "messages (after_claim rid ?h ?d) = messages (w_db w)" "rooms (after_claim rid ?h ?d) = rooms (w_db w)"
      by (simp_all add: after_claim_def split: option.split)
    from run_wait_claims [OF ok claim] wait entry Cons rest same show ?thesis
      by (simp add: drain_halted_def run_call run_ok_fail)
  qed
qed

definition paused_mail :: World where
  "paused_mail = world_of (mail_db\<lparr>rooms := [(room_to_row sample_room)\<lparr>r_state := Paused\<rparr>],
     events := [state_row ''r'' Active Paused None 0 empty_db]\<rparr>) (seconds 5)"

theorem wait_drains_halted_room_witness:
  "\<exists>w'. run (wait_room sample_fmt AppState_new 1 ''r'' (wait_request ''b'')) paused_mail =
     Some (Inr (WaitMessage (message_view sample_fmt (mail_message 1 None)) False None (Some ''paused'')), w') \<and>
   inbox ''r'' ''repo-m-0002'' (w_db w') = [mail_message 3 (Some ''repo-m-0002'')]"
proof -
  have wf: "wf_db (w_db paused_mail)"
    by (simp add: paused_mail_def wf_db_def wf_parts mail_db_def mail_message_def sample_defs room_ids_def
        top_seq_def room_events_def count_capped_messages_def cap_counting_def room_to_row_def
        with_config_def config_to_json_def state_row_def legal_move_def empty_db_def)
  have room: "get_room ''r'' (w_db paused_mail) = Inr (Some (sample_room\<lparr>r_state := Paused\<rparr>))" by code_simp
  have halted: "is_halted (r_state (sample_room\<lparr>r_state := Paused\<rparr>))" by simp
  have caller: "resolved ''r'' (caller_instance (wait_request ''b'')) (w_db paused_mail) = Some bob" by code_simp
  have inbox: "inbox ''r'' (p_handle bob) (w_db paused_mail) =
      [mail_message 1 None, mail_message 3 (Some ''repo-m-0002'')]" by code_simp
  have h: "p_handle bob = ''repo-m-0002''" by (simp add: sample_defs)
  show ?thesis
    using wait_drains_halted_room [OF wf room halted caller, of sample_fmt AppState_new 0] inbox h by auto
qed





end
