(* ===== verification/System.thy ===== *)
theory System
  imports HttpRooms HttpWait Sweeper Samples
begin

text \<open>
  The daemon: any number of requests and the sweeper, interleaved at their awaits, with clocks that
  move and connections that drop. Every handler upholds the storage contract (the \<open>_keeps\<close> lemmas),
  so the locale \<open>rely\<close>, interpreted as \<open>server\<close>, lifts it to every reachable state.
\<close>

section \<open>The programs of the daemon\<close>

definition detach :: "(World, 'a) prog \<Rightarrow> (World, unit) prog" where
  "detach p = bind p (\<lambda>_. Ret ())"

inductive_set daemon :: "(World, unit) prog set" where
  "detach (open_room civil_of oreq) \<in> daemon"
| "detach (get_room_status fmt st rid) \<in> daemon"
| "detach (list_rooms_handler fmt state all) \<in> daemon"
| "detach (transcript fmt st rid) \<in> daemon"
| "detach (join_room fmt sess rid jreq) \<in> daemon"
| "detach (prune_room fmt rid) \<in> daemon"
| "detach (send_message fmt rid mreq) \<in> daemon"
| "detach (signal_room rid sreq) \<in> daemon"
| "detach (close_room fmt rid lreq) \<in> daemon"
| "detach (extend_room fmt rid ereq) \<in> daemon"
| "detach (pause_room rid lreq) \<in> daemon"
| "detach (wake_room rid lreq) \<in> daemon"
| "detach (wait_room fmt st n rid wreq) \<in> daemon"
| "detach (run_sweeper fmt ticks) \<in> daemon"

lemma detach_keeps: "keeps p w \<Longrightarrow> keeps (detach p) w"
  unfolding detach_def by (rule server.upholds_bind) auto

lemma daemon_keeps: "p \<in> daemon \<Longrightarrow> keeps p w"
  by (induction rule: daemon.induct)
    (auto intro: detach_keeps open_room_keeps get_room_keeps list_rooms_keeps transcript_keeps
      join_room_keeps prune_room_keeps send_message_keeps signal_room_keeps close_room_keeps
      extend_room_keeps pause_wake_keep wait_room_keeps run_sweeper_keeps)

text \<open>A run of the daemon between two moments.\<close>

abbreviation daemon_runs :: "World \<times> (World, unit) prog list \<Rightarrow> World \<times> (World, unit) prog list \<Rightarrow> bool" where
  "daemon_runs \<equiv> sys_reach ambient daemon"

lemma daemon_start: "server.pool_ok (world_of empty_db t, [])"
  by (simp add: server.pool_ok_def db_ok_def world_of_def wf_empty)

lemma daemon_reach:
  assumes "daemon_runs s t" and "server.pool_ok s"
  shows "server.pool_ok t" and "db_evolves (fst s) (fst t)"
  using server.sys_reach_ok [OF assms] daemon_keeps by blast+

lemma daemon_db:
  assumes "daemon_runs (world_of empty_db t, []) s"
  shows "wf_db (w_db (fst s))"
  using daemon_reach(1) [OF assms daemon_start] by (simp add: server.pool_ok_def db_ok_def)

section \<open>A session\<close>

text \<open>A session to evaluate the properties on: a room is opened with room for one message and joined
  by two agents, one of them posts and closes it by force.\<close>

definition sample_civil :: "time \<Rightarrow> civil" where
  "sample_civil t = \<lparr>c_year = 2026, c_month = 1, c_day = 2, c_hour = 3, c_minute = 4\<rparr>"

definition sample_open :: OpenRoomRequest where
  "sample_open = \<lparr>or_subject = ''a'', or_hard_cap = Some 1, or_soft_cap = None, or_prev_room_id = None\<rparr>"

definition sample_join :: "string \<Rightarrow> JoinRoomRequest" where
  "sample_join inst = \<lparr>q_repo = ''r'', q_model = ''m'', q_cwd = ''/w'', q_instance = inst, jr_nickname = None\<rparr>"

definition sample_send :: SendMessageRequest where
  "sample_send = \<lparr>q_repo = ''r'', q_model = ''m'', q_cwd = ''/w'', q_instance = ''x'', sm_to = None,
     sm_body = ''hi'', sm_from_human = False\<rparr>"

definition sample_close :: LifecycleRequest where
  "sample_close = \<lparr>q_repo = ''r'', q_model = ''m'', q_cwd = ''/w'', q_instance = ''x'', lr_reason = None,
     lr_force = True\<rparr>"

definition session_room :: string where
  "session_room = ''cbc-a-20260102-0304''"

definition sample_session :: "(World, unit) prog list" where
  "sample_session =
     [detach (open_room sample_civil sample_open),
      detach (join_room sample_fmt (\<lambda>_. [''0001'']) session_room (sample_join ''x'')),
      detach (join_room sample_fmt (\<lambda>_. [''0002'']) session_room (sample_join ''y'')),
      detach (send_message sample_fmt session_room sample_send)]"

definition sample_end :: "(World, unit) prog list" where
  "sample_end = [detach (close_room sample_fmt session_room sample_close)]"

lemma sample_in_daemon: "set sample_session \<subseteq> daemon" "set sample_end \<subseteq> daemon"
  by (auto simp: sample_session_def sample_end_def intro: daemon.intros)

definition summary :: "World \<Rightarrow> (string \<times> RoomState \<times> int) list \<times> int list \<times> nat" where
  "summary w = (map (\<lambda>r. (r_id r, r_state r, j_hard_cap (config r))) (rooms (w_db w)),
     map m_seq (messages (w_db w)), length (events (w_db w)))"

lemma session_result:
  "map_option summary (run_all sample_session (world_of empty_db 0)) = Some ([(session_room, Active, 1)], [1], 0)"
  by code_simp

lemma ended_result:
  "map_option (\<lambda>w. map_option summary (run_all sample_end w)) (run_all sample_session (world_of empty_db 0)) =
   Some (Some ([(session_room, Closed, 1)], [1], 1))"
  by code_simp

text \<open>The states the session passes through, with what they hold.\<close>

lemma session_reach:
  "\<exists>v w ps qs r r'. daemon_runs (world_of empty_db 0, []) (v, ps) \<and> daemon_runs (v, ps) (w, qs) \<and>
     rooms (w_db v) = [r] \<and> r_state r = Active \<and> map m_seq (messages (w_db v)) = [1] \<and>
     rooms (w_db w) = [r'] \<and> r_id r' = session_room \<and> r_state r' = Closed \<and> j_hard_cap (config r') = 1 \<and>
     length (events (w_db w)) = 1"
proof -
  obtain v where v: "run_all sample_session (world_of empty_db 0) = Some v"
    and sv: "summary v = ([(session_room, Active, 1)], [1], 0)"
    using session_result by auto
  moreover then obtain w where w: "run_all sample_end v = Some w"
    and sw: "summary w = ([(session_room, Closed, 1)], [1], 1)"
    using ended_result by auto
  ultimately obtain ps qs where "daemon_runs (world_of empty_db 0, []) (v, ps)" "daemon_runs (v, ps) (w, qs)"
    using run_all_reach [OF _ sample_in_daemon(1)] run_all_reach [OF w sample_in_daemon(2)] by blast
  with sv sw show ?thesis
    by (fastforce simp: summary_def map_eq_Cons_conv)
qed

section \<open>Properties\<close>

text \<open>C1: the hard cap. In every state the daemon can reach, under any interleaving of requests, no
  room holds more conversation messages than its hard cap, although the handler reads the cap and
  the insert that enforces it are different actions and the cap may be raised in between.\<close>

theorem hard_cap_never_exceeded:
  assumes "daemon_runs (world_of empty_db t, []) (w, ps)" and "r \<in> set (rooms (w_db w))"
  shows "count_capped_messages (r_id r) (w_db w) \<le> j_hard_cap (config r)"
  using daemon_db [OF assms(1)] assms(2) by (simp add: wf_db_def wf_caps_def)

theorem hard_cap_never_exceeded_witness:
  "\<exists>w ps r. daemon_runs (world_of empty_db 0, []) (w, ps) \<and> r \<in> set (rooms (w_db w)) \<and>
     j_hard_cap (config r) = 1 \<and> count_capped_messages (r_id r) (w_db w) \<le> 1"
proof -
  obtain v w ps qs r r' where run: "daemon_runs (world_of empty_db 0, []) (v, ps)" "daemon_runs (v, ps) (w, qs)"
    and r': "rooms (w_db w) = [r']" "j_hard_cap (config r') = 1"
    using session_reach by blast
  have reach: "daemon_runs (world_of empty_db 0, []) (w, qs)" by (rule sys_reach_trans [OF run])
  show ?thesis
    using hard_cap_never_exceeded [OF reach, of r'] reach r' by (intro exI [of _ w] exI [of _ qs] exI [of _ r']) simp
qed

text \<open>C2: the audit log. In every reachable state the events of a room, in order, are a chain of legal
  transitions from \<open>active\<close> to the state the room is in, with an \<open>archive\<close> row exactly for the move
  to \<open>archived\<close>: a state change and its row are never separated, and none is lost to a race.\<close>

theorem audit_log_explains_state:
  assumes "daemon_runs (world_of empty_db t, []) (w, ps)" and "r \<in> set (rooms (w_db w))"
  shows "audit_chain Active (room_events (r_id r) (w_db w)) (r_state r)"
  using daemon_db [OF assms(1)] assms(2) by (simp add: wf_db_def wf_events_def)

theorem audit_log_explains_state_witness:
  "\<exists>w ps r. daemon_runs (world_of empty_db 0, []) (w, ps) \<and> r \<in> set (rooms (w_db w)) \<and>
     r_state r = Closed \<and> audit_chain Active (room_events (r_id r) (w_db w)) Closed"
proof -
  obtain v w ps qs r r' where run: "daemon_runs (world_of empty_db 0, []) (v, ps)" "daemon_runs (v, ps) (w, qs)"
    and r': "rooms (w_db w) = [r']" "r_state r' = Closed"
    using session_reach by blast
  have reach: "daemon_runs (world_of empty_db 0, []) (w, qs)" by (rule sys_reach_trans [OF run])
  show ?thesis
    using audit_log_explains_state [OF reach, of r'] reach r' by (intro exI [of _ w] exI [of _ qs] exI [of _ r']) simp
qed

text \<open>C7: a closed room stays closed. Whatever requests are running, once a reachable state has a room
  in \<open>closed\<close> or \<open>archived\<close>, every later state still has that room, under the same id, in the same
  state or in \<open>archived\<close>.\<close>

theorem closed_rooms_stay_closed:
  assumes "daemon_runs (world_of empty_db t, []) s" and "daemon_runs s u"
    and "r \<in> set (rooms (w_db (fst s)))" and "is_terminal (r_state r)"
  shows "\<exists>r'\<in>set (rooms (w_db (fst u))). r_id r' = r_id r \<and> (r_state r' = r_state r \<or> r_state r' = Archived)"
proof -
  have "evolves (w_db (fst s)) (w_db (fst u))"
    using daemon_reach [OF assms(2) daemon_reach(1) [OF assms(1) daemon_start]]
    by (simp add: db_evolves_def)
  with assms(3) obtain r' where "r' \<in> set (rooms (w_db (fst u)))" "room_evolves r r'"
    unfolding evolves_def by blast
  with assms(4) show ?thesis
    by (auto simp: room_evolves_def dest: lc_steps_from_terminal)
qed

theorem closed_rooms_stay_closed_witness:
  "\<exists>s u r. daemon_runs (world_of empty_db 0, []) s \<and> daemon_runs s u \<and> r \<in> set (rooms (w_db (fst s))) \<and>
     r_state r = Closed \<and> (\<exists>r'\<in>set (rooms (w_db (fst u))). r_id r' = r_id r \<and> is_terminal (r_state r'))"
proof -
  obtain v w ps qs r r' where run: "daemon_runs (world_of empty_db 0, []) (v, ps)" "daemon_runs (v, ps) (w, qs)"
    and r': "rooms (w_db w) = [r']" "r_state r' = Closed"
    using session_reach by blast
  have reach: "daemon_runs (world_of empty_db 0, []) (w, qs)" by (rule sys_reach_trans [OF run])
  have later: "daemon_runs (w, qs) (w\<lparr>w_mono := w_mono w + 1\<rparr>, qs)"
    by (rule sys_reach.further [OF sys_reach.here], rule sys_step.env) (simp add: ambient_def)
  show ?thesis
    using closed_rooms_stay_closed [OF reach later, of r'] reach later r'
    by (intro exI [of _ "(w, qs)"] exI [of _ "(w\<lparr>w_mono := w_mono w + 1\<rparr>, qs)"] exI [of _ r']) auto
qed

text \<open>C8: the message log only grows. Between two reachable states the messages of the first are a
  prefix of those of the second; sequence numbers are positive and strictly increasing in that
  order, and every message belongs to an existing room.\<close>

theorem message_log_append_only:
  assumes "daemon_runs (world_of empty_db t, []) s" and "daemon_runs s u"
  shows "\<exists>ms. messages (w_db (fst u)) = messages (w_db (fst s)) @ ms \<and>
    sorted_wrt (<) (map m_seq (messages (w_db (fst u)))) \<and>
    list_all (\<lambda>m. 0 < m_seq m \<and> room_exists (w_db (fst u)) (m_room_id m)) (messages (w_db (fst u)))"
proof -
  have ok: "server.pool_ok s" by (rule daemon_reach(1) [OF assms(1) daemon_start])
  have "evolves (w_db (fst s)) (w_db (fst u))" and "wf_db (w_db (fst u))"
    using daemon_reach [OF assms(2) ok] by (auto simp: db_evolves_def server.pool_ok_def db_ok_def)
  then show ?thesis
    by (auto simp: evolves_def wf_db_def wf_messages_def list_all_iff room_exists_iff)
qed

theorem message_log_append_only_witness:
  "\<exists>s u. daemon_runs (world_of empty_db 0, []) s \<and> daemon_runs s u \<and>
     map m_seq (messages (w_db (fst s))) = [1] \<and>
     (\<exists>ms. messages (w_db (fst u)) = messages (w_db (fst s)) @ ms) \<and>
     sorted_wrt (<) (map m_seq (messages (w_db (fst u))))"
proof -
  obtain v w ps qs where run: "daemon_runs (world_of empty_db 0, []) (v, ps)" "daemon_runs (v, ps) (w, qs)"
    and m: "map m_seq (messages (w_db v)) = [1]"
    using session_reach by (elim exE conjE) rule
  show ?thesis
    using message_log_append_only [OF run] run m
    by (intro exI [of _ "(v, ps)"] exI [of _ "(w, qs)"]) auto
qed

end
