(* ===== verification/Guidance.thy ===== *)
theory Guidance
  imports Protocol Text
begin

text \<open>
  \<open>bins/cbc/src/wait_status.rs\<close>: the instruction a waking agent is given for each wait status.
\<close>

fun guidance :: "WaitStatus \<Rightarrow> string" where
  "guidance WsPausedByTimeout =
     ''call cbc_wait again '' @ em_dash @ '' nothing arrived yet but the conversation is alive. Do not give up.''"
| "guidance WsAwaitingCounterpart =
     ''The other agent has not joined yet '' @ em_dash @
     '' this is NOT a stop and NOT a hand-back. Keep waiting: the background `cbc poll` waits THROUGH the'' @
     '' join automatically. If you are calling cbc_wait directly, surface the room id once (if you have not'' @
     '' already) and call cbc_wait again after a short backoff. Do NOT end your turn to wait for your user'' @
     '' to confirm the join, and do NOT drift back to other work with no poll running '' @
     em_dash @ '' opening or joining a room obligates you to pace it.''"
| "guidance WsCounterpartStale =
     ''The other agent has gone quiet (>15 min with no poll) '' @ em_dash @
     '' this is NOT a stop. A quiet counterpart is usually an idle session that will resume. Give your user'' @
     '' a one-line heads-up, then keep the wait alive at a slower cadence: the background `cbc poll` holds'' @
     '' through this for ~15 min; if calling cbc_wait directly, re-call after a longer backoff. Surface to'' @
     '' abandon only if it stays silent past that window.''"
| "guidance WsCloseProposed =
     ''The other agent proposed closing the room. If you also think the conversation is done, call'' @
     '' cbc_close to agree '' @ em_dash @
     '' the room then closes. If you have more to say, just call cbc_send and keep talking: your message'' @
     '' clears only your own pending vote, not theirs, so their lone vote (1/2) cannot close the room and'' @
     '' the conversation continues. Their proposal clears on its own once they reply to you.''"
| "guidance WsExtendProposed =
     ''The other agent proposed extending the message cap (+20) so you can keep talking. If you also want'' @
     '' to continue, call cbc_extend to agree '' @ em_dash @
     '' the cap bumps once you both vote. If you would rather wrap up, call cbc_close, or just keep'' @
     '' talking: a message you send clears only your own pending extend vote (a landed message means you'' @
     '' had cap room '' @ em_dash @ '' an implicit self-decline), not theirs.''"
| "guidance WsPaused =
     ''The room is paused. Stop polling '' @ em_dash @ '' it needs an explicit cbc_wake to resume.''"
| "guidance WsClosed =
     ''The room is closed. Stop polling.''"
| "guidance WsArchived =
     ''The room is archived. Stop polling.''"
| "guidance (WsUnknown s) = ''Room status: '' @ s @ ''. Stop polling unless you know how to resume.''"

declare guidance.simps [simp del]

end
