(* ===== verification/Json.thy ===== *)
theory Json
  imports Text
begin

text \<open>
  The values of the \<open>serde_json\<close> crate as the program uses them. The workspace enables its
  \<open>preserve_order\<close> feature, so an object is the list of its members in the order they were inserted,
  and replacing the value of a key keeps its place. A number is the text it is printed as. Reading
  and printing JSON text belongs to the crate; both are arguments of the definitions that need them.
\<close>

datatype json =
    JNull | JBool bool | JNum string | JStr string
  | JArr "json list" | JObj "(string \<times> json) list"

section \<open>Ordered maps\<close>

text \<open>What the editing of an object relies on.\<close>

locale ordered_map =
  fixes lookup :: "'k \<Rightarrow> 'm \<Rightarrow> 'v option"
    and insert_at :: "'k \<Rightarrow> 'v \<Rightarrow> 'm \<Rightarrow> 'm"
    and keys_of :: "'m \<Rightarrow> 'k list"
  assumes lookup_insert: "lookup k (insert_at k' v m) = (if k = k' then Some v else lookup k m)"
    and keys_insert: "keys_of (insert_at k v m) = (if lookup k m = None then keys_of m @ [k] else keys_of m)"
begin

lemma others_untouched: "k \<noteq> k' \<Longrightarrow> lookup k (insert_at k' v m) = lookup k m"
  by (simp add: lookup_insert)

lemma inserted: "lookup k (insert_at k v m) = Some v"
  by (simp add: lookup_insert)

lemma keys_prefix: "\<exists>new. keys_of (insert_at k v m) = keys_of m @ new"
  by (simp add: keys_insert)

end

fun obj_get :: "string \<Rightarrow> (string \<times> json) list \<Rightarrow> json option" where
  "obj_get k [] = None"
| "obj_get k ((k', v) # m) = (if k' = k then Some v else obj_get k m)"

fun obj_insert :: "string \<Rightarrow> json \<Rightarrow> (string \<times> json) list \<Rightarrow> (string \<times> json) list" where
  "obj_insert k v [] = [(k, v)]"
| "obj_insert k v ((k', v') # m) = (if k' = k then (k, v) # m else (k', v') # obj_insert k v m)"

lemma obj_get_insert: "obj_get k (obj_insert k' v m) = (if k = k' then Some v else obj_get k m)"
  by (induction m) auto

lemma obj_keys_insert:
  "map fst (obj_insert k v m) = (if obj_get k m = None then map fst m @ [k] else map fst m)"
  by (induction m) (auto split: if_splits)

interpretation json_object: ordered_map obj_get obj_insert "map fst"
  by unfold_locales (auto simp: obj_get_insert obj_keys_insert)

lemma obj_insert_same: "obj_get k m = Some v \<Longrightarrow> obj_insert k v m = m"
  by (induction m) (auto split: if_splits)

text \<open>\<open>entry(k).or_insert_with(v)\<close>: the value to work on; writing it back is \<open>obj_insert\<close>.\<close>

definition obj_entry_or :: "string \<Rightarrow> json \<Rightarrow> (string \<times> json) list \<Rightarrow> json" where
  "obj_entry_or k v m = (case obj_get k m of None \<Rightarrow> v | Some x \<Rightarrow> x)"

section \<open>Reading values\<close>

text \<open>\<open>Value::get\<close> with a key, and the \<open>as_\<close> accessors.\<close>

fun get_member :: "string \<Rightarrow> json \<Rightarrow> json option" where
  "get_member k (JObj m) = obj_get k m"
| "get_member k _ = None"

fun as_str :: "json \<Rightarrow> string option" where
  "as_str (JStr s) = Some s"
| "as_str _ = None"

fun as_bool :: "json \<Rightarrow> bool option" where
  "as_bool (JBool b) = Some b"
| "as_bool _ = None"

fun as_array :: "json \<Rightarrow> json list option" where
  "as_array (JArr xs) = Some xs"
| "as_array _ = None"

fun as_object :: "json \<Rightarrow> (string \<times> json) list option" where
  "as_object (JObj m) = Some m"
| "as_object _ = None"

definition and_then :: "'a option \<Rightarrow> ('a \<Rightarrow> 'b option) \<Rightarrow> 'b option" where
  "and_then x f = (case x of None \<Rightarrow> None | Some a \<Rightarrow> f a)"

lemma and_then_simps [simp]: "and_then None f = None" "and_then (Some a) f = f a"
  by (simp_all add: and_then_def)

lemma as_str_iff [simp]: "as_str v = Some s \<longleftrightarrow> v = JStr s"
  by (cases v) auto

section \<open>Writing values\<close>

definition json_of_option :: "('a \<Rightarrow> json) \<Rightarrow> 'a option \<Rightarrow> json" where
  "json_of_option f x = (case x of None \<Rightarrow> JNull | Some a \<Rightarrow> f a)"

definition show_int :: "int \<Rightarrow> string" where
  "show_int i = (if i < 0 then ''-'' @ show_nat (nat (- i)) else show_nat (nat i))"

end
