(* ===== verification/Poll.thy ===== *)
theory Poll
  imports Guidance Json
begin

text \<open>
  \<open>cbc poll\<close> of \<open>bins/cbc/src/main.rs\<close>: the decision taken on each answer of a wait, the loop around
  it with its sleeps and retries, and what it prints. What the loop does is a list of effects. The
  answers of the server are an argument, a stream: the \<open>i\<close>-th call gets the \<open>i\<close>-th answer, an error
  text or a response.
\<close>

type_synonym u64 = "64 word"

section \<open>Bounds and cadence\<close>

definition SAFE_JOIN_WAIT_CAP_SECS :: u64 where "SAFE_JOIN_WAIT_CAP_SECS = 3600"
definition QUIET_ESCALATE_AFTER_SECS :: u64 where "QUIET_ESCALATE_AFTER_SECS = 1800"
definition QUIET_BACKOFF_CAP_SECS :: u64 where "QUIET_BACKOFF_CAP_SECS = 60"
definition MIN_REPOLL_SLEEP_SECS :: u64 where "MIN_REPOLL_SLEEP_SECS = 1"
definition MIN_BACKOFF_SECS :: u64 where "MIN_BACKOFF_SECS = 1"
definition MAX_CONSECUTIVE_ERRORS :: u32 where "MAX_CONSECUTIVE_ERRORS = 5"

lemmas poll_constants = SAFE_JOIN_WAIT_CAP_SECS_def QUIET_ESCALATE_AFTER_SECS_def
  QUIET_BACKOFF_CAP_SECS_def MIN_REPOLL_SLEEP_SECS_def MIN_BACKOFF_SECS_def MAX_CONSECUTIVE_ERRORS_def

definition effective_max_join_wait :: "u64 \<Rightarrow> u64" where
  "effective_max_join_wait secs =
     (if secs = 0 \<or> SAFE_JOIN_WAIT_CAP_SECS < secs then SAFE_JOIN_WAIT_CAP_SECS else secs)"

definition quiet_backoff :: "u64 \<Rightarrow> u64 \<Rightarrow> u64" where
  "quiet_backoff base elapsed_quiet_secs =
     (let secs = (if elapsed_quiet_secs < QUIET_ESCALATE_AFTER_SECS then base
                  else max base QUIET_BACKOFF_CAP_SECS)
      in max secs MIN_BACKOFF_SECS)"

section \<open>The decision\<close>

record PollState =
  max_polls :: u32
  join_backoff_secs :: u64
  max_join_wait_secs :: u64
  stale_backoff_secs :: u64
  max_stale_wait_secs :: u64
  empty_polls :: u32
  join_wait_secs :: u64
  stale_wait_secs :: u64
  stale_announced :: bool

definition PollState_new :: "u32 \<Rightarrow> u64 \<Rightarrow> u64 \<Rightarrow> u64 \<Rightarrow> u64 \<Rightarrow> PollState" where
  "PollState_new polls join_backoff max_join stale_backoff max_stale =
     \<lparr>max_polls = polls, join_backoff_secs = max join_backoff MIN_BACKOFF_SECS,
      max_join_wait_secs = max_join, stale_backoff_secs = max stale_backoff MIN_BACKOFF_SECS,
      max_stale_wait_secs = max_stale, empty_polls = 0, join_wait_secs = 0, stale_wait_secs = 0,
      stale_announced = False\<rparr>"

definition clear_stale :: "PollState \<Rightarrow> PollState" where
  "clear_stale st = st\<lparr>stale_wait_secs := 0, stale_announced := False\<rparr>"

datatype PollAction =
    Deliver | ExitStatus | GiveUpEmpty | GiveUpJoin | GiveUpStale
  | KeepWaiting (kw_secs: u64) (kw_announce_stale: bool)

definition paused_step :: "u32 option \<Rightarrow> PollState \<Rightarrow> PollAction \<times> PollState" where
  "paused_step retry_after st =
     (let st = clear_stale st; st = st\<lparr>empty_polls := empty_polls st + 1\<rparr>
      in if max_polls st \<noteq> 0 \<and> max_polls st \<le> empty_polls st then (GiveUpEmpty, st)
         else (KeepWaiting (max (case retry_after of None \<Rightarrow> 0 | Some s \<Rightarrow> ucast s) MIN_REPOLL_SLEEP_SECS) False, st))"

definition awaiting_step :: "PollState \<Rightarrow> PollAction \<times> PollState" where
  "awaiting_step st =
     (if max_join_wait_secs st \<noteq> 0 \<and> max_join_wait_secs st \<le> join_wait_secs st then (GiveUpJoin, st)
      else (let secs = quiet_backoff (join_backoff_secs st) (join_wait_secs st)
            in (KeepWaiting secs False, st\<lparr>join_wait_secs := join_wait_secs st + secs\<rparr>)))"

definition stale_step :: "PollState \<Rightarrow> PollAction \<times> PollState" where
  "stale_step st =
     (if max_stale_wait_secs st \<noteq> 0 \<and> max_stale_wait_secs st \<le> stale_wait_secs st then (GiveUpStale, st)
      else (let announce = \<not> stale_announced st;
                secs = quiet_backoff (stale_backoff_secs st) (stale_wait_secs st)
            in (KeepWaiting secs announce,
                st\<lparr>stale_wait_secs := stale_wait_secs st + secs, stale_announced := True\<rparr>)))"

definition poll_decision :: "WaitResponse \<Rightarrow> PollState \<Rightarrow> PollAction \<times> PollState" where
  "poll_decision resp st = (case resp of
       WaitMessage _ _ _ _ \<Rightarrow> (Deliver, clear_stale st)
     | WaitTimeout status retry_after \<Rightarrow> (case from_wire status of
           WsPausedByTimeout \<Rightarrow> paused_step retry_after st
         | WsAwaitingCounterpart \<Rightarrow> awaiting_step st
         | WsCounterpartStale \<Rightarrow> stale_step st
         | WsCloseProposed \<Rightarrow> (ExitStatus, st)
         | WsExtendProposed \<Rightarrow> (ExitStatus, st)
         | WsPaused \<Rightarrow> (ExitStatus, st)
         | WsClosed \<Rightarrow> (ExitStatus, st)
         | WsArchived \<Rightarrow> (ExitStatus, st)
         | WsUnknown _ \<Rightarrow> (ExitStatus, st)))"

section \<open>Printing\<close>

datatype Effect = Out string | Err string | Sleep u64

definition println :: "string \<Rightarrow> Effect" where
  "println s = Out (s @ [newline])"

definition eprintln :: "string \<Rightarrow> Effect" where
  "eprintln s = Err (s @ [newline])"

definition show_u64 :: "u64 \<Rightarrow> string" where
  "show_u64 n = show_nat (unat n)"

definition or_all :: "string option \<Rightarrow> string" where
  "or_all to = (case to of None \<Rightarrow> ''all'' | Some h \<Rightarrow> h)"

definition POLL_REGROUND_NEXT :: string where
  "POLL_REGROUND_NEXT =
     ''next: re-ground before you reply '' @ em_dash @
     '' call cbc_recap to re-read the whole room, and re-verify any status claims against git/gh. Do not'' @
     '' recap from memory.''"

text \<open>The wire form of a message, member by member.\<close>

definition message_json :: "MessageView \<Rightarrow> json" where
  "message_json m = JObj
     [(''seq'', JNum (show_int (mv_seq m))), (''from'', JStr (mv_from m)),
      (''to'', json_of_option JStr (mv_to m)), (''body'', JStr (mv_body m)),
      (''created_at'', JStr (mv_created_at m)), (''type'', JStr (mv_msg_type m)),
      (''severity'', json_of_option JStr (mv_severity m)),
      (''question_text'', json_of_option JStr (mv_question_text m))]"

definition print_message_human :: "MessageView \<Rightarrow> bool \<Rightarrow> string option \<Rightarrow> Effect list" where
  "print_message_human m surface_to_user room_state =
     (case room_state of None \<Rightarrow> [] | Some rs \<Rightarrow> [println (
        ''[room '' @ rs @ ''] delivered from a '' @ rs @ '' room '' @ em_dash @
     '' read it; you cannot just reply. Keep waiting/polling to drain any remaining backlog until you get'' @
     '' status '' @ rs @ ''.'')]) @
     [println (''From: '' @ mv_from m), println (''To:   '' @ or_all (mv_to m))] @
     (if mv_msg_type m \<noteq> ''msg'' then
        [println (''Signal: '' @ mv_msg_type m @
           (case mv_severity m of None \<Rightarrow> [] | Some sev \<Rightarrow> '' ('' @ sev @ '')''))] @
        (case mv_question_text m of None \<Rightarrow> [] | Some q \<Rightarrow> [println (''Asking its user: '' @ q)]) @
        (if mv_msg_type m = ''extend'' \<and> mv_body m \<noteq> [] then [println (mv_body m)] else [])
      else [println (''Body: '' @ mv_body m)]) @
     (if surface_to_user then [println [], println (
        ''[soft cap] Consecutive autonomous turns hit the soft cap. Consult your user and send the next turn'' @
     '' with --human.'')]
      else [])"

definition print_backoff :: "u32 option \<Rightarrow> Effect list" where
  "print_backoff retry_after = (case retry_after of None \<Rightarrow> []
     | Some secs \<Rightarrow> [println (
         ''[backoff] Counterpart is engaged (paused or composing); wait ~'' @ show_u32 secs @ ''s before re-polling.'')])"

definition emit_poll_message ::
  "(json \<Rightarrow> string) \<Rightarrow> MessageView \<Rightarrow> bool \<Rightarrow> u32 option \<Rightarrow> string option \<Rightarrow> bool \<Rightarrow> Effect list" where
  "emit_poll_message to_string m surface_to_user retry_after room_state as_json =
     (if as_json then [println (to_string (JObj
        [(''event'', JStr ''message''), (''message'', message_json m), (''surface_to_user'', JBool surface_to_user),
         (''retry_after'', json_of_option (\<lambda>n. JNum (show_u32 n)) retry_after),
         (''room_state'', json_of_option JStr room_state), (''next'', JStr POLL_REGROUND_NEXT)]))]
      else print_message_human m surface_to_user room_state @ print_backoff retry_after @
        [println POLL_REGROUND_NEXT])"

definition emit_poll_status :: "(json \<Rightarrow> string) \<Rightarrow> string \<Rightarrow> bool \<Rightarrow> Effect list" where
  "emit_poll_status to_string status as_json =
     (let advice = guidance (from_wire status)
      in if as_json then [println (to_string (JObj
           [(''event'', JStr ''status''), (''status'', JStr status), (''next'', JStr advice)]))]
         else [println status, println advice])"

definition emit_poll_giveup :: "(json \<Rightarrow> string) \<Rightarrow> u32 \<Rightarrow> bool \<Rightarrow> Effect list" where
  "emit_poll_giveup to_string polls as_json =
     (if as_json then [println (to_string (JObj
        [(''event'', JStr ''gave_up''), (''polls'', JNum (show_u32 polls)), (''next'', JStr (
           ''Gave up after the poll bound with no message; the conversation is still alive '' @
     em_dash @ '' relaunch cbc poll to keep waiting.''))]))]
      else [println (''Gave up after '' @ show_u32 polls @
        '' empty poll(s) with no message. The conversation is still alive '' @ em_dash @
     '' relaunch cbc poll to keep waiting.'')])"

definition JOIN_GUIDANCE :: string where
  "JOIN_GUIDANCE =
     ''Still waiting '' @ em_dash @
     '' no counterpart has joined in about an hour, but the room is still OPEN, not dead. Re-surface the'' @
     '' room id to your user and confirm they pasted it to the other agent, then relaunch cbc poll to keep'' @
     '' holding. A give-up here means '' @ [CHR 0x22] @ ''relaunch me,'' @ [CHR 0x22] @
     '' never '' @ [CHR 0x22] @ ''abandon the room.'' @ [CHR 0x22]"

definition emit_poll_join_giveup :: "(json \<Rightarrow> string) \<Rightarrow> u64 \<Rightarrow> bool \<Rightarrow> Effect list" where
  "emit_poll_join_giveup to_string waited_secs as_json =
     (if as_json then [println (to_string (JObj
        [(''event'', JStr ''awaiting_counterpart_still_waiting''),
         (''waited_secs'', JNum (show_u64 waited_secs)), (''next'', JStr JOIN_GUIDANCE)]))]
      else [println (''Still no counterpart after about an hour ('' @ show_u64 waited_secs @
              ''s) '' @ em_dash @ '' the room is still open.''),
            println JOIN_GUIDANCE])"

definition emit_poll_stale_heads_up :: "u64 \<Rightarrow> Effect list" where
  "emit_poll_stale_heads_up hold_secs =
     [eprintln (if hold_secs = 0 then
        ''[counterpart quiet] The other agent has gone silent (>15 min). Holding the line at a slower cadence '' @
     em_dash @ '' not a stop. No action needed; the poll keeps waiting.''
      else
        ''[counterpart quiet] The other agent has gone silent (>15 min). Holding the line at a slower cadence'' @
     '' for up to ~'' @
        show_u64 hold_secs @ ''s before surfacing '' @ em_dash @ '' not a stop. No action needed; the poll keeps waiting.'')]"

definition STALE_GUIDANCE :: string where
  "STALE_GUIDANCE =
     ''Still waiting '' @ em_dash @
     '' nothing happened in about an hour. The room is still OPEN, not dead: a quiet counterpart is usually'' @
     '' an idle session that resumes. Give your user a one-line heads-up and relaunch cbc poll to keep'' @
     '' holding (or move on if you must). A give-up here means '' @ [CHR 0x22] @ ''relaunch me,'' @
     [CHR 0x22] @ '' never '' @ [CHR 0x22] @ ''abandon the room.'' @ [CHR 0x22]"

definition emit_poll_stale_giveup :: "(json \<Rightarrow> string) \<Rightarrow> u64 \<Rightarrow> bool \<Rightarrow> Effect list" where
  "emit_poll_stale_giveup to_string waited_secs as_json =
     (if as_json then [println (to_string (JObj
        [(''event'', JStr ''counterpart_quiet_still_waiting''),
         (''waited_secs'', JNum (show_u64 waited_secs)), (''next'', JStr STALE_GUIDANCE)]))]
      else [println (''Still waiting after holding '' @ show_u64 waited_secs @
              ''s '' @ em_dash @ '' nothing happened in about an hour.''),
            println STALE_GUIDANCE])"

section \<open>The loop\<close>

definition wait_errors :: "u32 \<Rightarrow> string \<Rightarrow> string" where
  "wait_errors n e = ''poll: giving up after '' @ show_u32 n @ '' consecutive wait errors: '' @ e"

text \<open>What is printed when the loop stops on a response.\<close>

definition final_output ::
  "(json \<Rightarrow> string) \<Rightarrow> bool \<Rightarrow> WaitResponse \<Rightarrow> PollAction \<Rightarrow> PollState \<Rightarrow> Effect list" where
  "final_output to_string as_json resp action st = (case action of
       Deliver \<Rightarrow> (case resp of
           WaitMessage m surface retry rs \<Rightarrow> emit_poll_message to_string m surface retry rs as_json
         | WaitTimeout _ _ \<Rightarrow> [])
     | ExitStatus \<Rightarrow> (case resp of
           WaitTimeout status _ \<Rightarrow> emit_poll_status to_string status as_json
         | WaitMessage _ _ _ _ \<Rightarrow> [])
     | GiveUpEmpty \<Rightarrow> emit_poll_giveup to_string (empty_polls st) as_json
     | GiveUpJoin \<Rightarrow> emit_poll_join_giveup to_string (join_wait_secs st) as_json
     | GiveUpStale \<Rightarrow> emit_poll_stale_giveup to_string (stale_wait_secs st) as_json
     | KeepWaiting _ _ \<Rightarrow> [])"

fun poll_loop ::
  "nat \<Rightarrow> (json \<Rightarrow> string) \<Rightarrow> (nat \<Rightarrow> string + WaitResponse) \<Rightarrow> u64 \<Rightarrow> bool \<Rightarrow> nat \<Rightarrow> u32 \<Rightarrow> PollState \<Rightarrow>
   (Effect list \<times> (string + unit)) option" where
  "poll_loop 0 to_string answer error_backoff as_json i errors st = None"
| "poll_loop (Suc n) to_string answer error_backoff as_json i errors st = (case answer i of
       Inl e \<Rightarrow>
         (if MAX_CONSECUTIVE_ERRORS \<le> errors + 1 then Some ([], Inl (wait_errors (errors + 1) e))
          else map_option (\<lambda>(es, r). (Sleep error_backoff # es, r))
            (poll_loop n to_string answer error_backoff as_json (Suc i) (errors + 1) st))
     | Inr resp \<Rightarrow> (case poll_decision resp st of
           (KeepWaiting secs announce_stale, st') \<Rightarrow>
             map_option (\<lambda>(es, r).
                 ((if announce_stale then emit_poll_stale_heads_up (max_stale_wait_secs st') else []) @
                  Sleep secs # es, r))
               (poll_loop n to_string answer error_backoff as_json (Suc i) 0 st')
         | (action, st') \<Rightarrow> Some (final_output to_string as_json resp action st', Inr ())))"

definition poll_until_event ::
  "nat \<Rightarrow> (json \<Rightarrow> string) \<Rightarrow> (nat \<Rightarrow> string + WaitResponse) \<Rightarrow> u32 \<Rightarrow> u64 \<Rightarrow> u64 \<Rightarrow> u64 \<Rightarrow> u64 \<Rightarrow> u64 \<Rightarrow> bool \<Rightarrow>
   (Effect list \<times> (string + unit)) option" where
  "poll_until_event n to_string answer polls error_backoff join_backoff max_join stale_backoff max_stale as_json =
     poll_loop n to_string answer error_backoff as_json 0 0
       (PollState_new polls join_backoff max_join stale_backoff max_stale)"

declare poll_loop.simps [simp del]

end
