(* ===== verification/PollSpec.thy ===== *)
theory PollSpec
  imports Poll
begin

text \<open>
  What \<open>cbc poll\<close> promises: it always returns when all three bounds are set, it prints exactly one
  event and only at its end, and it holds a quiet room for the time it was told to.
\<close>

section \<open>Every waiting step uses up some budget\<close>

definition quiet_ok :: "u64 \<Rightarrow> u64 \<Rightarrow> bool" where
  "quiet_ok limit base \<longleftrightarrow> limit \<noteq> 0 \<and> unat limit + max (unat base) 60 < 2 ^ 64"

text \<open>All bounds are set, and the arithmetic on seconds does not leave \<open>u64\<close>.\<close>

definition bounded :: "PollState \<Rightarrow> bool" where
  "bounded st \<longleftrightarrow> empty_polls st < max_polls st \<and>
     quiet_ok (max_join_wait_secs st) (join_backoff_secs st) \<and>
     quiet_ok (max_stale_wait_secs st) (stale_backoff_secs st)"

definition budget :: "PollState \<Rightarrow> nat" where
  "budget st =
     (unat (max_polls st) - unat (empty_polls st)) * (unat (max_stale_wait_secs st) + 1) +
     (unat (max_stale_wait_secs st) - unat (stale_wait_secs st)) +
     (unat (max_join_wait_secs st) - unat (join_wait_secs st))"

lemma unat_max: "unat (max a b) = max (unat a) (unat b)"
  by (simp add: max_def word_le_nat_alt)

lemma quiet_backoff_nat:
  "unat (quiet_backoff base t) = (if unat t < 1800 then max (unat base) 1 else max (unat base) 60)"
  by (auto simp: quiet_backoff_def poll_constants unat_max word_less_nat_alt Let_def)

lemma quiet_adds:
  assumes "quiet_ok limit base" and "t < limit"
  shows "unat (t + quiet_backoff base t) = unat t + unat (quiet_backoff base t)"
    and "unat t < unat (t + quiet_backoff base t)"
proof -
  have "unat t + unat (quiet_backoff base t) < 2 ^ 64"
    using assms by (auto simp: quiet_ok_def quiet_backoff_nat word_less_nat_alt)
  then show *: "unat (t + quiet_backoff base t) = unat t + unat (quiet_backoff base t)"
    using unat_add_lem [where x = t and y = "quiet_backoff base t"] by simp
  show "unat t < unat (t + quiet_backoff base t)" unfolding * by (simp add: quiet_backoff_nat less_max_iff_disj)
qed

lemma paused_progress:
  assumes "paused_step retry st = (KeepWaiting secs announce, st')" and "bounded st"
  shows "bounded st' \<and> budget st' < budget st"
proof -
  let ?e = "empty_polls st"
  have less: "unat ?e < unat (max_polls st)" using assms(2) by (simp add: bounded_def word_less_nat_alt)
  then have e: "unat (?e + 1) = unat ?e + 1"
  proof -
    have "unat (max_polls st) < 2 ^ 32" using unsigned_less [of "max_polls st"] by simp
    with less show ?thesis using unat_add_lem [where x = ?e and y = 1] by simp
  qed
  have st': "st' = (clear_stale st)\<lparr>empty_polls := ?e + 1\<rparr>" and on: "\<not> max_polls st \<le> ?e + 1"
    using assms by (auto simp: paused_step_def Let_def clear_stale_def bounded_def split: if_splits)
  have "unat (max_polls st) - unat ?e = Suc (unat (max_polls st) - unat (?e + 1))"
    using less e by simp
  then have "budget st' < budget st"
    by (simp add: budget_def st' clear_stale_def)
  moreover have "bounded st'" using assms(2) on by (simp add: bounded_def st' clear_stale_def)
  ultimately show ?thesis by simp
qed

lemma awaiting_progress:
  assumes "awaiting_step st = (KeepWaiting secs announce, st')" and "bounded st"
  shows "bounded st' \<and> budget st' < budget st"
proof -
  let ?j = "join_wait_secs st" and ?q = "quiet_backoff (join_backoff_secs st) (join_wait_secs st)"
  have ok: "quiet_ok (max_join_wait_secs st) (join_backoff_secs st)" using assms(2) by (simp add: bounded_def)
  then have st': "st' = st\<lparr>join_wait_secs := ?j + ?q\<rparr>" and on: "?j < max_join_wait_secs st"
    using assms by (auto simp: awaiting_step_def Let_def quiet_ok_def split: if_splits)
  have "unat ?j < unat (?j + ?q)" by (rule quiet_adds(2) [OF ok on])
  with on have "budget st' < budget st" by (simp add: budget_def st' word_less_nat_alt)
  with assms(2) show ?thesis by (simp add: bounded_def st')
qed

lemma stale_progress:
  assumes "stale_step st = (KeepWaiting secs announce, st')" and "bounded st"
  shows "bounded st' \<and> budget st' < budget st"
proof -
  let ?s = "stale_wait_secs st" and ?q = "quiet_backoff (stale_backoff_secs st) (stale_wait_secs st)"
  have ok: "quiet_ok (max_stale_wait_secs st) (stale_backoff_secs st)" using assms(2) by (simp add: bounded_def)
  then have st': "st' = st\<lparr>stale_wait_secs := ?s + ?q, stale_announced := True\<rparr>" and on: "?s < max_stale_wait_secs st"
    using assms by (auto simp: stale_step_def Let_def quiet_ok_def split: if_splits)
  have "unat ?s < unat (?s + ?q)" by (rule quiet_adds(2) [OF ok on])
  with on have "budget st' < budget st" by (simp add: budget_def st' word_less_nat_alt)
  with assms(2) show ?thesis by (simp add: bounded_def st')
qed

lemma decision_progress:
  assumes "poll_decision resp st = (KeepWaiting secs announce, st')" and "bounded st"
  shows "bounded st' \<and> budget st' < budget st"
  using assms paused_progress awaiting_progress stale_progress
  by (cases resp) (auto simp: poll_decision_def split: WaitStatus.splits)

lemma poll_loop_returns:
  assumes "bounded st" and "unat errors < 5" and "5 * budget st + (5 - unat errors) \<le> n"
  shows "\<exists>r. poll_loop n js answer eb as_json i errors st = Some r"
  using assms
proof (induction n arbitrary: i errors st)
  case (Suc n)
  have add: "unat (errors + 1) = unat errors + 1"
    using unat_add_lem [where x = errors and y = 1] Suc.prems(2) by simp
  show ?case
  proof (cases "answer i")
    case (Inl e)
    show ?thesis
    proof (cases "MAX_CONSECUTIVE_ERRORS \<le> errors + 1")
      case False
      then have "unat (errors + 1) < 5" by (simp add: poll_constants word_le_nat_alt)
      with Suc.IH [of st "errors + 1" "Suc i"] Suc.prems add obtain r where
        "poll_loop n js answer eb as_json (Suc i) (errors + 1) st = Some r" by fastforce
      with Inl False show ?thesis by (cases r) (simp add: poll_loop.simps)
    qed (simp add: poll_loop.simps Inl)
  next
    case (Inr resp)
    obtain action st' where dec: "poll_decision resp st = (action, st')" by force
    show ?thesis
    proof (cases action)
      case (KeepWaiting secs announce)
      with dec decision_progress Suc.prems(1) have "bounded st'" "budget st' < budget st" by blast+
      with Suc.IH [of st' 0 "Suc i"] Suc.prems obtain r where
        "poll_loop n js answer eb as_json (Suc i) 0 st' = Some r" by fastforce
      with Inr dec KeepWaiting show ?thesis by (cases r) (simp add: poll_loop.simps)
    qed (simp_all add: poll_loop.simps Inr dec)
  qed
qed simp

section \<open>One event, at the end\<close>

text \<open>A status that the loop waits through.\<close>

definition waits_through :: "string \<Rightarrow> bool" where
  "waits_through status \<longleftrightarrow> from_wire status \<in> {WsPausedByTimeout, WsAwaitingCounterpart, WsCounterpartStale}"

fun waits_on :: "string + WaitResponse \<Rightarrow> bool" where
  "waits_on (Inl e) = True"
| "waits_on (Inr (WaitMessage m s r rs)) = False"
| "waits_on (Inr (WaitTimeout status r)) = waits_through status"

fun silent :: "Effect \<Rightarrow> bool" where
  "silent (Out s) = False"
| "silent _ = True"

text \<open>What ends a poll with the bounds of \<open>st\<close> and what it then prints.\<close>

fun ends_on ::
  "(json \<Rightarrow> string) \<Rightarrow> bool \<Rightarrow> PollState \<Rightarrow> string + WaitResponse \<Rightarrow> Effect list \<Rightarrow> bool" where
  "ends_on js as_json st (Inl e) out = False"
| "ends_on js as_json st (Inr (WaitMessage m s r rs)) out = (out = emit_poll_message js m s r rs as_json)"
| "ends_on js as_json st (Inr (WaitTimeout status r)) out =
     (case from_wire status of
        WsPausedByTimeout \<Rightarrow> \<exists>n. max_polls st \<noteq> 0 \<and> max_polls st \<le> n \<and> out = emit_poll_giveup js n as_json
      | WsAwaitingCounterpart \<Rightarrow> \<exists>w. max_join_wait_secs st \<noteq> 0 \<and> max_join_wait_secs st \<le> w \<and>
          out = emit_poll_join_giveup js w as_json
      | WsCounterpartStale \<Rightarrow> \<exists>w. max_stale_wait_secs st \<noteq> 0 \<and> max_stale_wait_secs st \<le> w \<and>
          out = emit_poll_stale_giveup js w as_json
      | _ \<Rightarrow> out = emit_poll_status js status as_json)"

definition same_bounds :: "PollState \<Rightarrow> PollState \<Rightarrow> bool" where
  "same_bounds a b \<longleftrightarrow> max_polls a = max_polls b \<and> max_join_wait_secs a = max_join_wait_secs b \<and>
     max_stale_wait_secs a = max_stale_wait_secs b"

lemma ends_on_same: "same_bounds a b \<Longrightarrow> ends_on js as_json a r out = ends_on js as_json b r out"
  by (induction js as_json a r out rule: ends_on.induct) (auto simp: same_bounds_def split: WaitStatus.splits)

lemmas step_defs = paused_step_def awaiting_step_def stale_step_def Let_def clear_stale_def

lemma decision_waits:
  assumes "poll_decision resp st = (KeepWaiting secs announce, st')"
  shows "waits_on (Inr resp) \<and> same_bounds st' st"
  using assms
  by (cases resp) (auto simp: poll_decision_def waits_through_def same_bounds_def step_defs
      split: WaitStatus.splits if_splits)

lemma decision_ends:
  assumes "poll_decision resp st = (action, st')" and "\<And>s a. action \<noteq> KeepWaiting s a"
  shows "ends_on js as_json st (Inr resp) (final_output js as_json resp action st')"
  using assms
  by (cases resp) (auto simp: poll_decision_def final_output_def step_defs split: WaitStatus.splits if_splits)

lemma silent_heads_up: "list_all silent (emit_poll_stale_heads_up s)"
  by (simp add: emit_poll_stale_heads_up_def eprintln_def)

text \<open>How a run that started at answer \<open>i\<close> with \<open>errors\<close> failures in a row ended.\<close>

definition run_shape ::
  "(json \<Rightarrow> string) \<Rightarrow> bool \<Rightarrow> (nat \<Rightarrow> string + WaitResponse) \<Rightarrow> PollState \<Rightarrow> nat \<Rightarrow> nat \<Rightarrow> Effect list \<Rightarrow>
   string + unit \<Rightarrow> bool" where
  "run_shape js as_json answer st i errors effects result \<longleftrightarrow>
     (\<exists>k\<ge>i. \<exists>quiet out. effects = quiet @ out \<and> list_all silent quiet \<and>
        (\<forall>l. i \<le> l \<and> l < k \<longrightarrow> waits_on (answer l)) \<and>
        (case result of
           Inr _ \<Rightarrow> ends_on js as_json st (answer k) out
         | Inl x \<Rightarrow> out = [] \<and> (\<exists>e. answer k = Inl e \<and> x = wait_errors 5 e) \<and> i + 5 \<le> k + errors + 1 \<and>
             (\<forall>l. i \<le> l \<and> l \<le> k \<and> k < l + 5 \<longrightarrow> (\<exists>e. answer l = Inl e))))"

lemma run_shape_wait:
  assumes "run_shape js as_json answer st' (Suc i) 0 effects result" and "same_bounds st' st"
    and "waits_on (answer i)" and "list_all silent quiet"
  shows "run_shape js as_json answer st i errors (quiet @ effects) result"
proof -
  obtain k q out where k: "Suc i \<le> k" "effects = q @ out" "list_all silent q"
      "\<forall>l. Suc i \<le> l \<and> l < k \<longrightarrow> waits_on (answer l)"
    and r: "case result of Inr _ \<Rightarrow> ends_on js as_json st' (answer k) out
       | Inl x \<Rightarrow> out = [] \<and> (\<exists>e. answer k = Inl e \<and> x = wait_errors 5 e) \<and> Suc i + 5 \<le> k + 0 + 1 \<and>
           (\<forall>l. Suc i \<le> l \<and> l \<le> k \<and> k < l + 5 \<longrightarrow> (\<exists>e. answer l = Inl e))"
    using assms(1) unfolding run_shape_def by blast
  have "\<forall>l. i \<le> l \<and> l < k \<longrightarrow> waits_on (answer l)"
    using k(4) assms(3) by (metis Suc_leI le_neq_implies_less)
  moreover have "case result of Inr _ \<Rightarrow> ends_on js as_json st (answer k) out
       | Inl x \<Rightarrow> out = [] \<and> (\<exists>e. answer k = Inl e \<and> x = wait_errors 5 e) \<and> i + 5 \<le> k + errors + 1 \<and>
           (\<forall>l. i \<le> l \<and> l \<le> k \<and> k < l + 5 \<longrightarrow> (\<exists>e. answer l = Inl e))"
  proof (cases result)
    case (Inl x)
    with r show ?thesis by auto
  next
    case (Inr u)
    with r ends_on_same [OF assms(2)] show ?thesis by simp
  qed
  ultimately show ?thesis
    unfolding run_shape_def using k(1-3) assms(4)
    by (intro exI [of _ k] conjI exI [of _ "quiet @ q"] exI [of _ out]) auto
qed

lemma run_shape_error:
  assumes "run_shape js as_json answer st (Suc i) (Suc errors) effects result" and "answer i = Inl e"
  shows "run_shape js as_json answer st i errors (Sleep s # effects) result"
proof -
  obtain k q out where k: "Suc i \<le> k" "effects = q @ out" "list_all silent q"
      "\<forall>l. Suc i \<le> l \<and> l < k \<longrightarrow> waits_on (answer l)"
    and r: "case result of Inr _ \<Rightarrow> ends_on js as_json st (answer k) out
       | Inl x \<Rightarrow> out = [] \<and> (\<exists>e. answer k = Inl e \<and> x = wait_errors 5 e) \<and> Suc i + 5 \<le> k + Suc errors + 1 \<and>
           (\<forall>l. Suc i \<le> l \<and> l \<le> k \<and> k < l + 5 \<longrightarrow> (\<exists>e. answer l = Inl e))"
    using assms(1) unfolding run_shape_def by blast
  have "\<forall>l. i \<le> l \<and> l < k \<longrightarrow> waits_on (answer l)"
    using k(4) assms(2) by (metis Suc_leI le_neq_implies_less waits_on.simps(1))
  moreover have "case result of Inr _ \<Rightarrow> ends_on js as_json st (answer k) out
       | Inl x \<Rightarrow> out = [] \<and> (\<exists>e. answer k = Inl e \<and> x = wait_errors 5 e) \<and> i + 5 \<le> k + errors + 1 \<and>
           (\<forall>l. i \<le> l \<and> l \<le> k \<and> k < l + 5 \<longrightarrow> (\<exists>e. answer l = Inl e))"
  proof (cases result)
    case (Inl x)
    with r have failed: "\<forall>l. Suc i \<le> l \<and> l \<le> k \<and> k < l + 5 \<longrightarrow> (\<exists>e. answer l = Inl e)" by simp
    have "\<exists>e. answer l = Inl e" if "i \<le> l \<and> l \<le> k \<and> k < l + 5" for l
      using that failed assms(2) by (cases "l = i") auto
    with r Inl show ?thesis by auto
  next
    case (Inr u)
    with r show ?thesis by simp
  qed
  ultimately show ?thesis
    unfolding run_shape_def using k(1-3)
    by (intro exI [of _ k] conjI exI [of _ "Sleep s # q"] exI [of _ out]) auto
qed

lemma run_shape_now:
  assumes "ends_on js as_json st (answer i) out"
  shows "run_shape js as_json answer st i errors out (Inr u)"
  unfolding run_shape_def using assms by (intro exI [of _ i] conjI exI [of _ "[]"] exI [of _ out]) auto

lemma poll_loop_shape:
  assumes "poll_loop n js answer eb as_json i errors st = Some (effects, result)" and "unat errors < 5"
  shows "run_shape js as_json answer st i (unat errors) effects result"
  using assms
proof (induction n arbitrary: i errors st effects)
  case 0
  then show ?case by (simp add: poll_loop.simps)
next
  case (Suc n)
  have add: "unat (errors + 1) = Suc (unat errors)"
    using unat_add_lem [where x = errors and y = 1] Suc.prems(2) by simp
  show ?case
  proof (cases "answer i")
    case (Inl e)
    show ?thesis
    proof (cases "MAX_CONSECUTIVE_ERRORS \<le> errors + 1")
      case True
      with add Suc.prems(2) have "unat errors = 4" by (auto simp: poll_constants word_le_nat_alt)
      moreover with add have "unat (errors + 1) = unat (5 :: u32)" by simp
      then have "errors + 1 = 5" by (simp only: word_unat_eq_iff)
      ultimately show ?thesis
        using Suc.prems(1) Inl True unfolding run_shape_def
        by (intro exI [of _ i] conjI exI [of _ "[]"] exI [of _ "[]"]) (auto simp: poll_loop.simps)
    next
      case False
      then have five: "unat (errors + 1) < 5" by (simp add: poll_constants word_le_nat_alt)
      obtain es where "poll_loop n js answer eb as_json (Suc i) (errors + 1) st = Some (es, result)"
        and effects: "effects = Sleep eb # es"
        using Suc.prems(1) Inl False by (auto simp: poll_loop.simps)
      from Suc.IH [OF this(1) five] add
      have "run_shape js as_json answer st (Suc i) (Suc (unat errors)) es result" by simp
      from run_shape_error [OF this Inl] show ?thesis unfolding effects .
    qed
  next
    case (Inr resp)
    obtain action st' where dec: "poll_decision resp st = (action, st')" by force
    show ?thesis
    proof (cases "\<exists>s a. action = KeepWaiting s a")
      case True
      then obtain s a where action: "action = KeepWaiting s a" by blast
      note on = decision_waits [OF dec [unfolded action]]
      obtain es where rest: "poll_loop n js answer eb as_json (Suc i) 0 st' = Some (es, result)"
        and effects: "effects = ((if a then emit_poll_stale_heads_up (max_stale_wait_secs st') else []) @ [Sleep s]) @ es"
        using Suc.prems(1) Inr dec action by (auto simp: poll_loop.simps)
      have "run_shape js as_json answer st' (Suc i) 0 es result" using Suc.IH [OF rest] by simp
      then show ?thesis
        unfolding effects
        by (rule run_shape_wait) (use on Inr silent_heads_up in auto)
    next
      case False
      with Suc.prems(1) Inr dec have "effects = final_output js as_json resp action st'" "result = Inr ()"
        by (cases action; simp add: poll_loop.simps)+
      with decision_ends [OF dec] False Inr show ?thesis by (auto intro!: run_shape_now)
    qed
  qed
qed

section \<open>Holding a room nobody has joined\<close>

definition slept :: "u64 list \<Rightarrow> nat" where
  "slept ss = sum_list (map unat ss)"

lemma join_give_up:
  assumes "answer i = Inr (WaitTimeout ''awaiting_counterpart'' r)" and "max_join_wait_secs st \<noteq> 0"
    and "max_join_wait_secs st \<le> join_wait_secs st"
  shows "poll_loop (Suc n) js answer eb as_json i errors st =
    Some (emit_poll_join_giveup js (join_wait_secs st) as_json, Inr ())"
proof -
  have "poll_decision (WaitTimeout ''awaiting_counterpart'' r) st = (GiveUpJoin, st)"
    using assms(2,3) by (simp add: poll_decision_def from_wire_def awaiting_step_def)
  then show ?thesis by (subst poll_loop.simps) (simp add: assms(1) final_output_def)
qed

lemma join_hold:
  assumes "\<forall>l\<ge>i. \<exists>r. answer l = Inr (WaitTimeout ''awaiting_counterpart'' r)"
    and "quiet_ok (max_join_wait_secs st) (join_backoff_secs st)"
    and "unat (join_wait_secs st) < unat (max_join_wait_secs st) + max (unat (join_backoff_secs st)) 60"
    and "unat (max_join_wait_secs st) - unat (join_wait_secs st) \<le> n"
  shows "\<exists>ss w. poll_loop (Suc n) js answer eb as_json i errors st =
      Some (map Sleep ss @ emit_poll_join_giveup js w as_json, Inr ()) \<and>
    unat w = unat (join_wait_secs st) + slept ss \<and>
    unat (max_join_wait_secs st) \<le> unat w \<and>
    unat w < unat (max_join_wait_secs st) + max (unat (join_backoff_secs st)) 60 \<and>
    list_all (\<lambda>s. max (unat (join_backoff_secs st)) 1 \<le> unat s \<and> unat s \<le> max (unat (join_backoff_secs st)) 60) ss"
  using assms
proof (induction n arbitrary: i errors st)
  case 0
  then obtain r where "answer i = Inr (WaitTimeout ''awaiting_counterpart'' r)" by blast
  moreover have "max_join_wait_secs st \<noteq> 0" "max_join_wait_secs st \<le> join_wait_secs st"
    using 0 by (simp_all add: quiet_ok_def word_le_nat_alt)
  ultimately have "poll_loop (Suc 0) js answer eb as_json i errors st =
      Some (emit_poll_join_giveup js (join_wait_secs st) as_json, Inr ())" by (rule join_give_up)
  with 0 show ?case
    by (intro exI [of _ "[]"] exI [of _ "join_wait_secs st"]) (simp add: slept_def)
next
  case (Suc n)
  obtain r where r: "answer i = Inr (WaitTimeout ''awaiting_counterpart'' r)" using Suc.prems(1) by blast
  let ?j = "join_wait_secs st"
  let ?q = "quiet_backoff (join_backoff_secs st) ?j"
  show ?case
  proof (cases "max_join_wait_secs st \<le> ?j")
    case True
    with Suc.prems(2) r have "poll_loop (Suc (Suc n)) js answer eb as_json i errors st =
        Some (emit_poll_join_giveup js ?j as_json, Inr ())"
      by (intro join_give_up) (auto simp: quiet_ok_def)
    with Suc.prems(3) True show ?thesis
      by (intro exI [of _ "[]"] exI [of _ ?j]) (simp add: slept_def word_le_nat_alt)
  next
    case False
    then have less: "?j < max_join_wait_secs st" by simp
    let ?st = "st\<lparr>join_wait_secs := ?j + ?q\<rparr>"
    note adds = quiet_adds [OF Suc.prems(2) less]
    have q: "max (unat (join_backoff_secs st)) 1 \<le> unat ?q" "unat ?q \<le> max (unat (join_backoff_secs st)) 60"
      by (auto simp: quiet_backoff_nat)
    have "unat (join_wait_secs ?st) < unat (max_join_wait_secs ?st) + max (unat (join_backoff_secs ?st)) 60"
      using adds(1) q(2) less by (simp add: word_less_nat_alt)
    moreover have "unat (max_join_wait_secs ?st) - unat (join_wait_secs ?st) \<le> n"
      using Suc.prems(4) adds(2) by simp
    ultimately obtain ss w where rest: "poll_loop (Suc n) js answer eb as_json (Suc i) 0 ?st =
        Some (map Sleep ss @ emit_poll_join_giveup js w as_json, Inr ())"
      and w: "unat w = unat (?j + ?q) + slept ss" "unat (max_join_wait_secs st) \<le> unat w"
        "unat w < unat (max_join_wait_secs st) + max (unat (join_backoff_secs st)) 60"
      and ss: "list_all (\<lambda>s. max (unat (join_backoff_secs st)) 1 \<le> unat s \<and> unat s \<le> max (unat (join_backoff_secs st)) 60) ss"
      using Suc.IH [of "Suc i" ?st 0] Suc.prems(1,2) by auto
    have "poll_decision (WaitTimeout ''awaiting_counterpart'' r) st = (KeepWaiting ?q False, ?st)"
      using less by (simp add: poll_decision_def from_wire_def awaiting_step_def Let_def not_le)
    then have "poll_loop (Suc (Suc n)) js answer eb as_json i errors st =
        Some (map Sleep (?q # ss) @ emit_poll_join_giveup js w as_json, Inr ())"
      by (subst poll_loop.simps) (simp add: r rest)
    then show ?thesis
      using w ss q adds(1) by (intro exI [of _ "?q # ss"] exI [of _ w]) (simp add: slept_def)
  qed
qed

section \<open>Properties\<close>

text \<open>A counterpart that is silent once, and then proposes to close.\<close>

definition sample_answer :: "nat \<Rightarrow> string + WaitResponse" where
  "sample_answer i = Inr (WaitTimeout (if i = 0 then ''counterpart_stale'' else ''close_proposed'') None)"

definition sample_string :: "json \<Rightarrow> string" where
  "sample_string j = []"

text \<open>C27: a bounded poll returns. With a bound on the empty polls, on the wait for a join and on the wait
  for a silent peer (and no bound so large that the seconds overflow), \<open>cbc poll\<close> comes to an end for
  every sequence of answers and failures of the server, after at most the stated number of calls.\<close>

theorem poll_always_returns:
  assumes "polls \<noteq> 0" and "quiet_ok max_join join_backoff" and "quiet_ok max_stale stale_backoff"
    and "5 * (unat polls * (unat max_stale + 1) + unat max_stale + unat max_join) + 5 \<le> calls"
  shows "\<exists>r. poll_until_event calls js answer polls eb join_backoff max_join stale_backoff max_stale as_json = Some r"
  unfolding poll_until_event_def
proof (rule poll_loop_returns)
  let ?st = "PollState_new polls join_backoff max_join stale_backoff max_stale"
  show "bounded ?st"
    using assms(1-3) by (auto simp: bounded_def PollState_new_def quiet_ok_def unat_max poll_constants word_gt_0)
  show "5 * budget ?st + (5 - unat (0 :: u32)) \<le> calls"
    using assms(4) by (simp add: budget_def PollState_new_def algebra_simps)
qed simp

theorem poll_always_returns_witness:
  "\<exists>r. poll_until_event 45 sample_string (\<lambda>i. if even i then Inl ''refused'' else Inr (WaitTimeout ''paused_by_timeout'' None))
     2 2 5 2 1 1 True = Some r"
proof -
  have "quiet_ok 2 5" "quiet_ok 1 1" by (simp_all add: quiet_ok_def)
  then show ?thesis by (intro poll_always_returns) simp_all
qed



text \<open>C28: holding for a join. While nobody joins, \<open>cbc poll\<close> sleeps between one second (or its base
  interval, if longer) and a minute (or its base interval) at a time, and gives up when the time it
  slept has reached the bound, less than one more sleep past it; what it reports is what it slept.\<close>

theorem poll_join_hold:
  assumes "\<forall>i. \<exists>r. answer i = Inr (WaitTimeout ''awaiting_counterpart'' r)" and "quiet_ok max_join join_backoff"
    and "unat max_join < calls"
  shows "\<exists>ss w. poll_until_event calls js answer polls eb join_backoff max_join stale_backoff max_stale as_json =
      Some (map Sleep ss @ emit_poll_join_giveup js w as_json, Inr ()) \<and>
    unat w = slept ss \<and> unat max_join \<le> slept ss \<and> slept ss < unat max_join + max (unat join_backoff) 60 \<and>
    list_all (\<lambda>s. max (unat join_backoff) 1 \<le> unat s \<and> unat s \<le> max (unat join_backoff) 60) ss"
proof -
  obtain n where n: "calls = Suc n" using assms(3) by (cases calls) auto
  let ?st = "PollState_new polls join_backoff max_join stale_backoff max_stale"
  have base: "max (unat (join_backoff_secs ?st)) 60 = max (unat join_backoff) 60"
    "max (unat (join_backoff_secs ?st)) 1 = max (unat join_backoff) 1"
    by (simp_all add: PollState_new_def unat_max poll_constants)
  have parts: "max_join_wait_secs ?st = max_join" "join_wait_secs ?st = 0" by (simp_all add: PollState_new_def)
  have ok: "quiet_ok (max_join_wait_secs ?st) (join_backoff_secs ?st)"
    using assms(2) base(1) by (simp add: quiet_ok_def parts)
  have all: "\<forall>l\<ge>0. \<exists>r. answer l = Inr (WaitTimeout ''awaiting_counterpart'' r)" using assms(1) by simp
  have "unat (join_wait_secs ?st) < unat (max_join_wait_secs ?st) + max (unat (join_backoff_secs ?st)) 60"
    by (simp add: parts less_max_iff_disj)
  moreover have "unat (max_join_wait_secs ?st) - unat (join_wait_secs ?st) \<le> n" using assms(3) n by (simp add: parts)
  ultimately obtain ss w where "poll_loop (Suc n) js answer eb as_json 0 0 ?st =
      Some (map Sleep ss @ emit_poll_join_giveup js w as_json, Inr ())"
    "unat w = slept ss" "unat max_join \<le> unat w" "unat w < unat max_join + max (unat join_backoff) 60"
    "list_all (\<lambda>s. max (unat join_backoff) 1 \<le> unat s \<and> unat s \<le> max (unat join_backoff) 60) ss"
    using join_hold [OF all ok, of n js eb as_json 0] unfolding base parts by auto
  then show ?thesis unfolding poll_until_event_def n by (intro exI [of _ ss] exI [of _ w]) simp
qed

theorem poll_join_hold_witness:
  "\<exists>ss w. poll_until_event 4000 sample_string (\<lambda>_. Inr (WaitTimeout ''awaiting_counterpart'' None)) 0 2 5 3600 30 3600 True =
      Some (map Sleep ss @ emit_poll_join_giveup sample_string w True, Inr ()) \<and> 3600 \<le> slept ss \<and> slept ss < 3660"
proof -
  let ?answer = "\<lambda>_ :: nat. Inr (WaitTimeout ''awaiting_counterpart'' None) :: string + WaitResponse"
  have all: "\<forall>i. \<exists>r. ?answer i = Inr (WaitTimeout ''awaiting_counterpart'' r)" by simp
  have ok: "quiet_ok 3600 5" by (simp add: quiet_ok_def)
  show ?thesis
    using poll_join_hold [OF all ok, of 4000 sample_string 0 2 30 3600 True] by fastforce
qed

end
