(* ===== verification/Hook.thy ===== *)
theory Hook
  imports Json
begin

text \<open>
  \<open>bins/cbc/src/hook.rs\<close> and the process matching of \<open>bins/cbc/src/main.rs\<close>: the state files of a
  session, the polls they declare, the reconcile of the \<open>Stop\<close> hook and the relaunch of the
  \<open>SessionStart\<close> hook. The directory listing, the process table, the marker times and the JSON
  parser are arguments; a hook returns the kills it orders and the text it writes.
\<close>

section \<open>State files\<close>

record WorkerEntry =
  we_room_id :: string
  poll_label :: string
  we_model :: string
  we_identity :: "string option"

record OrchestratorEntry =
  oe_model :: string
  oe_rooms :: "(string \<times> string) list"

datatype ActiveEntry = WorkerFile WorkerEntry | OrchestratorFile OrchestratorEntry

datatype WorkerMode = WorkerAttached | WorkerDirect

record DeclaredConnection =
  dc_name :: string
  dc_room_id :: string
  dc_identity :: "string option"
  dc_model :: string

definition kv :: "string \<Rightarrow> string \<Rightarrow> string option" where
  "kv line key = map_option trim (and_then (strip_prefix key line) (strip_prefix '':''))"

text \<open>The token after the first \<open>flag\<close>.\<close>

definition token_after :: "string \<Rightarrow> string list \<Rightarrow> string option" where
  "token_after flag toks = (case dropWhile (\<lambda>t. t \<noteq> flag) toks of _ # v # _ \<Rightarrow> Some v | _ \<Rightarrow> None)"

definition keep_if :: "('a \<Rightarrow> bool) \<Rightarrow> 'a option \<Rightarrow> 'a option" where
  "keep_if P x = (case x of None \<Rightarrow> None | Some a \<Rightarrow> if P a then Some a else None)"

definition identity_char :: "char \<Rightarrow> bool" where
  "identity_char c \<longleftrightarrow> is_ascii_alphanumeric c \<or> c = CHR ''-'' \<or> c = CHR ''_''"

definition flag_value :: "string \<Rightarrow> string \<Rightarrow> string option" where
  "flag_value source flag =
     (let toks = takeWhile (\<lambda>t. \<not> starts_with ''#'' t) (split_whitespace source)
      in keep_if (\<lambda>s. s \<noteq> [])
           (map_option (trim_end_matches (\<lambda>c. \<not> identity_char c))
             (keep_if (\<lambda>v. \<not> starts_with ''--'' v) (token_after flag toks))))"

definition or_default :: "string option \<Rightarrow> string \<Rightarrow> string" where
  "or_default x d = (case x of None \<Rightarrow> d | Some s \<Rightarrow> s)"

definition indented :: "string \<Rightarrow> bool" where
  "indented line \<longleftrightarrow> starts_with '' '' line \<or> starts_with [tabulator] line"

definition connection_line :: "string \<Rightarrow> DeclaredConnection option" where
  "connection_line trimmed_line = (case split_first (\<lambda>c. c = CHR '':'') trimmed_line of
       None \<Rightarrow> None
     | Some (before, after) \<Rightarrow>
         (let rest = trim after
          in (case split_whitespace rest of
                [] \<Rightarrow> None
              | room # _ \<Rightarrow> Some \<lparr>dc_name = trim before, dc_room_id = room,
                  dc_identity = flag_value rest ''--as'',
                  dc_model = or_default (flag_value rest ''--model'') ''<model>''\<rparr>)))"

fun connections_loop :: "bool \<Rightarrow> string list \<Rightarrow> DeclaredConnection list" where
  "connections_loop in_block [] = []"
| "connections_loop in_block (line # ls) =
     (let t = trim line
      in if t = ''connections:'' then connections_loop True ls
         else if \<not> in_block then connections_loop in_block ls
         else if t = [] then connections_loop in_block ls
         else if \<not> indented line then connections_loop False ls
         else (case connection_line t of
             None \<Rightarrow> connections_loop in_block ls
           | Some c \<Rightarrow> c # connections_loop in_block ls))"

definition parse_connections :: "string \<Rightarrow> DeclaredConnection list" where
  "parse_connections content = connections_loop False (lines content)"

fun find_map :: "('a \<Rightarrow> 'b option) \<Rightarrow> 'a list \<Rightarrow> 'b option" where
  "find_map f [] = None"
| "find_map f (x # xs) = (case f x of Some y \<Rightarrow> Some y | None \<Rightarrow> find_map f xs)"

definition parse_worker_mode :: "string \<Rightarrow> WorkerMode" where
  "parse_worker_mode content = (case find_map (\<lambda>l. kv (trim l) ''mode'') (lines content) of
       Some v \<Rightarrow> if v = ''worker'' then WorkerAttached else WorkerDirect
     | None \<Rightarrow> WorkerDirect)"

definition is_active :: "string \<Rightarrow> bool" where
  "is_active content = list_ex (\<lambda>l. kv (trim l) ''status'' = Some ''ACTIVE'') (lines content)"

definition owner_session :: "string \<Rightarrow> string option" where
  "owner_session content = keep_if (\<lambda>v. v \<noteq> []) (find_map (\<lambda>l. kv (trim l) ''session-id'') (lines content))"

text \<open>The loop of \<open>parse_worker\<close>: each of the three fields keeps its first value.\<close>

definition first_of :: "string option \<Rightarrow> string option \<Rightarrow> string option" where
  "first_of old new = (case old of None \<Rightarrow> new | Some v \<Rightarrow> Some v)"

fun worker_fields ::
  "string list \<Rightarrow> string option \<Rightarrow> string option \<Rightarrow> string option \<Rightarrow>
   string option \<times> string option \<times> string option" where
  "worker_fields [] room label model = (room, label, model)"
| "worker_fields (line # ls) room label model =
     (let t = trim line
      in worker_fields ls (first_of room (kv t ''room-id'')) (first_of label (kv t ''poll-label''))
           (first_of model (kv t ''model'')))"

definition parse_worker :: "string \<Rightarrow> WorkerEntry option" where
  "parse_worker content =
     (if \<not> is_active content then None
      else (case worker_fields (lines content) None None None of
          (None, _, _) \<Rightarrow> None
        | (Some room, label, model) \<Rightarrow>
            (let label = or_default label []
             in Some \<lparr>we_room_id = room, poll_label = label,
                  we_model = or_default (first_of model (flag_value label ''--model'')) ''<model>'',
                  we_identity = flag_value label ''--as''\<rparr>)))"

definition agent_line :: "string \<Rightarrow> (string \<times> string) option" where
  "agent_line trimmed_line = (case split_once '': '' trimmed_line of
       None \<Rightarrow> None
     | Some (before, after) \<Rightarrow> (case split_whitespace (trim after) of
           [] \<Rightarrow> None
         | room # _ \<Rightarrow> Some (trim before, room)))"

fun agents_loop ::
  "string list \<Rightarrow> string option \<Rightarrow> bool \<Rightarrow> (string \<times> string) list \<Rightarrow> string option \<times> (string \<times> string) list" where
  "agents_loop [] model in_agents rooms = (model, rooms)"
| "agents_loop (line # ls) model in_agents rooms =
     (let t = trim line;
          model = (if indented line then model else first_of model (kv t ''model''))
      in if t = ''agents:'' then agents_loop ls model True rooms
         else if \<not> in_agents then agents_loop ls model in_agents rooms
         else if t = [] then agents_loop ls model in_agents rooms
         else if \<not> indented line then agents_loop ls model False rooms
         else (case agent_line t of
             None \<Rightarrow> agents_loop ls model in_agents rooms
           | Some r \<Rightarrow> agents_loop ls model in_agents (rooms @ [r])))"

definition parse_orchestrator :: "string \<Rightarrow> OrchestratorEntry option" where
  "parse_orchestrator content =
     (if \<not> is_active content then None
      else (case agents_loop (lines content) None False [] of
          (model, rooms) \<Rightarrow>
            if rooms = [] then None
            else Some \<lparr>oe_model = or_default model ''<model>'', oe_rooms = rooms\<rparr>))"

definition declared_connections :: "string \<Rightarrow> DeclaredConnection list" where
  "declared_connections content =
     (if parse_connections content \<noteq> [] then parse_connections content
      else (case parse_orchestrator content of
          Some orch \<Rightarrow> map (\<lambda>(n, room). \<lparr>dc_name = n, dc_room_id = room, dc_identity = None,
              dc_model = oe_model orch\<rparr>) (oe_rooms orch)
        | None \<Rightarrow> (case parse_worker content of
              Some wk \<Rightarrow> [\<lparr>dc_name = poll_label wk, dc_room_id = we_room_id wk,
                  dc_identity = we_identity wk, dc_model = we_model wk\<rparr>]
            | None \<Rightarrow> [])))"

section \<open>Polls and their processes\<close>

definition poll_command :: "string \<Rightarrow> string \<Rightarrow> string option \<Rightarrow> string" where
  "poll_command room model identity = (case identity of
       Some i \<Rightarrow> ''cbc poll '' @ room @ '' --model '' @ model @ '' --as '' @ i
     | None \<Rightarrow> ''cbc poll '' @ room @ '' --model '' @ model)"

text \<open>\<open>rsplit('/').next()\<close>: what follows the last slash.\<close>

definition base_name :: "string \<Rightarrow> string" where
  "base_name a = rev (takeWhile (\<lambda>c. c \<noteq> CHR ''/'') (rev a))"

definition poll_matches :: "string \<Rightarrow> string \<Rightarrow> string option \<Rightarrow> bool" where
  "poll_matches cmdline room identity = (case split_whitespace cmdline of
       argv0 # argv1 # argv2 # rest \<Rightarrow>
         base_name argv0 = ''cbc'' \<and> argv1 = ''poll'' \<and> argv2 = room \<and>
         (case identity of None \<Rightarrow> True
          | Some i \<Rightarrow> token_after ''--as'' (argv0 # argv1 # argv2 # rest) = Some i)
     | _ \<Rightarrow> False)"

definition select_poll_line :: "string \<Rightarrow> string option \<Rightarrow> string \<Rightarrow> u32 option" where
  "select_poll_line room identity line = (case split_first is_space (trim_start line) of
       None \<Rightarrow> None
     | Some (pid_str, cmd) \<Rightarrow> (case parse_u32 pid_str of
           None \<Rightarrow> None
         | Some pid \<Rightarrow> if poll_matches (trim_start cmd) room identity then Some pid else None))"

fun select_lines :: "string \<Rightarrow> string option \<Rightarrow> string list \<Rightarrow> u32 list" where
  "select_lines room identity [] = []"
| "select_lines room identity (l # ls) = (case select_poll_line room identity l of
       None \<Rightarrow> select_lines room identity ls
     | Some pid \<Rightarrow> pid # select_lines room identity ls)"

definition select_poll_pids :: "string \<Rightarrow> string \<Rightarrow> string option \<Rightarrow> u32 list" where
  "select_poll_pids ps_output room identity = select_lines room identity (lines ps_output)"

text \<open>\<open>ps\<close> may fail; then no process is seen.\<close>

definition matching_poll_pids :: "string option \<Rightarrow> string \<Rightarrow> string option \<Rightarrow> u32 list" where
  "matching_poll_pids ps room identity =
     (case ps of None \<Rightarrow> [] | Some text \<Rightarrow> select_poll_pids text room identity)"

definition count_polls :: "string option \<Rightarrow> string \<Rightarrow> string option \<Rightarrow> nat" where
  "count_polls ps room identity = length (matching_poll_pids ps room identity)"

text \<open>The pids that are sent a \<open>SIGTERM\<close>.\<close>

definition kill_surplus_polls :: "string option \<Rightarrow> string \<Rightarrow> string option \<Rightarrow> u32 list" where
  "kill_surplus_polls ps room identity = drop 1 (matching_poll_pids ps room identity)"

definition kill_all_polls :: "string option \<Rightarrow> string \<Rightarrow> string option \<Rightarrow> u32 list" where
  "kill_all_polls ps room identity = matching_poll_pids ps room identity"

section \<open>Liveness markers\<close>

definition POLL_ALIVE_WINDOW :: time where
  "POLL_ALIVE_WINDOW = minutes 15"

definition marker_char :: "char \<Rightarrow> char" where
  "marker_char c = (if is_ascii_alphanumeric c \<or> c = CHR ''.'' \<or> c = CHR ''_'' \<or> c = CHR ''-'' then c else CHR ''_'')"

definition poll_alive_key :: "string \<Rightarrow> string option \<Rightarrow> string" where
  "poll_alive_key room identity =
     (let raw = (case identity of Some i \<Rightarrow> room @ ''__'' @ i | None \<Rightarrow> room @ ''__'')
      in map marker_char raw)"

definition should_mark_alive :: "u32 \<Rightarrow> bool" where
  "should_mark_alive max_polls \<longleftrightarrow> max_polls \<noteq> 0"

text \<open>\<open>Path::join\<close> with a relative path.\<close>

definition path_join :: "string \<Rightarrow> string \<Rightarrow> string" where
  "path_join dir name =
     (if dir = [] \<or> last dir = CHR ''/'' then dir @ name else dir @ ''/'' @ name)"

definition poll_alive_marker :: "string \<Rightarrow> string \<Rightarrow> string option \<Rightarrow> string" where
  "poll_alive_marker cbc_dir room identity =
     path_join (path_join cbc_dir ''.poll-alive'') (poll_alive_key room identity)"

text \<open>The marker's modification time, if it can be read, is an argument.\<close>

definition recently_polled ::
  "(string \<Rightarrow> time option) \<Rightarrow> time \<Rightarrow> string \<Rightarrow> string \<Rightarrow> string option \<Rightarrow> time \<Rightarrow> bool" where
  "recently_polled mtime now cbc_dir room identity window =
     (case mtime (poll_alive_marker cbc_dir room identity) of
        None \<Rightarrow> False
      | Some t \<Rightarrow> if t \<le> now then now - t \<le> window else False)"

section \<open>The reconcile\<close>

datatype ReconcileAction = ReconcileOk | KillExtras | AdviseRelaunch

definition reconcile_action :: "nat \<Rightarrow> bool \<Rightarrow> ReconcileAction" where
  "reconcile_action n poll_hint =
     (if n = 1 then ReconcileOk
      else if n = 0 then (if poll_hint then ReconcileOk else AdviseRelaunch)
      else KillExtras)"

record KillOrder =
  ko_room_id :: string
  ko_identity :: "string option"

record StopPlan =
  sp_kills :: "KillOrder list"
  sp_relaunch :: "string list"

definition plan_one ::
  "(string \<Rightarrow> string option \<Rightarrow> nat) \<Rightarrow> (string \<Rightarrow> string option \<Rightarrow> bool) \<Rightarrow> (string \<Rightarrow> string option \<Rightarrow> bool) \<Rightarrow>
   StopPlan \<Rightarrow> DeclaredConnection \<Rightarrow> StopPlan" where
  "plan_one alive launched recent plan c =
     (let room = dc_room_id c; i = dc_identity c
      in (case reconcile_action (alive room i) (launched room i \<or> recent room i) of
            ReconcileOk \<Rightarrow> plan
          | KillExtras \<Rightarrow> plan\<lparr>sp_kills := sp_kills plan @ [\<lparr>ko_room_id = room, ko_identity = i\<rparr>]\<rparr>
          | AdviseRelaunch \<Rightarrow> plan\<lparr>sp_relaunch := sp_relaunch plan @ [poll_command room (dc_model c) i]\<rparr>))"

definition plan_stop ::
  "DeclaredConnection list \<Rightarrow> (string \<Rightarrow> string option \<Rightarrow> nat) \<Rightarrow> (string \<Rightarrow> string option \<Rightarrow> bool) \<Rightarrow>
   (string \<Rightarrow> string option \<Rightarrow> bool) \<Rightarrow> StopPlan" where
  "plan_stop conns alive launched recent =
     fold (\<lambda>c plan. plan_one alive launched recent plan c) conns \<lparr>sp_kills = [], sp_relaunch = []\<rparr>"

section \<open>Scanning the directory\<close>

text \<open>The entries of a directory with the content of each file that can be read, in any order;
  \<open>None\<close> when the directory cannot be read.\<close>

type_synonym listing = "(string \<times> string option) list option"

text \<open>\<open>Path::extension\<close> of a file name.\<close>

definition file_extension :: "string \<Rightarrow> string option" where
  "file_extension name =
     (case dropWhile (\<lambda>c. c \<noteq> CHR ''.'') (rev name) of
        [] \<Rightarrow> None
      | _ # before \<Rightarrow> if before = [] then None else Some (rev (takeWhile (\<lambda>c. c \<noteq> CHR ''.'') (rev name))))"

definition markdown_files :: "listing \<Rightarrow> (string \<times> string option) list" where
  "markdown_files ls = (case ls of
       None \<Rightarrow> []
     | Some es \<Rightarrow> order_by fst (filter (\<lambda>e. file_extension (fst e) = Some ''md'') es))"

definition active_entry :: "string \<times> string option \<Rightarrow> ActiveEntry list" where
  "active_entry e = (case snd e of
       None \<Rightarrow> []
     | Some content \<Rightarrow>
         if starts_with ''worker-'' (fst e) then
           (case parse_worker content of None \<Rightarrow> [] | Some w \<Rightarrow> [WorkerFile w])
         else if starts_with ''orchestration-'' (fst e) then
           (case parse_orchestrator content of None \<Rightarrow> [] | Some orch \<Rightarrow> [OrchestratorFile orch])
         else [])"

definition scan_active :: "listing \<Rightarrow> ActiveEntry list" where
  "scan_active ls = concat (map active_entry (markdown_files ls))"

definition declared_entry :: "string option \<Rightarrow> string \<times> string option \<Rightarrow> DeclaredConnection list" where
  "declared_entry session e = (case snd e of
       None \<Rightarrow> []
     | Some content \<Rightarrow>
         if \<not> is_active content then []
         else (case session of
             Some sid \<Rightarrow> if owner_session content \<noteq> Some sid then [] else declared_connections content
           | None \<Rightarrow> declared_connections content))"

definition scan_declared :: "listing \<Rightarrow> string option \<Rightarrow> DeclaredConnection list" where
  "scan_declared ls session = concat (map (declared_entry session) (markdown_files ls))"

section \<open>The stop hook\<close>

definition stop_advice :: "string list \<Rightarrow> string" where
  "stop_advice relaunch =
     ''CBC liveness (advisory) '' @ em_dash @
     '' one or more declared rooms have NO live poll right now and none was launched this turn. A held room'' @
     '' must ALWAYS have one standing `cbc poll` running; if you still hold these rooms, relaunch each as a'' @
     '' background task now (run_in_background). A timer beat is only a backstop that re-arms a dead'' @
     '' standing poll, never a substitute for it. This is a hint, not a block:'' @
     concat (map (\<lambda>cmd. [newline] @ ''  '' @ cmd) relaunch)"

definition stop_advise_json :: "(json \<Rightarrow> string) \<Rightarrow> string list \<Rightarrow> string" where
  "stop_advise_json to_string relaunch = to_string (JObj [(''hookSpecificOutput'', JObj
     [(''hookEventName'', JStr ''Stop''), (''additionalContext'', JStr (stop_advice relaunch))])])"

text \<open>What a hook reads besides its input: the parser, the printer, the process's own directory, the
  directories, and the seams over processes, transcript and markers.\<close>

record HookWorld =
  from_text :: "string \<Rightarrow> json option"
  to_text :: "json \<Rightarrow> string"
  current_dir :: string
  read_dir :: "string \<Rightarrow> listing"

definition hook_payload :: "HookWorld \<Rightarrow> string \<Rightarrow> json" where
  "hook_payload hw raw = (case from_text hw raw of None \<Rightarrow> JObj [] | Some j \<Rightarrow> j)"

definition hook_cwd :: "HookWorld \<Rightarrow> json \<Rightarrow> string" where
  "hook_cwd hw j = or_default (and_then (get_member ''cwd'' j) as_str) (current_dir hw)"

definition run_stop ::
  "HookWorld \<Rightarrow> string \<Rightarrow> (string \<Rightarrow> string option \<Rightarrow> nat) \<Rightarrow> (string \<Rightarrow> string option \<Rightarrow> bool) \<Rightarrow>
   (string \<Rightarrow> string \<Rightarrow> string option \<Rightarrow> bool) \<Rightarrow> KillOrder list \<times> string" where
  "run_stop hw raw count_fn launched_fn recently_polled_fn =
     (if trim raw = [] then ([], [])
      else
        (let j = hook_payload hw raw;
             stop_hook_active = (and_then (get_member ''stop_hook_active'' j) as_bool = Some True);
             session_id = keep_if (\<lambda>s. s \<noteq> []) (and_then (get_member ''session_id'' j) as_str);
             cbc_dir = path_join (hook_cwd hw j) ''.cbc'';
             conns = scan_declared (read_dir hw cbc_dir) session_id
         in if conns = [] then ([], [])
            else
              (let plan = plan_stop conns count_fn launched_fn (recently_polled_fn cbc_dir)
               in (sp_kills plan,
                   if sp_relaunch plan \<noteq> [] \<and> \<not> stop_hook_active
                   then stop_advise_json (to_text hw) (sp_relaunch plan) else []))))"

section \<open>The session-start hook\<close>

definition POLL_LIVE_INOCULATION :: string where
  "POLL_LIVE_INOCULATION =
     ''Do NOT check poll_live or ps to decide whether to skip this '' @ em_dash @
     '' a pre-compaction poll can read alive (process running, poll_live: true) while orphaned from THIS'' @
     '' session and unable to reach it. Relaunch regardless of what any liveness check says.''"

definition writeln :: "string \<Rightarrow> string" where
  "writeln s = s @ [newline]"

text \<open>The kills \<open>(room, identity)\<close> in order, and the text.\<close>

definition emit_relaunch ::
  "ActiveEntry \<Rightarrow> (string \<Rightarrow> string option) \<Rightarrow> (string \<times> string option) list \<times> string" where
  "emit_relaunch entry id_of = (case entry of
       WorkerFile w \<Rightarrow>
         (let i = id_of (we_room_id w); cmd = poll_command (we_room_id w) (we_model w) i
          in ([(we_room_id w, i)],
              writeln [] @
              writeln (warning_sign @ '' CBC POLL RESTART REQUIRED (post-compaction). Your background poll did NOT survive.'') @
              writeln (''FIRST ACTION, before reading files or composing anything '' @ em_dash @ '' relaunch as a background task:'') @
              writeln (if poll_label w = [] then ''  '' @ cmd else ''  '' @ cmd @ ''      # '' @ poll_label w) @
              writeln ''The room is ACTIVE; you are deaf until this poll is running.'' @
              writeln POLL_LIVE_INOCULATION))
     | OrchestratorFile orch \<Rightarrow>
         (map (\<lambda>(n, room). (room, id_of room)) (oe_rooms orch),
          writeln [] @
          writeln (warning_sign @ '' CBC POLL RESTART REQUIRED (post-compaction). Your background polls did NOT survive.'') @
          writeln (''FIRST ACTION, before reading files or composing anything '' @ em_dash @
     '' relaunch ALL room polls as background tasks:'') @
          concat (map (\<lambda>(n, room). writeln (''  '' @ poll_command room (oe_model orch) (id_of room) @
            ''      # '' @ n @ '' poll'')) (oe_rooms orch)) @
          writeln ''All rooms are ACTIVE; you are deaf until all polls are running.'' @
          writeln POLL_LIVE_INOCULATION))"

definition id_of_room :: "DeclaredConnection list \<Rightarrow> string \<Rightarrow> string option" where
  "id_of_room declared room = and_then (find (\<lambda>c. dc_room_id c = room) declared) dc_identity"

definition run_session_start :: "HookWorld \<Rightarrow> string \<Rightarrow> (string \<times> string option) list \<times> string" where
  "run_session_start hw raw =
     (if trim raw = [] then ([], [])
      else
        (let j = hook_payload hw raw;
             source = or_default (and_then (get_member ''source'' j) as_str) ''startup''
         in if source \<noteq> ''compact'' \<and> source \<noteq> ''resume'' then ([], [])
            else
              (let cbc_dir = path_join (hook_cwd hw j) ''.cbc'';
                   entries = scan_active (read_dir hw cbc_dir);
                   declared = scan_declared (read_dir hw cbc_dir) None;
                   results = map (\<lambda>e. emit_relaunch e (id_of_room declared)) entries
               in (concat (map fst results), concat (map snd results)))))"

end
