(* ===== verification/HookSpec.thy ===== *)
theory HookSpec
  imports Hook
begin

text \<open>
  What the hooks promise: a declared connection is read back as it was written, the command that is
  suggested is the one that is recognised, the reconcile converges to one poll and touches nothing
  else, and a session only ever speaks of its own rooms.
\<close>

section \<open>Written connections\<close>

text \<open>A token that no flag scanner mistakes for a flag or a comment.\<close>

definition plain_token :: "string \<Rightarrow> bool" where
  "plain_token w \<longleftrightarrow> word w \<and> \<not> starts_with ''#'' w \<and> \<not> starts_with ''--'' w"

definition flag_token :: "string \<Rightarrow> bool" where
  "flag_token w \<longleftrightarrow> plain_token w \<and> identity_char (last w)"

fun connection_ok :: "DeclaredConnection \<Rightarrow> bool" where
  "connection_ok c \<longleftrightarrow> trimmed (dc_name c) \<and> plain (dc_name c) \<and> CHR '':'' \<notin> set (dc_name c) \<and>
     plain_token (dc_room_id c) \<and> flag_token (dc_model c) \<and>
     (case dc_identity c of None \<Rightarrow> True | Some i \<Rightarrow> flag_token i)"

definition connection_words :: "DeclaredConnection \<Rightarrow> string list" where
  "connection_words c = [dc_room_id c] @
     (case dc_identity c of None \<Rightarrow> [] | Some i \<Rightarrow> [''--as'', i]) @ [''--model'', dc_model c]"

definition connection_text :: "DeclaredConnection \<Rightarrow> string" where
  "connection_text c = ''  '' @ dc_name c @ '': '' @ unwords (connection_words c)"

definition state_file :: "string list \<Rightarrow> DeclaredConnection list \<Rightarrow> string" where
  "state_file header cs = unlines (header @ [''connections:''] @ map connection_text cs)"

definition header_ok :: "string list \<Rightarrow> bool" where
  "header_ok header \<longleftrightarrow> list_all (\<lambda>l. plain l \<and> trim l \<noteq> ''connections:'') header"

lemma word_literals [simp]: "word ''--as''" "word ''--model''" "word ''cbc''" "word ''poll''"
  by (simp_all add: word_def is_space_def)

lemma connection_words_ok: "connection_ok c \<Longrightarrow> list_all word (connection_words c)"
  by (auto simp: connection_words_def flag_token_def plain_token_def split: option.splits)

lemma no_comment: "plain_token w \<Longrightarrow> \<not> starts_with ''#'' w"
  by (simp add: plain_token_def)

lemma not_flag: "plain_token w \<Longrightarrow> w \<noteq> ''--as'' \<and> w \<noteq> ''--model''"
  by (auto simp: plain_token_def starts_with_def)

lemma flags_not_comments [simp]: "\<not> starts_with ''#'' ''--as''" "\<not> starts_with ''#'' ''--model''"
  by (simp_all add: starts_with_def)

lemma flag_token_kept:
  assumes "flag_token v"
  shows "keep_if (\<lambda>s. s \<noteq> []) (map_option (trim_end_matches (\<lambda>c. \<not> identity_char c))
      (keep_if (\<lambda>v. \<not> starts_with ''--'' v) (Some v))) = Some v"
proof -
  have "v \<noteq> []" using assms by (auto simp: flag_token_def plain_token_def word_def)
  moreover have "trim_end_matches (\<lambda>c. \<not> identity_char c) v = v"
    using assms by (intro trim_end_matches_keeps) (simp add: flag_token_def)
  ultimately show ?thesis using assms by (simp add: keep_if_def flag_token_def plain_token_def)
qed

lemma flag_value_words:
  assumes "list_all word ws" and "list_all (\<lambda>w. \<not> starts_with ''#'' w) ws"
    and "token_after flag ws = Some v" and "flag_token v"
  shows "flag_value (unwords ws) flag = Some v"
proof -
  have "takeWhile (\<lambda>t. \<not> starts_with ''#'' t) ws = ws"
    using assms(2) by (simp add: list_all_iff takeWhile_eq_all_conv)
  note cut = this
  show ?thesis
    unfolding flag_value_def split_whitespace_unwords [OF assms(1)] Let_def cut assms(3)
    by (rule flag_token_kept [OF assms(4)])
qed

lemma flag_value_absent:
  assumes "list_all word ws" and "list_all (\<lambda>w. \<not> starts_with ''#'' w) ws" and "token_after flag ws = None"
  shows "flag_value (unwords ws) flag = None"
proof -
  have "takeWhile (\<lambda>t. \<not> starts_with ''#'' t) ws = ws"
    using assms(2) by (simp add: list_all_iff takeWhile_eq_all_conv)
  note cut = this
  show ?thesis
    unfolding flag_value_def split_whitespace_unwords [OF assms(1)] Let_def cut assms(3)
    by (simp add: keep_if_def)
qed

lemma connection_words_no_comment: "connection_ok c \<Longrightarrow> list_all (\<lambda>w. \<not> starts_with ''#'' w) (connection_words c)"
  by (auto simp: connection_words_def flag_token_def no_comment split: option.splits)

lemma connection_flags:
  assumes "connection_ok c"
  shows "flag_value (unwords (connection_words c)) ''--as'' = dc_identity c"
    and "flag_value (unwords (connection_words c)) ''--model'' = Some (dc_model c)"
proof -
  note words = connection_words_ok [OF assms] connection_words_no_comment [OF assms]
  show "flag_value (unwords (connection_words c)) ''--as'' = dc_identity c"
  proof (cases "dc_identity c")
    case None
    with assms not_flag have "token_after ''--as'' (connection_words c) = None"
      by (auto simp: token_after_def connection_words_def flag_token_def)
    with None show ?thesis using flag_value_absent [OF words] by simp
  next
    case (Some i)
    with assms not_flag have "token_after ''--as'' (connection_words c) = Some i"
      by (auto simp: token_after_def connection_words_def)
    with Some assms show ?thesis using flag_value_words [OF words] by simp
  qed
  have "token_after ''--model'' (connection_words c) = Some (dc_model c)"
    using assms not_flag by (auto simp: token_after_def connection_words_def flag_token_def split: option.splits)
  then show "flag_value (unwords (connection_words c)) ''--model'' = Some (dc_model c)"
    using assms by (intro flag_value_words [OF words]) simp_all
qed

lemma connection_words_nonempty [simp]: "unwords (connection_words c) \<noteq> [] \<or> dc_room_id c = []"
  by (cases "dc_room_id c") (simp_all add: connection_words_def split: option.splits)

lemma connection_trimmed:
  assumes "connection_ok c"
  shows "trim (connection_text c) = dc_name c @ '': '' @ unwords (connection_words c)"
proof -
  let ?u = "unwords (connection_words c)"
  have u: "trimmed ?u" "?u \<noteq> []"
    using unwords_trimmed [OF connection_words_ok [OF assms]] connection_words_nonempty [of c] assms
    by (auto simp: plain_token_def word_def)
  then have "trimmed (dc_name c @ '': '' @ ?u)"
    using assms by (cases "dc_name c") (auto simp: trimmed_def is_space_def)
  moreover have "trim (connection_text c) = trim (dc_name c @ '': '' @ ?u)"
    using trim_spaces [of "''  ''"] by (simp add: connection_text_def)
  ultimately show ?thesis by (simp add: trim_id)
qed

lemma connection_line_text:
  assumes "connection_ok c"
  shows "connection_line (dc_name c @ '': '' @ unwords (connection_words c)) = Some c"
proof -
  let ?u = "unwords (connection_words c)"
  have "split_first (\<lambda>c. c = CHR '':'') (dc_name c @ CHR '':'' # CHR '' '' # ?u) = Some (dc_name c, CHR '' '' # ?u)"
    using assms by (intro split_first_append) (auto simp: list_all_iff)
  moreover have "trim (CHR '' '' # ?u) = ?u"
    using trim_spaces [of "'' ''" ?u] trim_id [OF unwords_trimmed [OF connection_words_ok [OF assms]]] by simp
  moreover have "split_whitespace ?u = connection_words c"
    by (rule split_whitespace_unwords [OF connection_words_ok [OF assms]])
  moreover obtain ws where "connection_words c = dc_room_id c # ws" by (simp add: connection_words_def)
  ultimately have "connection_line (dc_name c @ '': '' @ ?u) =
      Some \<lparr>dc_name = trim (dc_name c), dc_room_id = dc_room_id c, dc_identity = flag_value ?u ''--as'',
        dc_model = or_default (flag_value ?u ''--model'') ''<model>''\<rparr>"
    by (simp add: connection_line_def Let_def)
  then show ?thesis
    using connection_flags [OF assms] trim_id [of "dc_name c"] assms by (simp add: or_default_def)
qed

lemma connections_block:
  assumes "list_all connection_ok cs"
  shows "connections_loop True (map connection_text cs) = cs"
  using assms
proof (induction cs)
  case (Cons c cs)
  then have c: "connection_ok c" by simp
  let ?t = "dc_name c @ '': '' @ unwords (connection_words c)"
  have "?t \<noteq> ''connections:''"
  proof
    assume "?t = ''connections:''"
    then have "last ?t = CHR '':''" by simp
    moreover have "unwords (connection_words c) \<noteq> []"
      using connection_words_nonempty [of c] c by (auto simp: plain_token_def word_def)
    ultimately have "CHR '':'' = last (unwords (connection_words c))" by simp
    moreover have "last (unwords (connection_words c)) = last (dc_model c)"
      using c by (auto simp: connection_words_def flag_token_def plain_token_def word_def split: option.splits)
    ultimately have "identity_char (CHR '':'')" using c by (simp add: flag_token_def)
    then show False by (simp add: identity_char_def is_ascii_alphanumeric_def)
  qed
  moreover have "indented (connection_text c)" by (simp add: indented_def starts_with_def connection_text_def)
  ultimately show ?case
    using Cons connection_trimmed [OF c] connection_line_text [OF c] by simp
qed simp

lemma connections_header: "header_ok header \<Longrightarrow> connections_loop False (header @ ls) = connections_loop False ls"
  by (induction header) (auto simp: header_ok_def)

lemma connection_text_plain: "connection_ok c \<Longrightarrow> plain (connection_text c)"
  using unwords_plain [OF connection_words_ok [of c]] by (simp add: connection_text_def plain_def)

lemma read_state_file:
  assumes "header_ok header" and "list_all connection_ok cs"
  shows "parse_connections (state_file header cs) = cs"
proof -
  have "list_all plain (header @ [''connections:''] @ map connection_text cs)"
    using assms connection_text_plain by (auto simp: header_ok_def list_all_iff plain_def)
  from lines_unlines [OF this] show ?thesis
    using assms by (simp add: parse_connections_def state_file_def connections_header connections_block trim_id trimmed_def is_space_def)
qed

section \<open>The suggested command is the one that is recognised\<close>

definition command_words :: "string \<Rightarrow> string \<Rightarrow> string option \<Rightarrow> string list" where
  "command_words room model identity = [''cbc'', ''poll'', room, ''--model'', model] @
     (case identity of None \<Rightarrow> [] | Some i \<Rightarrow> [''--as'', i])"

definition command_ok :: "string \<Rightarrow> string \<Rightarrow> string option \<Rightarrow> bool" where
  "command_ok room model identity \<longleftrightarrow> word room \<and> room \<noteq> ''--as'' \<and> word model \<and> model \<noteq> ''--as'' \<and>
     (case identity of None \<Rightarrow> True | Some i \<Rightarrow> word i)"

lemma poll_command_words: "poll_command room model identity = unwords (command_words room model identity)"
  by (simp add: poll_command_def command_words_def split: option.split)

lemma command_words_ok: "command_ok room model identity \<Longrightarrow> list_all word (command_words room model identity)"
  by (auto simp: command_ok_def command_words_def split: option.splits)

lemma base_name_cbc [simp]: "base_name ''cbc'' = ''cbc''"
  by (simp add: base_name_def)

lemma command_recognised:
  assumes "command_ok room model identity"
  shows "poll_matches (poll_command room model identity) room' wanted \<longleftrightarrow>
    room' = room \<and> (wanted = None \<or> wanted = identity)"
proof -
  have "split_whitespace (poll_command room model identity) = command_words room model identity"
    unfolding poll_command_words by (rule split_whitespace_unwords [OF command_words_ok [OF assms]])
  then show ?thesis
    using assms by (auto simp: poll_matches_def command_words_def token_after_def command_ok_def split: option.split)
qed

section \<open>The process table\<close>

text \<open>The table as \<open>ps -axww -o pid=,command=\<close> prints it: the pid, right aligned, and the command.\<close>

type_synonym processes = "(u32 \<times> string) list"

definition ps_line :: "u32 \<times> string \<Rightarrow> string" where
  "ps_line pc = replicate (5 - length (show_u32 (fst pc))) (CHR '' '') @ show_u32 (fst pc) @ CHR '' '' # snd pc"

definition ps_text :: "processes \<Rightarrow> string" where
  "ps_text table = unlines (map ps_line table)"

definition terminate :: "u32 list \<Rightarrow> processes \<Rightarrow> processes" where
  "terminate pids table = filter (\<lambda>pc. fst pc \<notin> set pids) table"

definition polls_in :: "string \<Rightarrow> string option \<Rightarrow> processes \<Rightarrow> processes" where
  "polls_in room identity table = filter (\<lambda>pc. poll_matches (snd pc) room identity) table"

definition table_ok :: "processes \<Rightarrow> bool" where
  "table_ok table \<longleftrightarrow> distinct (map fst table) \<and> list_all (\<lambda>pc. plain (snd pc)) table"

lemma split_whitespace_trim_start [simp]: "split_whitespace (trim_start s) = split_whitespace s"
  unfolding trim_start_def by (induction s) auto

lemma poll_matches_trim_start [simp]: "poll_matches (trim_start s) room i = poll_matches s room i"
  by (simp add: poll_matches_def)

lemma digit_not_space: "is_digit c \<Longrightarrow> \<not> is_space c"
  by (auto simp: is_digit_def is_space_def Let_def)

lemma show_u32_no_space: "list_all (\<lambda>c. \<not> is_space c) (show_u32 n)"
  using show_nat_digits [of "unat n"] by (auto simp: show_u32_def list_all_iff digit_not_space)

lemma select_ps_line: "select_poll_line room i (ps_line (pid, cmd)) = (if poll_matches cmd room i then Some pid else None)"
proof -
  have "show_u32 pid \<noteq> []" by (simp add: show_u32_def)
  then have "trim_start (show_u32 pid @ CHR '' '' # cmd) = show_u32 pid @ CHR '' '' # cmd"
    using show_u32_no_space [of pid] by (cases "show_u32 pid") (simp_all add: trim_start_def)
  moreover have "dropWhile is_space (replicate n (CHR '' '') @ t) = dropWhile is_space t" for n t
    by (induction n) simp_all
  ultimately have "trim_start (ps_line (pid, cmd)) = show_u32 pid @ CHR '' '' # cmd"
    by (simp add: ps_line_def trim_start_def)
  moreover have "split_first is_space (show_u32 pid @ CHR '' '' # cmd) = Some (show_u32 pid, cmd)"
    by (rule split_first_append [OF show_u32_no_space]) simp
  ultimately show ?thesis by (simp add: select_poll_line_def parse_show_u32)
qed

lemma ps_line_plain: "plain (snd pc) \<Longrightarrow> plain (ps_line pc)"
  using show_u32_no_space [of "fst pc"] by (force simp: ps_line_def plain_def list_all_iff)

lemma select_ps_text:
  assumes "list_all (\<lambda>pc. plain (snd pc)) table"
  shows "select_poll_pids (ps_text table) room i = map fst (polls_in room i table)"
proof -
  have "list_all plain (map ps_line table)"
    using assms by (auto simp: list_all_iff ps_line_plain)
  then have "lines (ps_text table) = map ps_line table" by (simp add: ps_text_def lines_unlines)
  moreover have "select_lines room i (map ps_line table) = map fst (polls_in room i table)"
    by (induction table) (auto simp: polls_in_def select_ps_line)
  ultimately show ?thesis by (simp add: select_poll_pids_def)
qed

lemma terminate_keeps_ok: "table_ok table \<Longrightarrow> table_ok (terminate pids table)"
  by (auto simp: table_ok_def terminate_def list_all_iff distinct_map_filter)

lemma terminate_surplus:
  assumes "table_ok table"
  shows "polls_in room i (terminate (drop 1 (map fst (polls_in room i table))) table) = take 1 (polls_in room i table)"
proof -
  let ?m = "polls_in room i table"
  have "distinct (map fst ?m)" using assms by (simp add: table_ok_def polls_in_def distinct_map_filter)
  then have "filter (\<lambda>pc. fst pc \<notin> set (drop 1 (map fst ?m))) ?m = take 1 ?m"
    by (cases ?m) (auto simp: filter_id_conv filter_empty_conv image_iff)
  moreover have "polls_in room i (terminate pids table) = filter (\<lambda>pc. fst pc \<notin> set pids) ?m" for pids
    by (simp add: polls_in_def terminate_def conj_commute)
  ultimately show ?thesis by simp
qed

lemma terminate_others:
  assumes "table_ok table" and "pc \<in> set table" and "\<not> poll_matches (snd pc) room i"
    and "set pids \<subseteq> fst ` set (polls_in room i table)"
  shows "pc \<in> set (terminate pids table)"
proof -
  have "fst pc \<notin> set pids"
  proof
    assume "fst pc \<in> set pids"
    with assms(4) obtain q where q: "q \<in> set table" "poll_matches (snd q) room i" "fst q = fst pc"
      by (auto simp: polls_in_def)
    with assms(1,2) have "q = pc" by (auto simp: table_ok_def distinct_map dest: inj_onD)
    with q(2) assms(3) show False by simp
  qed
  with assms(2) show ?thesis by (simp add: terminate_def)
qed

section \<open>The plan\<close>

definition lacks_poll ::
  "(string \<Rightarrow> string option \<Rightarrow> nat) \<Rightarrow> (string \<Rightarrow> string option \<Rightarrow> bool) \<Rightarrow> (string \<Rightarrow> string option \<Rightarrow> bool) \<Rightarrow>
   DeclaredConnection \<Rightarrow> bool" where
  "lacks_poll alive launched recent c \<longleftrightarrow> alive (dc_room_id c) (dc_identity c) = 0 \<and>
     \<not> launched (dc_room_id c) (dc_identity c) \<and> \<not> recent (dc_room_id c) (dc_identity c)"

definition has_surplus :: "(string \<Rightarrow> string option \<Rightarrow> nat) \<Rightarrow> DeclaredConnection \<Rightarrow> bool" where
  "has_surplus alive c \<longleftrightarrow> 2 \<le> alive (dc_room_id c) (dc_identity c)"

definition kill_order :: "DeclaredConnection \<Rightarrow> KillOrder" where
  "kill_order c = \<lparr>ko_room_id = dc_room_id c, ko_identity = dc_identity c\<rparr>"

definition relaunch_command :: "DeclaredConnection \<Rightarrow> string" where
  "relaunch_command c = poll_command (dc_room_id c) (dc_model c) (dc_identity c)"

lemma plan_fold:
  "fold (\<lambda>c plan. plan_one alive launched recent plan c) cs plan =
     \<lparr>sp_kills = sp_kills plan @ map kill_order (filter (has_surplus alive) cs),
      sp_relaunch = sp_relaunch plan @ map relaunch_command (filter (lacks_poll alive launched recent) cs)\<rparr>"
proof (induction cs arbitrary: plan)
  case (Cons c cs)
  have "plan_one alive launched recent plan c =
      \<lparr>sp_kills = sp_kills plan @ (if has_surplus alive c then [kill_order c] else []),
       sp_relaunch = sp_relaunch plan @ (if lacks_poll alive launched recent c then [relaunch_command c] else [])\<rparr>"
    by (cases plan) (auto simp: plan_one_def Let_def reconcile_action_def has_surplus_def lacks_poll_def
        kill_order_def relaunch_command_def)
  with Cons show ?case by simp
qed simp

lemma plan_stop_lists:
  "plan_stop cs alive launched recent =
     \<lparr>sp_kills = map kill_order (filter (has_surplus alive) cs),
      sp_relaunch = map relaunch_command (filter (lacks_poll alive launched recent) cs)\<rparr>"
  by (simp add: plan_stop_def plan_fold)

section \<open>The files of a session\<close>

definition owned_by :: "string \<Rightarrow> string \<times> string option \<Rightarrow> bool" where
  "owned_by sid e \<longleftrightarrow> (case snd e of None \<Rightarrow> False | Some content \<Rightarrow> owner_session content = Some sid)"

definition owned_files :: "string \<Rightarrow> listing \<Rightarrow> listing" where
  "owned_files sid ls = map_option (filter (owned_by sid)) ls"

lemma filter_order_by: "filter P (order_by k xs) = order_by k (filter P xs)"
  by (simp add: order_by_def filter_sort)

lemma markdown_owned: "markdown_files (owned_files sid ls) = filter (owned_by sid) (markdown_files ls)"
  by (simp add: markdown_files_def owned_files_def filter_order_by conj_commute split: option.split)

lemma declared_scoped: "declared_entry (Some sid) e = (if owned_by sid e then declared_entry None e else [])"
  by (simp add: declared_entry_def owned_by_def split: option.split)

section \<open>What a session start relaunches\<close>

fun entry_rooms :: "ActiveEntry \<Rightarrow> string list" where
  "entry_rooms (WorkerFile w) = [we_room_id w]"
| "entry_rooms (OrchestratorFile orch) = map snd (oe_rooms orch)"

fun entry_model :: "ActiveEntry \<Rightarrow> string" where
  "entry_model (WorkerFile w) = we_model w"
| "entry_model (OrchestratorFile orch) = oe_model orch"

definition mentions :: "string \<Rightarrow> string \<Rightarrow> bool" where
  "mentions text part \<longleftrightarrow> (\<exists>pre post. text = pre @ part @ post)"

lemma mentions_parts:
  "mentions t p \<Longrightarrow> mentions (s @ t) p" "mentions t p \<Longrightarrow> mentions (t @ s) p" "mentions (p @ s) p"
  unfolding mentions_def by (metis append.assoc, metis append.assoc, metis append_Nil)

lemma mentions_mid: "mentions (s @ p @ t) p" "mentions (s @ p) p"
  unfolding mentions_def by (blast, metis append_Nil2)

lemma mentions_concat: "x \<in> set xs \<Longrightarrow> mentions (f x) p \<Longrightarrow> mentions (concat (map f xs)) p"
  by (induction xs) (auto intro: mentions_parts)

lemma relaunch_kills: "fst (emit_relaunch e id_of) = map (\<lambda>room. (room, id_of room)) (entry_rooms e)"
  by (cases e) (auto simp: emit_relaunch_def Let_def split: prod.splits)

lemma relaunch_mentions:
  assumes "room \<in> set (entry_rooms e)"
  shows "mentions (snd (emit_relaunch e id_of)) (poll_command room (entry_model e) (id_of room))"
proof (cases e)
  case (WorkerFile w)
  have "mentions (writeln (if poll_label w = [] then ''  '' @ c else ''  '' @ c @ ''      # '' @ poll_label w)) c" for c
    using mentions_mid [of "''  ''" c] by (auto simp: writeln_def simp del: append.simps)
  note line = mentions_parts(2) [OF this]
  from WorkerFile assms have room: "room = we_room_id w" by simp
  show ?thesis
    unfolding emit_relaunch_def WorkerFile room ActiveEntry.case Let_def snd_conv entry_model.simps
    by (rule mentions_parts(1) [OF mentions_parts(1) [OF mentions_parts(1) [OF line]]])
next
  case (OrchestratorFile orch)
  with assms obtain n where n: "(n, room) \<in> set (oe_rooms orch)" by auto
  let ?line = "\<lambda>(n, room). writeln (''  '' @ poll_command room (oe_model orch) (id_of room) @ ''      # '' @ n @ '' poll'')"
  have "mentions (?line (n, room)) (poll_command room (oe_model orch) (id_of room))"
    unfolding writeln_def using mentions_mid [of "''  ''"] by (simp del: append.simps)
  note line = mentions_parts(2) [OF mentions_concat [of _ _ ?line, OF n this]]
  show ?thesis
    unfolding emit_relaunch_def OrchestratorFile ActiveEntry.case Let_def snd_conv entry_model.simps
    by (rule mentions_parts(1) [OF mentions_parts(1) [OF mentions_parts(1) [OF line]]])
qed

section \<open>Marker files\<close>

lemma marker_char_safe: "marker_char c \<noteq> CHR ''/''"
  by (auto simp: marker_char_def is_ascii_alphanumeric_def)

lemma marker_char_dot [simp]: "marker_char (CHR ''_'') = CHR ''_''"
  by (simp add: marker_char_def)

lemma split_at_first:
  assumes "x \<notin> set a" and "x \<notin> set b" and "a @ x # u = b @ x # v"
  shows "a = b \<and> u = v"
  using assms
proof (induction a arbitrary: b)
  case Nil
  then show ?case by (cases b) auto
next
  case (Cons y a)
  then show ?case by (cases b) auto
qed

section \<open>Properties\<close>

text \<open>C34: a connections block is read back. For any header without the block's own title and any list of
  connections whose tokens are words the scanner cannot mistake, the file that lists them yields
  exactly those connections, in order, with their identities and models; and the block, when it has
  an entry, is all that is declared.\<close>

theorem connections_block_roundtrip:
  assumes "header_ok header" and "list_all connection_ok cs"
  shows "parse_connections (state_file header cs) = cs \<and>
    (cs \<noteq> [] \<longrightarrow> declared_connections (state_file header cs) = cs)"
  using read_state_file [OF assms] by (simp add: declared_connections_def)

definition sample_connection :: "string \<Rightarrow> DeclaredConnection" where
  "sample_connection room = \<lparr>dc_name = ''api peer'', dc_room_id = room, dc_identity = Some ''web-worker'',
     dc_model = ''opus''\<rparr>"

lemma sample_connection_ok: "connection_ok (sample_connection ''cbc-r-1'')"
  by (simp add: sample_connection_def trimmed_def plain_def plain_token_def flag_token_def word_def
      starts_with_def identity_char_def is_ascii_alphanumeric_def is_space_def)

theorem connections_block_roundtrip_witness:
  "declared_connections (state_file [''# Worker'', ''status: ACTIVE''] [sample_connection ''cbc-r-1'']) =
   [sample_connection ''cbc-r-1'']"
proof -
  have "header_ok [''# Worker'', ''status: ACTIVE'']"
    by (simp add: header_ok_def plain_def trim_id trimmed_def is_space_def)
  then show ?thesis
    using connections_block_roundtrip [of _ "[sample_connection ''cbc-r-1'']"] sample_connection_ok by simp
qed

text \<open>C30: one source of truth for a poll. The command the hooks tell an agent to launch is recognised as
  a poll of a room and identity exactly if it was made for that room and, when an identity is asked
  for, for that identity: no session counts or kills the poll of another.\<close>

theorem suggested_poll_is_recognised:
  assumes "command_ok room model identity"
  shows "poll_matches (poll_command room model identity) room' wanted \<longleftrightarrow>
    room' = room \<and> (wanted = None \<or> wanted = identity)"
  by (rule command_recognised [OF assms])

theorem suggested_poll_is_recognised_witness:
  "poll_matches (poll_command ''r1'' ''opus'' (Some ''me'')) ''r1'' (Some ''me'') \<and>
   \<not> poll_matches (poll_command ''r1'' ''opus'' (Some ''me'')) ''r1'' (Some ''you'')"
proof -
  have "command_ok ''r1'' ''opus'' (Some ''me'')" by (simp add: command_ok_def word_def is_space_def)
  from suggested_poll_is_recognised [OF this] show ?thesis by simp
qed

text \<open>C29: the reconcile converges and hits nothing else. On any process table, after the surplus kill for
  a room and identity at most one matching poll is left, and one if there was any; the kill of all
  leaves none; and every process that does not match survives both.\<close>

theorem surplus_kill_leaves_one:
  assumes "table_ok table"
  shows "count_polls (Some (ps_text (terminate (kill_surplus_polls (Some (ps_text table)) room i) table))) room i =
      min 1 (count_polls (Some (ps_text table)) room i) \<and>
    count_polls (Some (ps_text (terminate (kill_all_polls (Some (ps_text table)) room i) table))) room i = 0 \<and>
    (\<forall>pc\<in>set table. \<not> poll_matches (snd pc) room i \<longrightarrow>
      pc \<in> set (terminate (kill_surplus_polls (Some (ps_text table)) room i) table) \<and>
      pc \<in> set (terminate (kill_all_polls (Some (ps_text table)) room i) table))"
proof -
  let ?m = "polls_in room i table"
  have pids: "matching_poll_pids (Some (ps_text t)) room i = map fst (polls_in room i t)" if "table_ok t" for t
    using select_ps_text that by (simp add: matching_poll_pids_def table_ok_def)
  have kills: "kill_surplus_polls (Some (ps_text table)) room i = drop 1 (map fst ?m)"
    "kill_all_polls (Some (ps_text table)) room i = map fst ?m"
    using pids [OF assms] by (simp_all add: kill_surplus_polls_def kill_all_polls_def)
  have "polls_in room i (terminate (map fst ?m) table) = []"
    by (auto simp: polls_in_def terminate_def filter_empty_conv image_iff)
  moreover have "set (drop 1 (map fst ?m)) \<subseteq> fst ` set ?m" by (auto dest: in_set_dropD)
  ultimately show ?thesis
    unfolding kills count_polls_def pids [OF assms] pids [OF terminate_keeps_ok [OF assms]]
    using terminate_surplus [OF assms] terminate_others [OF assms] by auto
qed

theorem surplus_kill_leaves_one_witness:
  "count_polls (Some (ps_text (terminate [12] [(7, poll_command ''r'' ''m'' (Some ''me'')),
     (9, poll_command ''r'' ''m'' (Some ''you'')), (12, poll_command ''r'' ''m'' (Some ''me''))]))) ''r'' (Some ''me'') = 1"
proof -
  let ?t = "[(7, poll_command ''r'' ''m'' (Some ''me'')),
     (9, poll_command ''r'' ''m'' (Some ''you'')), (12, poll_command ''r'' ''m'' (Some ''me''))] :: processes"
  have ok: "table_ok ?t" by (simp add: table_ok_def plain_def poll_command_def)
  have me: "command_ok ''r'' ''m'' (Some ''me'')" and you: "command_ok ''r'' ''m'' (Some ''you'')"
    by (simp_all add: command_ok_def word_def is_space_def)
  have "polls_in ''r'' (Some ''me'') ?t = [(7, poll_command ''r'' ''m'' (Some ''me'')), (12, poll_command ''r'' ''m'' (Some ''me''))]"
    by (simp add: polls_in_def command_recognised [OF me] command_recognised [OF you])
  then have "kill_surplus_polls (Some (ps_text ?t)) ''r'' (Some ''me'') = [12]"
    and "count_polls (Some (ps_text ?t)) ''r'' (Some ''me'') = 2"
    using ok by (simp_all add: kill_surplus_polls_def count_polls_def matching_poll_pids_def select_ps_text table_ok_def)
  with surplus_kill_leaves_one [OF ok, of "''r''" "Some ''me''"] show ?thesis by simp
qed


text \<open>C33: a session speaks of its own rooms only. With a session id in the payload the scan yields what it
  would yield, unscoped, if only the files stamped with that id were there: files of other sessions
  and files without a stamp never contribute.\<close>

theorem scan_is_session_scoped:
  "scan_declared ls (Some sid) = scan_declared (owned_files sid ls) None"
proof -
  have "concat (map (declared_entry (Some sid)) es) = concat (map (declared_entry None) (filter (owned_by sid) es))" for es
    by (induction es) (simp_all add: declared_scoped)
  then show ?thesis by (simp add: scan_declared_def markdown_owned)
qed


definition sample_hooks :: HookWorld where
  "sample_hooks = \<lparr>from_text = (\<lambda>raw. Some (JObj [(''source'', JStr ''resume''), (''cwd'', JStr ''/w'')])),
     to_text = (\<lambda>j. []), current_dir = ''/'',
     read_dir = (\<lambda>d. if d = ''/w/.cbc'' then Some [(''worker-a.md'', Some (state_file
       [''status: ACTIVE'', ''room-id: cbc-r-1'', ''model: opus''] [sample_connection ''cbc-r-1'']))] else None)\<rparr>"


text \<open>Marker files stay in their directory and tell sessions apart. The name of a liveness marker
  contains no slash and is neither \<open>.\<close> nor \<open>..\<close>; and for rooms without an underscore and
  identities made of marker characters, two markers are the same file only for the same room and
  identity.\<close>

lemma marker_keys_separate:
  assumes "CHR ''_'' \<notin> set room" and "CHR ''_'' \<notin> set room'"
    and "map marker_char room = room" and "map marker_char room' = room'"
    and "map marker_char i = i" and "map marker_char i' = i'"
  shows "(poll_alive_key room (Some i) = poll_alive_key room' (Some i') \<longleftrightarrow> room = room' \<and> i = i') \<and>
    (\<forall>r x. CHR ''/'' \<notin> set (poll_alive_key r x) \<and> poll_alive_key r x \<noteq> ''.'' \<and> poll_alive_key r x \<noteq> ''..'')"
proof
  have "poll_alive_key r (Some x) = map marker_char r @ CHR ''_'' # CHR ''_'' # map marker_char x" for r x
    by (simp add: poll_alive_key_def)
  then show "poll_alive_key room (Some i) = poll_alive_key room' (Some i') \<longleftrightarrow> room = room' \<and> i = i'"
    using assms split_at_first [OF assms(1,2), of "CHR ''_'' # i" "CHR ''_'' # i'"] by auto
  have "CHR ''/'' \<notin> set (poll_alive_key r x)" for r x
    using marker_char_safe by (auto simp: poll_alive_key_def) metis+
  moreover have "poll_alive_key r x \<noteq> ''.'' \<and> poll_alive_key r x \<noteq> ''..''" for r x
  proof -
    have "CHR ''_'' \<in> set (poll_alive_key r x)"
      by (auto simp: poll_alive_key_def split: option.split)
    moreover have "CHR ''_'' \<notin> set ''.''" "CHR ''_'' \<notin> set ''..''" by simp_all
    ultimately show ?thesis by metis
  qed
  ultimately show "\<forall>r x. CHR ''/'' \<notin> set (poll_alive_key r x) \<and> poll_alive_key r x \<noteq> ''.'' \<and> poll_alive_key r x \<noteq> ''..''"
    by blast
qed

text \<open>Outside that, markers collide, and a fresh marker of one session hides the silence of another.\<close>

lemma marker_collision: "poll_alive_key ''a'' (Some ''b__c'') = poll_alive_key ''a__b'' (Some ''c'')"
  by (simp add: poll_alive_key_def)

end
