(* ===== verification/Settings.thy ===== *)
theory Settings
  imports Json
begin

text \<open>
  \<open>bins/cbc/src/settings.rs\<close>: the edit of the host agent's settings file. The merge is a function of
  the JSON value that returns the edited value with its result; reading, backing up and writing work
  on an explicit disk. The parser and the printer of \<open>serde_json\<close> are arguments, and so is which
  paths cannot be read, written or created. A write that fails leaves the file as it was.
\<close>

section \<open>Merging\<close>

definition CBC_ALLOW_RULE :: string where "CBC_ALLOW_RULE = ''mcp__chatbotchat''"
definition CBC_SESSION_START_COMMAND :: string where "CBC_SESSION_START_COMMAND = ''cbc hook session-start''"
definition CBC_STOP_COMMAND :: string where "CBC_STOP_COMMAND = ''cbc hook stop''"

datatype Outcome = Created | Added | AlreadyPresent

text \<open>On the paths that push nothing both entries were there before, so nothing was inserted either.\<close>

definition ensure_allow_rule :: "json \<Rightarrow> string \<Rightarrow> (string + bool) \<times> json" where
  "ensure_allow_rule settings rule = (case as_object settings of
       None \<Rightarrow> (Inl ''settings root is not a JSON object; refusing to overwrite it'', settings)
     | Some root \<Rightarrow> (case as_object (obj_entry_or ''permissions'' (JObj []) root) of
           None \<Rightarrow> (Inl ''`permissions` is not a JSON object; refusing to overwrite it'', settings)
         | Some permissions \<Rightarrow> (case as_array (obj_entry_or ''allow'' (JArr []) permissions) of
               None \<Rightarrow> (Inl ''`permissions.allow` is not a JSON array; refusing to overwrite it'', settings)
             | Some allow \<Rightarrow>
                 if list_ex (\<lambda>v. as_str v = Some rule) allow then (Inr False, settings)
                 else (Inr True, JObj (obj_insert ''permissions''
                   (JObj (obj_insert ''allow'' (JArr (allow @ [JStr rule])) permissions)) root)))))"

definition has_command :: "string \<Rightarrow> json \<Rightarrow> bool" where
  "has_command command wrapper = (case and_then (get_member ''hooks'' wrapper) as_array of
       None \<Rightarrow> False
     | Some inner \<Rightarrow> list_ex (\<lambda>entry. and_then (get_member ''command'' entry) as_str = Some command) inner)"

definition command_hook :: "string \<Rightarrow> json" where
  "command_hook command = JObj [(''hooks'', JArr [JObj [(''type'', JStr ''command''), (''command'', JStr command)]])]"

definition ensure_command_hook :: "string \<Rightarrow> string \<Rightarrow> json \<Rightarrow> (string + bool) \<times> json" where
  "ensure_command_hook event command settings = (case as_object settings of
       None \<Rightarrow> (Inl ''settings root is not a JSON object; refusing to overwrite it'', settings)
     | Some root \<Rightarrow> (case as_object (obj_entry_or ''hooks'' (JObj []) root) of
           None \<Rightarrow> (Inl ''`hooks` is not a JSON object; refusing to overwrite it'', settings)
         | Some hooks_map \<Rightarrow> (case as_array (obj_entry_or event (JArr []) hooks_map) of
               None \<Rightarrow> (Inl (''`hooks.'' @ event @ ''` is not a JSON array; refusing to overwrite it''), settings)
             | Some event_arr \<Rightarrow>
                 if list_ex (has_command command) event_arr then (Inr False, settings)
                 else (Inr True, JObj (obj_insert ''hooks''
                   (JObj (obj_insert event (JArr (event_arr @ [command_hook command])) hooks_map)) root)))))"

definition ensure_session_start_hook :: "json \<Rightarrow> (string + bool) \<times> json" where
  "ensure_session_start_hook = ensure_command_hook ''SessionStart'' CBC_SESSION_START_COMMAND"

definition ensure_stop_hook :: "json \<Rightarrow> (string + bool) \<times> json" where
  "ensure_stop_hook = ensure_command_hook ''Stop'' CBC_STOP_COMMAND"

text \<open>Both, one after the other; the first error ends it.\<close>

definition ensure_hooks :: "json \<Rightarrow> (string + bool) \<times> json" where
  "ensure_hooks settings = (case ensure_session_start_hook settings of
       (Inl e, s) \<Rightarrow> (Inl e, s)
     | (Inr changed_session_start, s) \<Rightarrow> (case ensure_stop_hook s of
           (Inl e, s') \<Rightarrow> (Inl e, s')
         | (Inr changed_stop, s') \<Rightarrow> (Inr (changed_session_start \<or> changed_stop), s')))"

section \<open>The file\<close>

type_synonym disk = "string \<Rightarrow> string option"

text \<open>\<open>std::fs::write\<close> truncates before it writes: it may fail before it touches the file, or part way,
  with only a prefix of the text written.\<close>

datatype WriteResult = Written | Refused | Cut nat

record DiskWorld =
  parse_json :: "string \<Rightarrow> string + json"
  pretty :: "json \<Rightarrow> string"
  unreadable :: "string \<Rightarrow> bool"
  writing :: "string \<Rightarrow> WriteResult"
  no_parent :: "string \<Rightarrow> bool"

definition write_file :: "DiskWorld \<Rightarrow> string \<Rightarrow> string \<Rightarrow> disk \<Rightarrow> (string + unit) \<times> disk" where
  "write_file dw path text d = (case writing dw path of
       Written \<Rightarrow> (Inr (), d(path \<mapsto> text))
     | Refused \<Rightarrow> (Inl (''writing '' @ path), d)
     | Cut n \<Rightarrow> (Inl (''writing '' @ path), d(path \<mapsto> take n text)))"

definition backup_path :: "string \<Rightarrow> string" where
  "backup_path path = path @ ''.bak''"

definition apply_edit ::
  "(json \<Rightarrow> (string + bool) \<times> json) \<Rightarrow> DiskWorld \<Rightarrow> string \<Rightarrow> disk \<Rightarrow> (string + Outcome) \<times> disk" where
  "apply_edit edit dw path d =
     (let existed = (d path \<noteq> None);
          original = (case d path of None \<Rightarrow> [] | Some text \<Rightarrow> text)
      in if existed \<and> unreadable dw path then (Inl (''reading '' @ path), d)
         else (case (if trim original = [] then Inr (JObj []) else parse_json dw original) of
             Inl e \<Rightarrow> (Inl (''parsing '' @ path @ '' as JSON''), d)
           | Inr settings \<Rightarrow> (case edit settings of
               (Inl e, _) \<Rightarrow> (Inl e, d)
             | (Inr changed, settings) \<Rightarrow>
                 if \<not> changed then (Inr AlreadyPresent, d)
                 else
                   (case (if existed then write_file dw (backup_path path) original d
                          else if no_parent dw path then (Inl (''creating the parent of '' @ path), d)
                          else (Inr (), d)) of
                      (Inl e, d) \<Rightarrow> (Inl e, d)
                    | (Inr _, d) \<Rightarrow> (case write_file dw path (pretty dw settings @ [newline]) d of
                        (Inl e, d) \<Rightarrow> (Inl e, d)
                      | (Inr _, d) \<Rightarrow> (Inr (if existed then Added else Created), d))))))"

definition allow_cbc :: "json \<Rightarrow> (string + bool) \<times> json" where
  "allow_cbc settings = ensure_allow_rule settings CBC_ALLOW_RULE"

definition apply_allow_rule :: "DiskWorld \<Rightarrow> string \<Rightarrow> disk \<Rightarrow> (string + Outcome) \<times> disk" where
  "apply_allow_rule = apply_edit allow_cbc"

definition apply_hook_rule :: "DiskWorld \<Rightarrow> string \<Rightarrow> disk \<Rightarrow> (string + Outcome) \<times> disk" where
  "apply_hook_rule = apply_edit ensure_hooks"

text \<open>The value the file holds, an absent or blank file being an empty object; and a value whose printed
  text the parser reads back, as \<open>serde_json\<close> does for every value.\<close>

definition stored :: "DiskWorld \<Rightarrow> string \<Rightarrow> disk \<Rightarrow> json \<Rightarrow> bool" where
  "stored dw path d s \<longleftrightarrow> (case d path of None \<Rightarrow> s = JObj []
     | Some text \<Rightarrow> if trim text = [] then s = JObj [] else parse_json dw text = Inr s)"

definition reads_back :: "DiskWorld \<Rightarrow> json \<Rightarrow> bool" where
  "reads_back dw s \<longleftrightarrow> parse_json dw (pretty dw s @ [newline]) = Inr s \<and> trim (pretty dw s @ [newline]) \<noteq> []"

section \<open>What an edit promises\<close>

text \<open>An edit reports truthfully whether it changed the value, and doing it again changes nothing.\<close>

locale json_edit =
  fixes edit :: "json \<Rightarrow> (string + bool) \<times> json"
  assumes unchanged: "edit s = (Inr False, s') \<Longrightarrow> s' = s"
    and settled: "edit s = (Inr b, s') \<Longrightarrow> edit s' = (Inr False, s')"
begin

lemma apply_error_keeps:
  assumes "apply_edit edit dw path d = (Inl e, d')"
  shows "d' path = d path \<or> (\<exists>n. writing dw path = Cut n) \<and> (d path \<noteq> None \<longrightarrow> d' (backup_path path) = d path)"
  using assms
  by (auto simp: apply_edit_def Let_def write_file_def backup_path_def
      split: if_splits sum.splits prod.splits option.splits WriteResult.splits)

lemma apply_outcome:
  assumes "apply_edit edit dw path d = (Inr outcome, d')"
  shows "case outcome of
      AlreadyPresent \<Rightarrow> d' = d
    | Created \<Rightarrow> d path = None \<and> (\<exists>s. edit (JObj []) = (Inr True, s) \<and> d' = d(path \<mapsto> pretty dw s @ [newline]))
    | Added \<Rightarrow> \<exists>text s s'. d path = Some text \<and>
        (if trim text = [] then s = JObj [] else parse_json dw text = Inr s) \<and>
        edit s = (Inr True, s') \<and>
        d' = d(backup_path path \<mapsto> text, path \<mapsto> pretty dw s' @ [newline])"
  using assms
  by (auto simp: apply_edit_def Let_def write_file_def
      split: if_splits sum.splits prod.splits option.splits WriteResult.splits)

lemma apply_again:
  assumes "apply_edit edit dw path d = (Inr outcome, d')"
    and readable: "\<And>s s'. stored dw path d s \<Longrightarrow> edit s = (Inr True, s') \<Longrightarrow> reads_back dw s'"
    and "\<not> unreadable dw path"
  shows "apply_edit edit dw path d' = (Inr AlreadyPresent, d')"
proof -
  have again: "apply_edit edit dw path (f(path \<mapsto> pretty dw s' @ [newline])) =
      (Inr AlreadyPresent, f(path \<mapsto> pretty dw s' @ [newline]))"
    if "stored dw path d s" "edit s = (Inr True, s')" for f s s'
    using settled [OF that(2)] readable [OF that] assms(3) by (simp add: apply_edit_def reads_back_def)
  show ?thesis
  proof (cases outcome)
    case AlreadyPresent
    then have "d' = d" using apply_outcome [OF assms(1)] by simp
    with assms(1) AlreadyPresent show ?thesis by simp
  next
    case Created
    then show ?thesis using apply_outcome [OF assms(1)] again by (auto simp: stored_def)
  next
    case Added
    then obtain content s s' where src: "d path = Some content"
        "if trim content = [] then s = JObj [] else parse_json dw content = Inr s"
      and edited: "edit s = (Inr True, s')"
      and d': "d' = d(backup_path path \<mapsto> content, path \<mapsto> pretty dw s' @ [newline])"
      using apply_outcome [OF assms(1)] by auto
    from src have "stored dw path d s" by (simp add: stored_def)
    from again [OF this edited] show ?thesis unfolding d' .
  qed
qed

end

lemma as_object_iff [simp]: "as_object v = Some m \<longleftrightarrow> v = JObj m"
  by (cases v) auto

lemma as_array_iff [simp]: "as_array v = Some xs \<longleftrightarrow> v = JArr xs"
  by (cases v) auto

lemma obj_entry_or_insert [simp]: "obj_entry_or k d (obj_insert k v m) = v"
  by (simp add: obj_entry_or_def obj_get_insert)

lemma obj_entry_or_other: "k \<noteq> k' \<Longrightarrow> obj_entry_or k d (obj_insert k' v m) = obj_entry_or k d m"
  by (simp add: obj_entry_or_def obj_get_insert)

lemmas edit_splits = if_splits option.splits sum.splits prod.splits

interpretation allow_edit: json_edit "\<lambda>s. ensure_allow_rule s rule"
proof
  show "ensure_allow_rule s rule = (Inr False, s') \<Longrightarrow> s' = s" for s s'
    by (auto simp: ensure_allow_rule_def split: edit_splits)
  show "ensure_allow_rule s rule = (Inr b, s') \<Longrightarrow> ensure_allow_rule s' rule = (Inr False, s')" for s b s'
    by (auto simp: ensure_allow_rule_def split: edit_splits)
qed

lemma has_command_hook [simp]: "has_command command (command_hook command)"
  by (simp add: has_command_def command_hook_def)

lemma command_hook_iff:
  "ensure_command_hook event command s = (Inr b, s') \<longleftrightarrow>
    (\<exists>root hm arr. s = JObj root \<and> obj_entry_or ''hooks'' (JObj []) root = JObj hm \<and>
       obj_entry_or event (JArr []) hm = JArr arr \<and> b = (\<not> list_ex (has_command command) arr) \<and>
       s' = (if b then JObj (obj_insert ''hooks''
           (JObj (obj_insert event (JArr (arr @ [command_hook command])) hm)) root) else s))"
  unfolding ensure_command_hook_def by (auto split: edit_splits)

interpretation command_edit: json_edit "ensure_command_hook event command"
proof
  show "ensure_command_hook event command s = (Inr False, s') \<Longrightarrow> s' = s" for s s'
    by (auto simp: command_hook_iff)
  show "ensure_command_hook event command s' = (Inr False, s')"
    if edit: "ensure_command_hook event command s = (Inr b, s')" for s b s'
  proof (cases b)
    case True
    with edit obtain root hm arr where
      "s' = JObj (obj_insert ''hooks'' (JObj (obj_insert event (JArr (arr @ [command_hook command])) hm)) root)"
      unfolding command_hook_iff by auto
    then show ?thesis unfolding ensure_command_hook_def by simp
  next
    case False
    with edit have "s' = s" by (auto simp: command_hook_iff)
    with edit False show ?thesis by simp
  qed
qed

text \<open>Registering one event leaves another event registered.\<close>

lemma other_event_kept:
  assumes "ensure_command_hook event command s = (Inr False, s)" and "event \<noteq> event'"
    and "ensure_command_hook event' command' s = (Inr b, s')"
  shows "ensure_command_hook event command s' = (Inr False, s')"
proof (cases b)
  case True
  with assms(3) obtain root hm arr where s: "s = JObj root" "obj_entry_or ''hooks'' (JObj []) root = JObj hm"
    and s': "s' = JObj (obj_insert ''hooks'' (JObj (obj_insert event' (JArr (arr @ [command_hook command'])) hm)) root)"
    unfolding command_hook_iff by auto
  obtain arr where "obj_entry_or event (JArr []) hm = JArr arr" "list_ex (has_command command) arr"
    using assms(1) s unfolding command_hook_iff by auto
  with s' assms(2) show ?thesis unfolding ensure_command_hook_def by (simp add: obj_entry_or_other)
next
  case False
  then have "s' = s" using assms(3) command_edit.unchanged by simp
  with assms(1) show ?thesis by simp
qed

lemma ensure_hooks_Inr:
  assumes "ensure_hooks s = (Inr b, s')"
  obtains a c s1 where "ensure_session_start_hook s = (Inr a, s1)" and "ensure_stop_hook s1 = (Inr c, s')"
    and "b = (a \<or> c)"
proof -
  obtain x s1 where 1: "ensure_session_start_hook s = (x, s1)" by force
  with assms obtain a where x: "x = Inr a" by (cases x) (auto simp: ensure_hooks_def)
  obtain y s2 where 2: "ensure_stop_hook s1 = (y, s2)" by force
  with assms 1 x obtain c where "y = Inr c" "s2 = s'" "b = (a \<or> c)"
    by (cases y) (auto simp: ensure_hooks_def)
  with 1 2 x that show ?thesis by blast
qed

interpretation hooks_edit: json_edit ensure_hooks
proof
  show "s' = s" if edit: "ensure_hooks s = (Inr False, s')" for s s'
  proof -
    from edit obtain s1 where "ensure_session_start_hook s = (Inr False, s1)" "ensure_stop_hook s1 = (Inr False, s')"
      by (rule ensure_hooks_Inr) simp
    then show ?thesis
      unfolding ensure_session_start_hook_def ensure_stop_hook_def using command_edit.unchanged by blast
  qed
  show "ensure_hooks s' = (Inr False, s')" if edit: "ensure_hooks s = (Inr b, s')" for s b s'
  proof -
    from edit obtain a c s1 where 1: "ensure_session_start_hook s = (Inr a, s1)" and 2: "ensure_stop_hook s1 = (Inr c, s')"
      by (rule ensure_hooks_Inr)
    have events: "''SessionStart'' \<noteq> ''Stop''" by simp
    have "ensure_session_start_hook s1 = (Inr False, s1)"
      using 1 unfolding ensure_session_start_hook_def by (rule command_edit.settled)
    then have "ensure_session_start_hook s' = (Inr False, s')"
      using 2 unfolding ensure_session_start_hook_def ensure_stop_hook_def
      by (rule other_event_kept [OF _ events])
    moreover have "ensure_stop_hook s' = (Inr False, s')"
      using 2 unfolding ensure_stop_hook_def by (rule command_edit.settled)
    ultimately show ?thesis by (simp add: ensure_hooks_def)
  qed
qed

section \<open>Properties\<close>

text \<open>The members of an object, none for other values, and the elements of an array.\<close>

definition members :: "json \<Rightarrow> (string \<times> json) list" where
  "members v = (case as_object v of None \<Rightarrow> [] | Some m \<Rightarrow> m)"

definition elements :: "json option \<Rightarrow> json list" where
  "elements v = (case and_then v as_array of None \<Rightarrow> [] | Some xs \<Rightarrow> xs)"

definition permissions_of :: "json \<Rightarrow> (string \<times> json) list" where
  "permissions_of s = members (obj_entry_or ''permissions'' (JObj []) (members s))"

text \<open>The merge adds one rule and nothing else. A successful merge of the allow rule leaves every other
  setting and every other permission as it was and keeps all keys in their order; the allow list is the
  old one, with the rule appended exactly if it was not there, which is what the result says.\<close>

theorem allow_rule_merge:
  assumes "ensure_allow_rule s rule = (Inr changed, s')"
  shows "(\<forall>k. k \<noteq> ''permissions'' \<longrightarrow> obj_get k (members s') = obj_get k (members s)) \<and>
    (\<exists>new. map fst (members s') = map fst (members s) @ new) \<and>
    (\<forall>k. k \<noteq> ''allow'' \<longrightarrow> obj_get k (permissions_of s') = obj_get k (permissions_of s)) \<and>
    elements (obj_get ''allow'' (permissions_of s')) =
      elements (obj_get ''allow'' (permissions_of s)) @ (if changed then [JStr rule] else []) \<and>
    (changed \<longleftrightarrow> JStr rule \<notin> set (elements (obj_get ''allow'' (permissions_of s))))"
proof (cases changed)
  case False
  then have "s' = s" using assms allow_edit.unchanged by simp
  with assms False show ?thesis
    by (auto simp: ensure_allow_rule_def members_def permissions_of_def elements_def obj_entry_or_def
        list_ex_iff split: edit_splits)
next
  case True
  then obtain root perms allow where s: "s = JObj root" "obj_entry_or ''permissions'' (JObj []) root = JObj perms"
      "obj_entry_or ''allow'' (JArr []) perms = JArr allow" "\<not> list_ex (\<lambda>v. as_str v = Some rule) allow"
    and s': "s' = JObj (obj_insert ''permissions'' (JObj (obj_insert ''allow'' (JArr (allow @ [JStr rule])) perms)) root)"
    using assms by (auto simp: ensure_allow_rule_def split: edit_splits)
  have perms: "permissions_of s = perms"
    "permissions_of s' = obj_insert ''allow'' (JArr (allow @ [JStr rule])) perms"
    using s s' by (simp_all add: permissions_of_def members_def)
  have "elements (obj_get ''allow'' perms) = allow"
    using s(3) by (auto simp: elements_def obj_entry_or_def split: option.splits)
  moreover have "JStr rule \<notin> set allow" using s(4) by (auto simp: list_ex_iff)
  moreover have "members s = root" "members s' = obj_insert ''permissions'' (JObj (permissions_of s')) root"
    using s(1) s' perms(2) by (simp_all add: members_def)
  ultimately show ?thesis
    using True json_object.keys_prefix [of "''permissions''" _ root]
    unfolding perms by (auto simp: obj_get_insert elements_def)
qed

theorem allow_rule_merge_witness:
  "ensure_allow_rule (JObj [(''model'', JStr ''opus''), (''permissions'', JObj [(''allow'', JArr [JStr ''Bash''])])]) CBC_ALLOW_RULE =
     (Inr True, JObj [(''model'', JStr ''opus''), (''permissions'', JObj [(''allow'', JArr [JStr ''Bash'', JStr CBC_ALLOW_RULE])])]) \<and>
   JStr CBC_ALLOW_RULE \<notin> {JStr ''Bash''}"
proof -
  have "ensure_allow_rule (JObj [(''model'', JStr ''opus''), (''permissions'', JObj [(''allow'', JArr [JStr ''Bash''])])]) CBC_ALLOW_RULE =
     (Inr True, JObj [(''model'', JStr ''opus''), (''permissions'', JObj [(''allow'', JArr [JStr ''Bash'', JStr CBC_ALLOW_RULE])])])"
    by (simp add: ensure_allow_rule_def obj_entry_or_def CBC_ALLOW_RULE_def)
  with allow_rule_merge [OF this] show ?thesis
    by (simp add: permissions_of_def members_def obj_entry_or_def elements_def)
qed

text \<open>C35: the settings file is edited once and never lost. For both edits: an error leaves the file as it
  was, unless the write of the new text was cut short, and then the old text is in the backup; a success on an existing file has written its old text to the backup; and, if the value written
  can be read back, a second run finds the work done and writes nothing.\<close>

theorem settings_edit_is_safe:
  assumes "(edit, merge) \<in> {(apply_allow_rule, allow_cbc), (apply_hook_rule, ensure_hooks)}"
    and "\<And>s s'. stored dw path d s \<Longrightarrow> merge s = (Inr True, s') \<Longrightarrow> reads_back dw s'"
    and "\<not> unreadable dw path" and "edit dw path d = (result, d')"
  shows "case result of
      Inl e \<Rightarrow> d' path = d path \<or>
        (\<exists>n. writing dw path = Cut n) \<and> (d path \<noteq> None \<longrightarrow> d' (backup_path path) = d path)
    | Inr outcome \<Rightarrow> edit dw path d' = (Inr AlreadyPresent, d') \<and>
        (outcome = Added \<longrightarrow> d' (backup_path path) = d path) \<and> (outcome = AlreadyPresent \<longrightarrow> d' = d) \<and>
        (outcome = Created \<longrightarrow> d path = None \<and> d' path \<noteq> None)"
proof -
  have bak: "backup_path path \<noteq> path" by (simp add: backup_path_def)
  have edit: "edit = apply_edit merge" and merge: "json_edit merge"
    using assms(1) allow_edit.json_edit_axioms [of CBC_ALLOW_RULE] hooks_edit.json_edit_axioms
    by (auto simp: apply_allow_rule_def apply_hook_rule_def allow_cbc_def [abs_def])
  note facts = json_edit.apply_error_keeps [OF merge] json_edit.apply_again [OF merge _ assms(2,3)]
    json_edit.apply_outcome [OF merge]
  show ?thesis
    using assms(4) facts bak unfolding edit by (cases result) (fastforce split: Outcome.splits)+
qed

definition sample_disk :: DiskWorld where
  "sample_disk = \<lparr>parse_json = (\<lambda>t. Inr (snd (allow_cbc (JObj [])))), pretty = (\<lambda>s. ''{}''), unreadable = (\<lambda>p. False),
     writing = (\<lambda>p. Written), no_parent = (\<lambda>p. False)\<rparr>"

theorem settings_edit_is_safe_witness:
  "\<exists>d. apply_allow_rule sample_disk ''s.json'' (\<lambda>p. None) = (Inr Created, d) \<and>
     apply_allow_rule sample_disk ''s.json'' d = (Inr AlreadyPresent, d)"
proof -
  let ?d = "(\<lambda>p. None)(''s.json'' \<mapsto> ''{}'' @ [newline])"
  have created: "apply_allow_rule sample_disk ''s.json'' (\<lambda>p. None) = (Inr Created, ?d)"
    by (simp add: apply_allow_rule_def apply_edit_def sample_disk_def allow_cbc_def ensure_allow_rule_def
        obj_entry_or_def write_file_def)
  have pair: "(apply_allow_rule, allow_cbc) \<in> {(apply_allow_rule, allow_cbc), (apply_hook_rule, ensure_hooks)}"
    and fine: "\<not> unreadable sample_disk ''s.json''" by (simp_all add: sample_disk_def)
  have reread: "stored sample_disk ''s.json'' (\<lambda>p. None) s \<Longrightarrow> allow_cbc s = (Inr True, s') \<Longrightarrow> reads_back sample_disk s'" for s s'
    by (auto simp: stored_def reads_back_def sample_disk_def trim_def trim_start_def trim_end_matches_def is_space_def)
  from settings_edit_is_safe [OF pair reread fine created] created show ?thesis by auto
qed

end
