(* ===== verification/RoomSpec.thy ===== *)
theory RoomSpec
  imports HttpRooms Samples
begin

text \<open>
  Opening and joining: which id a room gets, who a joining agent becomes, and what it has read.
\<close>

section \<open>Opening\<close>

definition free_attempt :: "Db \<Rightarrow> string \<Rightarrow> nat \<Rightarrow> nat option" where
  "free_attempt d base k = find (\<lambda>a. \<not> room_exists d (candidate_id base a)) [k..<Suc MAX_ATTEMPTS]"

lemma new_room_id: "r_id (new_room req cfg now rid) = rid"
  by (simp add: new_room_def)

lemma free_attempt_rec:
  assumes "k \<le> MAX_ATTEMPTS"
  shows "free_attempt d base k = (if room_exists d (candidate_id base k)
     then if k < MAX_ATTEMPTS then free_attempt d base (Suc k) else None else Some k)"
proof -
  have "[k..<Suc MAX_ATTEMPTS] = k # [Suc k..<Suc MAX_ATTEMPTS]" using assms by (rule upt_conv_Cons [OF le_imp_less_Suc])
  moreover have "[Suc k..<Suc MAX_ATTEMPTS] = []" if "\<not> k < MAX_ATTEMPTS" using that by simp
  ultimately show ?thesis by (auto simp: free_attempt_def simp del: upt_Suc)
qed

lemma run_open_loop:
  assumes "1 \<le> k" and "k \<le> MAX_ATTEMPTS"
  shows "run (open_loop req cfg now base k) w =
    (case free_attempt (w_db w) base k of
       None \<Rightarrow> Some (Inl (Internal UniqueViolation), w)
     | Some a \<Rightarrow> Some (Inr \<lparr>os_room_id = candidate_id base a, os_share_line = share_line (candidate_id base a)\<rparr>,
         w\<lparr>w_db := (w_db w)\<lparr>rooms := rooms (w_db w) @ [room_to_row (new_room req cfg now (candidate_id base a))]\<rparr>\<rparr>))"
  using assms
proof (induction "MAX_ATTEMPTS - k" arbitrary: k rule: less_induct)
  case less
  show ?case
  proof (cases "room_exists (w_db w) (candidate_id base k) \<and> k < MAX_ATTEMPTS")
    case True
    then have "MAX_ATTEMPTS - Suc k < MAX_ATTEMPTS - k" "1 \<le> Suc k" "Suc k \<le> MAX_ATTEMPTS" by auto
    note IH = less.hyps [OF this]
    with True show ?thesis
      by (subst open_loop.simps) (simp add: free_attempt_rec [of k] run_simps create_room_def new_room_id)
  next
    case False
    with less.prems show ?thesis
      by (subst open_loop.simps)
        (auto simp: free_attempt_rec [of k] run_simps create_room_def new_room_id from_storage_def)
  qed
qed

lemma run_open_room:
  "run (open_room civil_of req) w =
    (let base = room_id (or_subject req) (civil_of (w_now w)); cfg = requested_config req
     in if hard_cap cfg < 1 \<or> soft_cap cfg < 2 then
          Some (Inl (BadRequest (''invalid caps: hard_cap must be >= 1 and soft_cap >= 2 (got hard_cap='' @
            show_u32 (hard_cap cfg) @ '', soft_cap='' @ show_u32 (soft_cap cfg) @ '')'')), w)
        else (case free_attempt (w_db w) base 1 of
            None \<Rightarrow> Some (Inl (Internal UniqueViolation), w)
          | Some a \<Rightarrow> Some (Inr \<lparr>os_room_id = candidate_id base a, os_share_line = share_line (candidate_id base a)\<rparr>,
              w\<lparr>w_db := (w_db w)\<lparr>rooms := rooms (w_db w) @
                [room_to_row (new_room req cfg (w_now w) (candidate_id base a))]\<rparr>\<rparr>)))"
  by (simp add: open_room_def Let_def run_simps run_open_loop MAX_ATTEMPTS_def)

text \<open>Opening a room. Caps that make no sense are refused and nothing is written; otherwise the room is
  created under the first free of the 64 candidate ids of its subject and minute, with the requested
  caps over the defaults, empty and active, and the answer is that id and its share line; if all are
  taken the call fails and nothing is written.\<close>

lemma open_room_outcome:
  "run (open_room civil_of req) w =
    (let base = room_id (or_subject req) (civil_of (w_now w)); cfg = requested_config req
     in if hard_cap cfg < 1 \<or> soft_cap cfg < 2 then
          Some (Inl (BadRequest (''invalid caps: hard_cap must be >= 1 and soft_cap >= 2 (got hard_cap='' @
            show_u32 (hard_cap cfg) @ '', soft_cap='' @ show_u32 (soft_cap cfg) @ '')'')), w)
        else (case free_attempt (w_db w) base 1 of
            None \<Rightarrow> Some (Inl (Internal UniqueViolation), w)
          | Some a \<Rightarrow> Some (Inr \<lparr>os_room_id = candidate_id base a, os_share_line = share_line (candidate_id base a)\<rparr>,
              w\<lparr>w_db := (w_db w)\<lparr>rooms := rooms (w_db w) @
                [room_to_row (new_room req cfg (w_now w) (candidate_id base a))]\<rparr>\<rparr>)))"
  by (rule run_open_room)

text \<open>A room survives its row.\<close>

lemma row_roundtrip: "row_to_room (room_to_row r) = Inr r"
  using uint_lt2p [of "hard_cap (config r)"] uint_lt2p [of "soft_cap (config r)"]
  by (simp add: row_to_room_def room_to_row_def config_from_json_def config_to_json_def with_config_def
      fits_u32_def)

lemma get_created_room:
  assumes "\<not> room_exists d (r_id room)"
  shows "get_room (r_id room) (d\<lparr>rooms := rooms d @ [room_to_row room]\<rparr>) = Inr (Some room)"
proof -
  have "r_id (room_to_row room) = r_id room" by (simp add: room_to_row_def with_config_def)
  moreover have "find (\<lambda>r. r_id r = r_id room) (rooms d) = None"
    using assms by (auto simp: find_None_iff room_exists_def list_ex_iff)
  ultimately show ?thesis by (simp add: get_room_def find_append row_roundtrip)
qed

lemma free_attempt_free: "free_attempt d base k = Some a \<Longrightarrow> \<not> room_exists d (candidate_id base a)"
  by (auto simp: free_attempt_def dest: find_SomeD)

section \<open>Joining\<close>

definition recent_up_to :: "(time \<Rightarrow> string) \<Rightarrow> string \<Rightarrow> Db \<Rightarrow> int \<Rightarrow> MessageView list" where
  "recent_up_to fmt rid d cursor = map (message_view fmt) (recent_messages_up_to rid cursor RECENT_MESSAGE_LIMIT d)"

definition joined_db ::
  "string \<Rightarrow> JoinIdentity \<Rightarrow> string option \<Rightarrow> time \<Rightarrow> string \<Rightarrow> Db \<Rightarrow> Db" where
  "joined_db rid ident nick now h d =
     d\<lparr>participants := participants d @ [new_participant ident rid h (current_seq rid d) nick now]\<rparr>"

lemma room_found: "get_room rid d = Inr (Some room) \<Longrightarrow> room_exists d rid"
  by (auto simp: get_room_def room_exists_def list_ex_iff find_Some_iff split: option.splits sum.splits)

lemma unclaimed_handle:
  assumes "get_participant_by_instance rid (i_instance ident) d = None"
  shows "\<exists>h. derive_handle ident (list_participants fmt rid d) cands = Created h"
proof -
  have "find (\<lambda>p. p_instance p = i_instance ident) (list_participants fmt rid d) = None"
    using assms by (auto simp: find_None_iff get_participant_by_instance_def list_participants_def)
  then show ?thesis by (simp add: derive_handle_def)
qed

lemma new_participant_fields:
  "p_handle (new_participant ident rid h c nick now) = h" "p_room_id (new_participant ident rid h c nick now) = rid"
  "p_instance (new_participant ident rid h c nick now) = i_instance ident"
  by (simp_all add: new_participant_def)

lemma run_join_loop:
  assumes "get_participant_by_instance rid (i_instance ident) (w_db w) = None"
    and "room_exists (w_db w) rid" and "start = current_seq rid (w_db w)"
  shows "(\<exists>h. h \<notin> p_handle ` set (participants (w_db w)) \<and>
      run (join_loop fmt rid room ident nick start sess k) w =
        Some (Inr (join_response h False room (recent_up_to fmt rid (w_db w) start)),
          w\<lparr>w_db := joined_db rid ident nick (w_now w) h (w_db w)\<rparr>)) \<or>
    run (join_loop fmt rid room ident nick start sess k) w = Some (Inl (Internal UniqueViolation), w)"
    (is "?P k")
proof (induction "MAX_ATTEMPTS - k" arbitrary: k rule: less_induct)
  case less
  obtain h where h: "derive_handle ident (list_participants fmt rid (w_db w)) (sess k) = Created h"
    using unclaimed_handle [OF assms(1)] by blast
  let ?p = "new_participant ident rid h start nick (w_now w)"
  have inst: "\<not> (p_room_id q = rid \<and> p_instance q = i_instance ident)" if "q \<in> set (participants (w_db w))" for q
    using assms(1) that by (auto simp: get_participant_by_instance_def find_None_iff)
  show ?case
  proof (cases "h \<in> p_handle ` set (participants (w_db w))")
    case False
    then have "create_participant ?p (w_db w) = (Inr (), joined_db rid ident nick (w_now w) h (w_db w))"
      using inst assms(2,3) by (auto simp: create_participant_def new_participant_fields list_ex_iff joined_db_def)
    then have "run (join_loop fmt rid room ident nick start sess k) w =
        Some (Inr (join_response h False room (recent_up_to fmt rid (w_db w) start)),
          w\<lparr>w_db := joined_db rid ident nick (w_now w) h (w_db w)\<rparr>)"
      by (subst join_loop.simps) (simp add: h run_simps join_fresh_def recent_message_views_up_to_def
        recent_up_to_def recent_messages_up_to_def joined_db_def)
    with False show ?thesis by blast
  next
    case True
    then have taken: "create_participant ?p (w_db w) = (Inl UniqueViolation, w_db w)"
      by (auto simp: create_participant_def new_participant_fields list_ex_iff)
    show ?thesis
    proof (cases "k < MAX_ATTEMPTS")
      case True
      then have "?P (k + 1)" by (intro less.hyps) simp
      moreover have "run (join_loop fmt rid room ident nick start sess k) w =
          run (join_loop fmt rid room ident nick start sess (k + 1)) w"
        by (subst join_loop.simps) (simp add: h run_simps taken True assms(1))
      ultimately show ?thesis by simp
    next
      case False
      then show ?thesis
        by (subst (2) join_loop.simps) (simp add: h run_simps taken from_storage_def)
    qed
  qed
qed

lemma run_join_room:
  assumes "get_room rid (w_db w) = Inr (Some room)"
  shows "let d = w_db w; inst = caller_instance req; nick = normalize_nickname (jr_nickname req)
    in case resolved rid inst d of
      Some p \<Rightarrow> run (join_room fmt sess rid req) w =
        Some (Inr (join_response (p_handle p) True room (recent_up_to fmt rid d (last_read_seq p))),
          w\<lparr>w_db := if nick = None then d else snd (set_nickname (p_handle p) nick d)\<rparr>)
    | None \<Rightarrow> (\<exists>h. h \<notin> p_handle ` set (participants d) \<and> run (join_room fmt sess rid req) w =
        Some (Inr (join_response h False room (recent_up_to fmt rid d (current_seq rid d))),
          w\<lparr>w_db := joined_db rid (join_identity req) nick (w_now w) h d\<rparr>)) \<or>
        run (join_room fmt sess rid req) w = Some (Inl (Internal UniqueViolation), w)"
proof (cases "resolved rid (caller_instance req) (w_db w)")
  case (Some p)
  have "i_instance (join_identity req) = caller_instance req" by (simp add: join_identity_def)
  with Some show ?thesis
    by (simp add: Let_def join_room_def run_simps assms maybe_nickname_def join_resumed_def
        recent_message_views_up_to_def recent_up_to_def set_nickname_def update_participant_def
        recent_messages_up_to_def)
next
  case None
  have inst: "i_instance (join_identity req) = caller_instance req" by (simp add: join_identity_def)
  from None have "get_participant_by_instance rid (i_instance (join_identity req)) (w_db w) = None"
    by (simp add: inst resolved_def split: option.splits)
  from run_join_loop [OF this room_found [OF assms] refl] None show ?thesis
    by (simp add: Let_def join_room_def run_simps assms inst)
qed


definition join_request :: "string \<Rightarrow> JoinRoomRequest" where
  "join_request inst = \<lparr>q_repo = ''repo'', q_model = ''m'', q_cwd = ''/w'', q_instance = inst, jr_nickname = None\<rparr>"


lemma resolved_update:
  assumes "\<And>q. p_handle (f q) = p_handle q \<and> p_room_id (f q) = p_room_id q \<and> p_instance (f q) = p_instance q"
  shows "resolved rid inst (snd (update_participant h f d)) =
    map_option (\<lambda>q. if p_handle q = h then f q else q) (resolved rid inst d)"
  using assms by (auto simp: resolved_def update_participant_def get_participant_by_instance_def
      get_participant_by_handle_def update_where_def find_map_same split: option.splits)

text \<open>Whoever joined is found again under the instance it presented.\<close>

lemma joined_resolves:
  assumes "run (join_room fmt sess rid req) w = Some (Inr resp, w')"
  shows "\<exists>p. resolved rid (caller_instance req) (w_db w') = Some p \<and> p_handle p = js_handle resp \<and>
    rooms (w_db w') = rooms (w_db w)"
proof -
  obtain room where room: "get_room rid (w_db w) = Inr (Some room)"
    using assms(1) by (auto simp: join_room_def run_simps split: sum.splits option.splits)
  note outcome = run_join_room [OF room, of req fmt sess]
  show ?thesis
  proof (cases "resolved rid (caller_instance req) (w_db w)")
    case None
    then obtain h where h: "resp = join_response h False room (recent_up_to fmt rid (w_db w) (current_seq rid (w_db w)))"
      "w_db w' = joined_db rid (join_identity req) (normalize_nickname (jr_nickname req)) (w_now w) h (w_db w)"
      using outcome assms(1) by (auto simp: Let_def)
    have "resolved rid (caller_instance req) (w_db w') =
        Some (new_participant (join_identity req) rid h (current_seq rid (w_db w))
          (normalize_nickname (jr_nickname req)) (w_now w))"
      using None by (auto simp: resolved_def h joined_db_def get_participant_by_instance_def
          new_participant_fields join_identity_def find_append split: option.splits)
    then show ?thesis by (simp add: h new_participant_fields join_response_def joined_db_def)
  next
    case (Some q)
    then have q: "resp = join_response (p_handle q) True room (recent_up_to fmt rid (w_db w) (last_read_seq q))"
      "w_db w' = (if normalize_nickname (jr_nickname req) = None then w_db w
         else snd (set_nickname (p_handle q) (normalize_nickname (jr_nickname req)) (w_db w)))"
      using outcome assms(1) by (auto simp: Let_def)
    let ?q = "if normalize_nickname (jr_nickname req) = None then q
      else q\<lparr>nickname := normalize_nickname (jr_nickname req)\<rparr>"
    have "resolved rid (caller_instance req) (w_db w') = Some ?q"
      by (simp add: q Some set_nickname_def resolved_update)
    then show ?thesis by (simp add: q join_response_def set_nickname_def update_participant_def)
  qed
qed

text \<open>Joining again under the same instance resumes the same handle and adds nobody.\<close>

lemma rejoin_keeps_identity:
  assumes "run (join_room fmt sess rid req) w = Some (Inr resp, w')"
    and "caller_instance req' = caller_instance req"
  shows "\<exists>resp' w''. run (join_room fmt sess' rid req') w' = Some (Inr resp', w'') \<and>
    js_handle resp' = js_handle resp \<and> js_resumed resp' \<and>
    map p_handle (participants (w_db w'')) = map p_handle (participants (w_db w'))"
proof -
  obtain room where "get_room rid (w_db w) = Inr (Some room)"
    using assms(1) by (auto simp: join_room_def run_simps split: sum.splits option.splits)
  moreover obtain p where p: "resolved rid (caller_instance req) (w_db w') = Some p" "p_handle p = js_handle resp"
    and "rooms (w_db w') = rooms (w_db w)"
    using joined_resolves [OF assms(1)] by blast
  ultimately have "get_room rid (w_db w') = Inr (Some room)" by (simp add: get_room_def)
  from run_join_room [OF this, of req' fmt sess'] p show ?thesis
    by (auto simp: Let_def assms(2) join_response_def set_nickname_def update_participant_def
        update_where_def)
qed

end
