(* ===== verification/Client.thy ===== *)
theory Client
  imports HttpRooms HttpWait HttpConsensus
begin

text \<open>
  The two ends of the wire: \<open>crates/chatbotchat-client/src/lib.rs\<close>, which turns a call into a request
  and an answer into a result, and \<open>router\<close> of \<open>http.rs\<close>, which turns a request into a call of a
  handler. A body travels as its typed record, since both crates share the types of the protocol
  crate; how an URL splits into decoded path segments (\<open>reqwest\<close>, \<open>axum\<close>) is the argument \<open>path\<close>, the
  reason phrase of a status code the argument \<open>canonical\<close>, and what \<open>axum\<close> answers to a body it cannot
  extract is part of the daemon's record.
\<close>

section \<open>Requests\<close>

datatype Method = GET | POST

text \<open>JSON bodies, and the two query strings.\<close>

datatype Payload =
    NoPayload
  | OpenPayload OpenRoomRequest
  | JoinPayload JoinRoomRequest
  | SendPayload SendMessageRequest
  | SignalPayload SignalRequest
  | LifecyclePayload LifecycleRequest
  | ExtendPayload ExtendRequest
  | WaitQuery WaitRequest
  | RoomsQuery "(string \<times> string) list"

text \<open>The timeout is in seconds; without one \<open>reqwest\<close> waits for the answer.\<close>

record HttpRequest =
  hq_method :: Method
  hq_url :: string
  hq_payload :: Payload
  hq_timeout :: "64 word option"

datatype Reply =
    OpenReply OpenRoomResponse
  | StatusReply RoomStatus
  | ListReply "RoomSummary list"
  | TranscriptReply RoomTranscript
  | JoinReply JoinRoomResponse
  | SendReply SendMessageResponse
  | SignalReply SignalResponse
  | WaitReply WaitResponse
  | LifecycleReply LifecycleResponse
  | ExtendReply ExtendResponse
  | PruneReply PruneResponse

datatype Body = ReplyBody Reply | EnvelopeBody ErrorEnvelope | TextBody string

record HttpResponse =
  hs_status :: nat
  hs_body :: Body

section \<open>The client\<close>

datatype ClientError = Transport | Server nat string

definition HttpClient_new :: "string \<Rightarrow> string" where
  "HttpClient_new base_url = trim_end_matches (\<lambda>c. c = CHR ''/'') base_url"

definition post :: "string \<Rightarrow> Payload \<Rightarrow> HttpRequest" where
  "post url payload = \<lparr>hq_method = POST, hq_url = url, hq_payload = payload, hq_timeout = None\<rparr>"

definition get :: "string \<Rightarrow> Payload \<Rightarrow> HttpRequest" where
  "get url payload = \<lparr>hq_method = GET, hq_url = url, hq_payload = payload, hq_timeout = None\<rparr>"

definition client_open_room :: "string \<Rightarrow> string \<Rightarrow> u32 option \<Rightarrow> u32 option \<Rightarrow> HttpRequest" where
  "client_open_room base subj hard soft = post (base @ ''/rooms'')
     (OpenPayload \<lparr>or_subject = subj, or_hard_cap = hard, or_soft_cap = soft, or_prev_room_id = None\<rparr>)"

definition client_join_room ::
  "string \<Rightarrow> string \<Rightarrow> string \<Rightarrow> string \<Rightarrow> string \<Rightarrow> string \<Rightarrow> string option \<Rightarrow> HttpRequest" where
  "client_join_room base rid rp md cw inst nick = post (base @ ''/rooms/'' @ rid @ ''/join'')
     (JoinPayload \<lparr>q_repo = rp, q_model = md, q_cwd = cw, q_instance = inst, jr_nickname = nick\<rparr>)"

definition client_send_message ::
  "string \<Rightarrow> string \<Rightarrow> string \<Rightarrow> string \<Rightarrow> string \<Rightarrow> string \<Rightarrow> string option \<Rightarrow> string \<Rightarrow> bool \<Rightarrow> HttpRequest" where
  "client_send_message base rid rp md cw inst to body human = post (base @ ''/rooms/'' @ rid @ ''/messages'')
     (SendPayload \<lparr>q_repo = rp, q_model = md, q_cwd = cw, q_instance = inst, sm_to = to, sm_body = body,
        sm_from_human = human\<rparr>)"

definition wait_timeout :: "u32 option \<Rightarrow> 64 word" where
  "wait_timeout max_wait_secs = (case max_wait_secs of Some secs \<Rightarrow> ucast secs + 30 | None \<Rightarrow> 660)"

definition client_wait ::
  "string \<Rightarrow> string \<Rightarrow> string \<Rightarrow> string \<Rightarrow> string \<Rightarrow> string \<Rightarrow> u32 option \<Rightarrow> HttpRequest" where
  "client_wait base rid rp md cw inst max_wait_secs = (get (base @ ''/rooms/'' @ rid @ ''/wait'')
     (WaitQuery \<lparr>q_repo = rp, q_model = md, q_cwd = cw, q_instance = inst, wr_max_wait_secs = max_wait_secs\<rparr>))
     \<lparr>hq_timeout := Some (wait_timeout max_wait_secs)\<rparr>"

definition client_signal ::
  "string \<Rightarrow> string \<Rightarrow> string \<Rightarrow> string \<Rightarrow> string \<Rightarrow> string \<Rightarrow> string \<Rightarrow> string option \<Rightarrow> string option \<Rightarrow> HttpRequest" where
  "client_signal base rid rp md cw inst ty sev question = post (base @ ''/rooms/'' @ rid @ ''/signals'')
     (SignalPayload \<lparr>q_repo = rp, q_model = md, q_cwd = cw, q_instance = inst, sg_signal_type = ty,
        sg_severity = sev, sg_question_text = question, sg_reason = None\<rparr>)"

definition client_status :: "string \<Rightarrow> string \<Rightarrow> HttpRequest" where
  "client_status base rid = get (base @ ''/rooms/'' @ rid) NoPayload"

definition client_prune :: "string \<Rightarrow> string \<Rightarrow> HttpRequest" where
  "client_prune base rid = post (base @ ''/rooms/'' @ rid @ ''/prune'') NoPayload"

definition client_list_rooms :: "string \<Rightarrow> string option \<Rightarrow> bool \<Rightarrow> HttpRequest" where
  "client_list_rooms base state all = get (base @ ''/rooms'')
     (RoomsQuery ((case state of Some s \<Rightarrow> [(''state'', s)] | None \<Rightarrow> []) @ (if all then [(''all'', ''true'')] else [])))"

definition client_transcript :: "string \<Rightarrow> string \<Rightarrow> HttpRequest" where
  "client_transcript base rid = get (base @ ''/rooms/'' @ rid @ ''/transcript'') NoPayload"

definition client_lifecycle ::
  "string \<Rightarrow> string \<Rightarrow> string \<Rightarrow> string \<Rightarrow> string \<Rightarrow> string \<Rightarrow> string \<Rightarrow> string option \<Rightarrow> bool \<Rightarrow> HttpRequest" where
  "client_lifecycle base rid op rp md cw inst reason force = post (base @ ''/rooms/'' @ rid @ ''/'' @ op)
     (LifecyclePayload \<lparr>q_repo = rp, q_model = md, q_cwd = cw, q_instance = inst, lr_reason = reason,
        lr_force = force\<rparr>)"

definition client_close :: "string \<Rightarrow> string \<Rightarrow> string \<Rightarrow> string \<Rightarrow> string \<Rightarrow> string \<Rightarrow> bool \<Rightarrow> HttpRequest" where
  "client_close base rid rp md cw inst force = client_lifecycle base rid ''close'' rp md cw inst None force"

definition client_pause ::
  "string \<Rightarrow> string \<Rightarrow> string \<Rightarrow> string \<Rightarrow> string \<Rightarrow> string \<Rightarrow> string option \<Rightarrow> HttpRequest" where
  "client_pause base rid rp md cw inst reason = client_lifecycle base rid ''pause'' rp md cw inst reason False"

definition client_wake :: "string \<Rightarrow> string \<Rightarrow> string \<Rightarrow> string \<Rightarrow> string \<Rightarrow> string \<Rightarrow> HttpRequest" where
  "client_wake base rid rp md cw inst = client_lifecycle base rid ''wake'' rp md cw inst None False"

definition client_extend :: "string \<Rightarrow> string \<Rightarrow> string \<Rightarrow> string \<Rightarrow> string \<Rightarrow> string \<Rightarrow> HttpRequest" where
  "client_extend base rid rp md cw inst = post (base @ ''/rooms/'' @ rid @ ''/extend'')
     (ExtendPayload \<lparr>q_repo = rp, q_model = md, q_cwd = cw, q_instance = inst\<rparr>)"

text \<open>\<open>pick\<close> is the type the caller expects; a successful answer of another shape does not decode.\<close>

definition decode :: "(nat \<Rightarrow> string option) \<Rightarrow> (Reply \<Rightarrow> 'a option) \<Rightarrow> HttpResponse \<Rightarrow> ClientError + 'a" where
  "decode canonical pick resp =
     (if 200 \<le> hs_status resp \<and> hs_status resp < 300 then
        (case hs_body resp of
           ReplyBody r \<Rightarrow> (case pick r of Some a \<Rightarrow> Inr a | None \<Rightarrow> Inl Transport)
         | _ \<Rightarrow> Inl Transport)
      else Inl (Server (hs_status resp)
        (case hs_body resp of
           EnvelopeBody env \<Rightarrow> ee_error env
         | _ \<Rightarrow> (case canonical (hs_status resp) of Some s \<Rightarrow> s | None \<Rightarrow> ''unknown error''))))"

fun open_reply :: "Reply \<Rightarrow> OpenRoomResponse option" where
  "open_reply (OpenReply r) = Some r" | "open_reply _ = None"

fun status_reply :: "Reply \<Rightarrow> RoomStatus option" where
  "status_reply (StatusReply r) = Some r" | "status_reply _ = None"

fun list_reply :: "Reply \<Rightarrow> RoomSummary list option" where
  "list_reply (ListReply r) = Some r" | "list_reply _ = None"

fun transcript_reply :: "Reply \<Rightarrow> RoomTranscript option" where
  "transcript_reply (TranscriptReply r) = Some r" | "transcript_reply _ = None"

fun join_reply :: "Reply \<Rightarrow> JoinRoomResponse option" where
  "join_reply (JoinReply r) = Some r" | "join_reply _ = None"

fun send_reply :: "Reply \<Rightarrow> SendMessageResponse option" where
  "send_reply (SendReply r) = Some r" | "send_reply _ = None"

fun signal_reply :: "Reply \<Rightarrow> SignalResponse option" where
  "signal_reply (SignalReply r) = Some r" | "signal_reply _ = None"

fun wait_reply :: "Reply \<Rightarrow> WaitResponse option" where
  "wait_reply (WaitReply r) = Some r" | "wait_reply _ = None"

fun lifecycle_reply :: "Reply \<Rightarrow> LifecycleResponse option" where
  "lifecycle_reply (LifecycleReply r) = Some r" | "lifecycle_reply _ = None"

fun extend_reply :: "Reply \<Rightarrow> ExtendResponse option" where
  "extend_reply (ExtendReply r) = Some r" | "extend_reply _ = None"

fun prune_reply :: "Reply \<Rightarrow> PruneResponse option" where
  "prune_reply (PruneReply r) = Some r" | "prune_reply _ = None"

section \<open>The router\<close>

datatype Endpoint =
    OpenRoomEp | ListRoomsEp | GetRoomEp string | TranscriptEp string | JoinEp string | MessagesEp string
  | SignalsEp string | WaitEp string | CloseEp string | ExtendEp string | PauseEp string | WakeEp string
  | PruneEp string

datatype Routing = Routed Endpoint | NoRoute | WrongMethod

definition route_on :: "Method \<Rightarrow> Method \<Rightarrow> Endpoint \<Rightarrow> Routing" where
  "route_on m allowed e = (if m = allowed then Routed e else WrongMethod)"

text \<open>The table of routes under \<open>/rooms/{id}\<close>; a capture matches one non-empty segment.\<close>

definition room_routes :: "string \<Rightarrow> (string \<times> Method \<times> Endpoint) list" where
  "room_routes rid =
     [(''transcript'', GET, TranscriptEp rid),
      (''join'', POST, JoinEp rid),
      (''messages'', POST, MessagesEp rid),
      (''signals'', POST, SignalsEp rid),
      (''wait'', GET, WaitEp rid),
      (''close'', POST, CloseEp rid),
      (''extend'', POST, ExtendEp rid),
      (''pause'', POST, PauseEp rid),
      (''wake'', POST, WakeEp rid),
      (''prune'', POST, PruneEp rid)]"

definition router :: "Method \<Rightarrow> string list \<Rightarrow> Routing" where
  "router m segments = (case segments of
       [a] \<Rightarrow> if a = ''rooms'' then (case m of POST \<Rightarrow> Routed OpenRoomEp | GET \<Rightarrow> Routed ListRoomsEp) else NoRoute
     | [a, rid] \<Rightarrow> if a = ''rooms'' \<and> rid \<noteq> [] then route_on m GET (GetRoomEp rid) else NoRoute
     | [a, rid, op] \<Rightarrow>
         if a = ''rooms'' \<and> rid \<noteq> [] then
           (case map_of (room_routes rid) op of Some (allowed, e) \<Rightarrow> route_on m allowed e | None \<Rightarrow> NoRoute)
         else NoRoute
     | _ \<Rightarrow> NoRoute)"

text \<open>What the daemon is given: the calendar, the formatter, the random session suffixes, its state, the
  rounds of a wait and the rejections of the extractors.\<close>

record Daemon =
  dn_civil :: "time \<Rightarrow> civil"
  dn_fmt :: "time \<Rightarrow> string"
  dn_sess :: "nat \<Rightarrow> string list"
  dn_state :: AppState
  dn_rounds :: nat
  dn_reject :: "Endpoint \<Rightarrow> Payload \<Rightarrow> HttpResponse"

definition answer :: "nat \<Rightarrow> ('a \<Rightarrow> Reply) \<Rightarrow> (World, ApiError + 'a) prog \<Rightarrow> (World, HttpResponse) prog" where
  "answer status wrap p = bind p (\<lambda>r. Ret (case r of
       Inr a \<Rightarrow> \<lparr>hs_status = status, hs_body = ReplyBody (wrap a)\<rparr>
     | Inl e \<Rightarrow> \<lparr>hs_status = fst (into_response e), hs_body = EnvelopeBody (snd (into_response e))\<rparr>))"

text \<open>\<open>ListRoomsQuery\<close>: each field at most once, a known state, a boolean.\<close>

definition rooms_query :: "(string \<times> string) list \<Rightarrow> (RoomState option \<times> bool) option" where
  "rooms_query ps =
     (let values = (\<lambda>k. map snd (filter (\<lambda>p. fst p = k) ps));
          state = (case values ''state'' of
              [] \<Rightarrow> Some None
            | [s] \<Rightarrow> map_option Some (ok_part (parse_state s))
            | _ \<Rightarrow> None);
          all = (case values ''all'' of
              [] \<Rightarrow> Some False
            | [s] \<Rightarrow> if s = ''true'' then Some True else if s = ''false'' then Some False else None
            | _ \<Rightarrow> None)
      in (case (state, all) of (Some st, Some a) \<Rightarrow> Some (st, a) | _ \<Rightarrow> None))"

definition serve :: "Daemon \<Rightarrow> Endpoint \<Rightarrow> Payload \<Rightarrow> (World, HttpResponse) prog" where
  "serve dn e payload = (case e of
       OpenRoomEp \<Rightarrow> (case payload of
           OpenPayload req \<Rightarrow> answer 201 OpenReply (open_room (dn_civil dn) req)
         | _ \<Rightarrow> Ret (dn_reject dn e payload))
     | ListRoomsEp \<Rightarrow> (case payload of
           RoomsQuery ps \<Rightarrow> (case rooms_query ps of
               Some (state, all) \<Rightarrow> answer 200 ListReply (list_rooms_handler (dn_fmt dn) state all)
             | None \<Rightarrow> Ret (dn_reject dn e payload))
         | _ \<Rightarrow> Ret (dn_reject dn e payload))
     | GetRoomEp rid \<Rightarrow> answer 200 StatusReply (get_room_status (dn_fmt dn) (dn_state dn) rid)
     | TranscriptEp rid \<Rightarrow> answer 200 TranscriptReply (transcript (dn_fmt dn) (dn_state dn) rid)
     | JoinEp rid \<Rightarrow> (case payload of
           JoinPayload req \<Rightarrow> answer 201 JoinReply (join_room (dn_fmt dn) (dn_sess dn) rid req)
         | _ \<Rightarrow> Ret (dn_reject dn e payload))
     | MessagesEp rid \<Rightarrow> (case payload of
           SendPayload req \<Rightarrow> answer 201 SendReply (send_message (dn_fmt dn) rid req)
         | _ \<Rightarrow> Ret (dn_reject dn e payload))
     | SignalsEp rid \<Rightarrow> (case payload of
           SignalPayload req \<Rightarrow> answer 201 SignalReply (signal_room rid req)
         | _ \<Rightarrow> Ret (dn_reject dn e payload))
     | WaitEp rid \<Rightarrow> (case payload of
           WaitQuery req \<Rightarrow> answer 200 WaitReply (wait_room (dn_fmt dn) (dn_state dn) (dn_rounds dn) rid req)
         | _ \<Rightarrow> Ret (dn_reject dn e payload))
     | CloseEp rid \<Rightarrow> (case payload of
           LifecyclePayload req \<Rightarrow> answer 200 LifecycleReply (close_room (dn_fmt dn) rid req)
         | _ \<Rightarrow> Ret (dn_reject dn e payload))
     | ExtendEp rid \<Rightarrow> (case payload of
           ExtendPayload req \<Rightarrow> answer 200 ExtendReply (extend_room (dn_fmt dn) rid req)
         | _ \<Rightarrow> Ret (dn_reject dn e payload))
     | PauseEp rid \<Rightarrow> (case payload of
           LifecyclePayload req \<Rightarrow> answer 200 LifecycleReply (pause_room rid req)
         | _ \<Rightarrow> Ret (dn_reject dn e payload))
     | WakeEp rid \<Rightarrow> (case payload of
           LifecyclePayload req \<Rightarrow> answer 200 LifecycleReply (wake_room rid req)
         | _ \<Rightarrow> Ret (dn_reject dn e payload))
     | PruneEp rid \<Rightarrow> answer 200 PruneReply (prune_room (dn_fmt dn) rid))"

definition handle :: "(string \<Rightarrow> string list) \<Rightarrow> Daemon \<Rightarrow> HttpRequest \<Rightarrow> (World, HttpResponse) prog" where
  "handle path dn rq = (case router (hq_method rq) (path (hq_url rq)) of
       Routed e \<Rightarrow> serve dn e (hq_payload rq)
     | NoRoute \<Rightarrow> Ret \<lparr>hs_status = 404, hs_body = TextBody []\<rparr>
     | WrongMethod \<Rightarrow> Ret \<lparr>hs_status = 405, hs_body = TextBody []\<rparr>)"

text \<open>One call: the request, the daemon, the decoded answer.\<close>

definition exchange ::
  "(string \<Rightarrow> string list) \<Rightarrow> Daemon \<Rightarrow> (nat \<Rightarrow> string option) \<Rightarrow> (Reply \<Rightarrow> 'a option) \<Rightarrow> HttpRequest \<Rightarrow>
   (World, ClientError + 'a) prog" where
  "exchange path dn canonical pick rq = bind (handle path dn rq) (\<lambda>resp. Ret (decode canonical pick resp))"

end
