(* ===== verification/ClientSpec.thy ===== *)
theory ClientSpec
  imports Client Hook RoomSpec
begin

text \<open>
  The client and the router fit together: every call of the client reaches the handler it is meant for
  with the arguments it was given, and its result is the handler's. How URLs split is assumed only
  for segments of letters, digits, dashes and underscores, which no URL parser touches; every room id
  the daemon mints is one.
\<close>

section \<open>Addressing\<close>

definition segment :: "string \<Rightarrow> bool" where
  "segment s \<longleftrightarrow> s \<noteq> [] \<and> list_all identity_char s"

definition addresses :: "(string \<Rightarrow> string list) \<Rightarrow> string \<Rightarrow> bool" where
  "addresses path base \<longleftrightarrow>
     (\<forall>ss. list_all segment ss \<longrightarrow> path (base @ concat (map (\<lambda>s. CHR ''/'' # s) ss)) = ss)"

lemma rooms_segment: "segment ''rooms''"
  by (simp add: segment_def identity_char_def is_ascii_alphanumeric_def)

lemma op_segments: "list_all segment (map fst (room_routes rid))"
  by (simp add: room_routes_def segment_def identity_char_def is_ascii_alphanumeric_def)

lemma path_rooms: "addresses path base \<Longrightarrow> path (base @ ''/rooms'') = [''rooms'']"
  using rooms_segment by (auto simp: addresses_def dest: spec [of _ "[''rooms'']"])

lemma path_room:
  assumes "addresses path base" and "segment rid"
  shows "path (base @ ''/rooms/'' @ rid) = [''rooms'', rid]"
proof -
  have "list_all segment [''rooms'', rid]" using assms rooms_segment by simp
  then have "path (base @ concat (map (\<lambda>s. CHR ''/'' # s) [''rooms'', rid])) = [''rooms'', rid]"
    using assms(1) unfolding addresses_def by blast
  then show ?thesis by simp
qed

lemma path_room_op:
  assumes "addresses path base" and "segment rid" and "segment op"
  shows "path (base @ ''/rooms/'' @ rid @ CHR ''/'' # op) = [''rooms'', rid, op]"
proof -
  have "list_all segment [''rooms'', rid, op]" using assms rooms_segment by simp
  then have "path (base @ concat (map (\<lambda>s. CHR ''/'' # s) [''rooms'', rid, op])) = [''rooms'', rid, op]"
    using assms(1) unfolding addresses_def by blast
  then show ?thesis by simp
qed

text \<open>A request for a room under one of the operations of the table is routed to its endpoint.\<close>

lemma routed_op:
  assumes "addresses path base" and "segment rid" and "map_of (room_routes rid) op = Some (m, e)"
  shows "router m (path (base @ ''/rooms/'' @ rid @ CHR ''/'' # op)) = Routed e"
proof -
  have "op \<in> set (map fst (room_routes rid))" using assms(3) by (force dest: map_of_SomeD)
  then have "segment op" using op_segments [of rid] by (simp only: list_all_iff)
  then have "path (base @ ''/rooms/'' @ rid @ CHR ''/'' # op) = [''rooms'', rid, op]"
    by (rule path_room_op [OF assms(1,2)])
  then show ?thesis using assms(2,3) unfolding router_def by (simp add: route_on_def segment_def)
qed

section \<open>One call\<close>

text \<open>What the caller of the client gets for the result of a handler.\<close>

fun client_result :: "ApiError + 'a \<Rightarrow> ClientError + 'a" where
  "client_result (Inl e) = Inl (Server (fst (into_response e)) (ee_error (snd (into_response e))))"
| "client_result (Inr a) = Inr a"

definition called :: "(World, ApiError + 'a) prog \<Rightarrow> (World, ClientError + 'a) prog" where
  "called p = bind p (\<lambda>r. Ret (client_result r))"

lemma error_status: "200 \<le> fst (into_response e) \<Longrightarrow> \<not> fst (into_response e) < 300"
  by (cases e) simp_all

lemma exchange_answer:
  assumes "router (hq_method rq) (path (hq_url rq)) = Routed e"
    and "serve dn e (hq_payload rq) = answer status wrap p"
    and "\<And>a. pick (wrap a) = Some a" and "200 \<le> status" and "status < 300"
  shows "exchange path dn canonical pick rq = called p"
proof -
  have "decode canonical pick (case r of
       Inr a \<Rightarrow> \<lparr>hs_status = status, hs_body = ReplyBody (wrap a)\<rparr>
     | Inl e \<Rightarrow> \<lparr>hs_status = fst (into_response e), hs_body = EnvelopeBody (snd (into_response e))\<rparr>) =
     client_result r" for r
    using assms(3-5) error_status by (cases r) (auto simp: decode_def)
  then show ?thesis
    by (simp add: exchange_def handle_def assms(1,2) answer_def called_def bind_assoc)
qed

lemma run_called:
  "run (called p) w = map_option (\<lambda>(r, w'). (client_result r, w')) (run p w)"
  by (simp add: called_def run_bind split: option.split)

section \<open>Every call\<close>

lemma call_open:
  assumes "addresses path base"
  shows "exchange path dn canonical open_reply (client_open_room base subj hard soft) =
     called (open_room (dn_civil dn)
       \<lparr>or_subject = subj, or_hard_cap = hard, or_soft_cap = soft, or_prev_room_id = None\<rparr>)"
  by (rule exchange_answer [where e = OpenRoomEp and status = 201 and wrap = OpenReply])
    (use path_rooms [OF assms] in \<open>simp_all add: client_open_room_def post_def serve_def router_def\<close>)

lemma call_list:
  assumes "addresses path base" and "case state of None \<Rightarrow> st = None | Some s \<Rightarrow> \<exists>r. parse_state s = Inr r \<and> st = Some r"
  shows "exchange path dn canonical list_reply (client_list_rooms base state all) =
     called (list_rooms_handler (dn_fmt dn) st all)"
  by (rule exchange_answer [where e = ListRoomsEp and status = 200 and wrap = ListReply])
    (use path_rooms [OF assms(1)] assms(2) in
      \<open>auto simp: client_list_rooms_def get_def serve_def router_def rooms_query_def Let_def split: option.splits\<close>)

lemma call_status:
  assumes "addresses path base" and "segment rid"
  shows "exchange path dn canonical status_reply (client_status base rid) =
     called (get_room_status (dn_fmt dn) (dn_state dn) rid)"
  by (rule exchange_answer [where e = "GetRoomEp rid" and status = 200 and wrap = StatusReply])
    (use path_room [OF assms] assms(2) in
      \<open>simp_all add: client_status_def get_def serve_def router_def route_on_def segment_def\<close>)

lemma call_join:
  assumes "addresses path base" and "segment rid"
  shows "exchange path dn canonical join_reply (client_join_room base rid rp md cw inst nick) =
     called (join_room (dn_fmt dn) (dn_sess dn) rid
       \<lparr>q_repo = rp, q_model = md, q_cwd = cw, q_instance = inst, jr_nickname = nick\<rparr>)"
  by (rule exchange_answer [where e = "JoinEp rid" and status = 201 and wrap = JoinReply])
    (use routed_op [OF assms, of "''join''" POST "JoinEp rid"] in
      \<open>simp_all add: client_join_room_def post_def serve_def room_routes_def\<close>)

lemma call_send:
  assumes "addresses path base" and "segment rid"
  shows "exchange path dn canonical send_reply (client_send_message base rid rp md cw inst to body human) =
     called (send_message (dn_fmt dn) rid
       \<lparr>q_repo = rp, q_model = md, q_cwd = cw, q_instance = inst, sm_to = to, sm_body = body, sm_from_human = human\<rparr>)"
  by (rule exchange_answer [where e = "MessagesEp rid" and status = 201 and wrap = SendReply])
    (use routed_op [OF assms, of "''messages''" POST "MessagesEp rid"] in
      \<open>simp_all add: client_send_message_def post_def serve_def room_routes_def\<close>)

lemma call_signal:
  assumes "addresses path base" and "segment rid"
  shows "exchange path dn canonical signal_reply (client_signal base rid rp md cw inst ty sev question) =
     called (signal_room rid
       \<lparr>q_repo = rp, q_model = md, q_cwd = cw, q_instance = inst, sg_signal_type = ty, sg_severity = sev,
        sg_question_text = question, sg_reason = None\<rparr>)"
  by (rule exchange_answer [where e = "SignalsEp rid" and status = 201 and wrap = SignalReply])
    (use routed_op [OF assms, of "''signals''" POST "SignalsEp rid"] in
      \<open>simp_all add: client_signal_def post_def serve_def room_routes_def\<close>)

lemma call_wait:
  assumes "addresses path base" and "segment rid"
  shows "exchange path dn canonical wait_reply (client_wait base rid rp md cw inst secs) =
     called (wait_room (dn_fmt dn) (dn_state dn) (dn_rounds dn) rid
       \<lparr>q_repo = rp, q_model = md, q_cwd = cw, q_instance = inst, wr_max_wait_secs = secs\<rparr>)"
  by (rule exchange_answer [where e = "WaitEp rid" and status = 200 and wrap = WaitReply])
    (use routed_op [OF assms, of "''wait''" GET "WaitEp rid"] in
      \<open>simp_all add: client_wait_def get_def serve_def room_routes_def\<close>)

lemma call_close:
  assumes "addresses path base" and "segment rid"
  shows "exchange path dn canonical lifecycle_reply (client_close base rid rp md cw inst force) =
     called (close_room (dn_fmt dn) rid
       \<lparr>q_repo = rp, q_model = md, q_cwd = cw, q_instance = inst, lr_reason = None, lr_force = force\<rparr>)"
  by (rule exchange_answer [where e = "CloseEp rid" and status = 200 and wrap = LifecycleReply])
    (use routed_op [OF assms, of "''close''" POST "CloseEp rid"] in
      \<open>simp_all add: client_close_def client_lifecycle_def post_def serve_def room_routes_def\<close>)

lemma call_pause:
  assumes "addresses path base" and "segment rid"
  shows "exchange path dn canonical lifecycle_reply (client_pause base rid rp md cw inst reason) =
     called (pause_room rid
       \<lparr>q_repo = rp, q_model = md, q_cwd = cw, q_instance = inst, lr_reason = reason, lr_force = False\<rparr>)"
  by (rule exchange_answer [where e = "PauseEp rid" and status = 200 and wrap = LifecycleReply])
    (use routed_op [OF assms, of "''pause''" POST "PauseEp rid"] in
      \<open>simp_all add: client_pause_def client_lifecycle_def post_def serve_def room_routes_def\<close>)

lemma call_wake:
  assumes "addresses path base" and "segment rid"
  shows "exchange path dn canonical lifecycle_reply (client_wake base rid rp md cw inst) =
     called (wake_room rid
       \<lparr>q_repo = rp, q_model = md, q_cwd = cw, q_instance = inst, lr_reason = None, lr_force = False\<rparr>)"
  by (rule exchange_answer [where e = "WakeEp rid" and status = 200 and wrap = LifecycleReply])
    (use routed_op [OF assms, of "''wake''" POST "WakeEp rid"] in
      \<open>simp_all add: client_wake_def client_lifecycle_def post_def serve_def room_routes_def\<close>)

lemma call_extend:
  assumes "addresses path base" and "segment rid"
  shows "exchange path dn canonical extend_reply (client_extend base rid rp md cw inst) =
     called (extend_room (dn_fmt dn) rid
       \<lparr>q_repo = rp, q_model = md, q_cwd = cw, q_instance = inst\<rparr>)"
  by (rule exchange_answer [where e = "ExtendEp rid" and status = 200 and wrap = ExtendReply])
    (use routed_op [OF assms, of "''extend''" POST "ExtendEp rid"] in
      \<open>simp_all add: client_extend_def post_def serve_def room_routes_def\<close>)

lemma call_prune:
  assumes "addresses path base" and "segment rid"
  shows "exchange path dn canonical prune_reply (client_prune base rid) =
     called (prune_room (dn_fmt dn) rid)"
  by (rule exchange_answer [where e = "PruneEp rid" and status = 200 and wrap = PruneReply])
    (use routed_op [OF assms, of "''prune''" POST "PruneEp rid"] in
      \<open>simp_all add: client_prune_def post_def serve_def room_routes_def\<close>)

lemma call_transcript:
  assumes "addresses path base" and "segment rid"
  shows "exchange path dn canonical transcript_reply (client_transcript base rid) =
     called (transcript (dn_fmt dn) (dn_state dn) rid)"
  by (rule exchange_answer [where e = "TranscriptEp rid" and status = 200 and wrap = TranscriptReply])
    (use routed_op [OF assms, of "''transcript''" GET "TranscriptEp rid"] in
      \<open>simp_all add: client_transcript_def get_def serve_def room_routes_def\<close>)

section \<open>Properties\<close>

lemma wait_outlasts_server:
  assumes "wait_cap st = DEFAULT_WAIT_CAP"
  shows "full_cap st req + seconds 30 \<le> seconds (uint (wait_timeout (wr_max_wait_secs req)))"
proof (cases "wr_max_wait_secs req")
  case (Some secs)
  have "uint (ucast secs :: 64 word) = uint secs" by transfer simp
  then have "uint (ucast secs + 30 :: 64 word) = uint secs + 30"
    using uint_lt2p [of secs] by (simp add: uint_plus_if')
  with Some show ?thesis by (simp add: full_cap_def wait_timeout_def seconds_def)
qed (simp add: full_cap_def wait_timeout_def assms DEFAULT_WAIT_CAP_def seconds_def)


text \<open>An URL parser for one base address.\<close>

definition sample_base :: string where
  "sample_base = HttpClient_new ''http://127.0.0.1:8484/''"

definition slashes :: "string \<Rightarrow> string \<times> string list" where
  "slashes s = foldr (\<lambda>c (cur, segs). if c = CHR ''/'' then ([], cur # segs) else (c # cur, segs)) s ([], [])"

definition sample_path :: "string \<Rightarrow> string list" where
  "sample_path url = snd (slashes (drop (length sample_base) url))"

lemma slashes_segment:
  "CHR ''/'' \<notin> set s \<Longrightarrow> slashes (s @ t) = (s @ fst (slashes t), snd (slashes t))"
  by (induction s) (auto simp: slashes_def split_beta)

lemma sample_addresses: "addresses sample_path sample_base"
proof -
  have slash: "CHR ''/'' \<notin> set s" if "segment s" for s
    using that by (auto simp: segment_def list_all_iff identity_char_def is_ascii_alphanumeric_def)
  have "slashes (concat (map (\<lambda>s. CHR ''/'' # s) ss)) = ([], ss)" if "list_all segment ss" for ss
    using that
  proof (induction ss)
    case (Cons s ss)
    have "slashes (CHR ''/'' # t) = ([], fst (slashes t) # snd (slashes t))" for t
      by (simp add: slashes_def split_beta)
    with Cons slash [of s] show ?case by (simp add: slashes_segment)
  qed (simp add: slashes_def)
  then show ?thesis by (simp add: addresses_def sample_path_def)
qed

definition sample_daemon :: Daemon where
  "sample_daemon = \<lparr>dn_civil = (\<lambda>t. \<lparr>c_year = 2026, c_month = 1, c_day = 2, c_hour = 3, c_minute = 4\<rparr>),
     dn_fmt = sample_fmt, dn_sess = (\<lambda>k. [''0009'']), dn_state = AppState_new, dn_rounds = 1,
     dn_reject = (\<lambda>e p. \<lparr>hs_status = 400, hs_body = TextBody []\<rparr>)\<rparr>"


lemma room_id_segment: "segment (candidate_id (room_id subj c) a)"
proof -
  have slug: "list_all identity_char s" if "list_all slug_char s" for s
    using that by (auto simp: list_all_iff slug_char_def identity_char_def)
  have "list_all slug_char (kebab subj)" using kebab_is_slug by (simp add: is_slug_def)
  with slug show_padded_slug show_nat_slug show ?thesis
    by (auto simp: segment_def candidate_id_def room_id_def room_stamp_def Let_def identity_char_def
        is_ascii_alphanumeric_def)
qed

text \<open>C23: an opened room can be reached. When the client opens a room, the id it gets back is new, stands in
  the share line, names the active room of that subject, and is a plain URL segment, so that any agent
  that is told it joins that very room through its own client.\<close>

theorem opened_room_is_addressable:
  assumes "addresses path base"
    and "run (exchange path dn canonical open_reply (client_open_room base subj hard soft)) w = Some (Inr resp, w')"
  shows "segment (os_room_id resp) \<and> os_share_line resp = ''Join CBC room '' @ os_room_id resp \<and>
    \<not> room_exists (w_db w) (os_room_id resp) \<and>
    (\<exists>room. get_room (os_room_id resp) (w_db w') = Inr (Some room) \<and> subject room = subj \<and> r_state room = Active) \<and>
    exchange path dn' canonical' join_reply (client_join_room base (os_room_id resp) rp md cw inst nick) =
      called (join_room (dn_fmt dn') (dn_sess dn') (os_room_id resp)
        \<lparr>q_repo = rp, q_model = md, q_cwd = cw, q_instance = inst, jr_nickname = nick\<rparr>)"
proof -
  let ?req = "\<lparr>or_subject = subj, or_hard_cap = hard, or_soft_cap = soft, or_prev_room_id = None\<rparr>"
  let ?base = "room_id subj (dn_civil dn (w_now w))"
  let ?cfg = "requested_config ?req"
  obtain a where a: "free_attempt (w_db w) ?base 1 = Some a"
    and resp: "resp = \<lparr>os_room_id = candidate_id ?base a, os_share_line = share_line (candidate_id ?base a)\<rparr>"
    and w': "w_db w' = (w_db w)\<lparr>rooms := rooms (w_db w) @
      [room_to_row (new_room ?req ?cfg (w_now w) (candidate_id ?base a))]\<rparr>"
    using assms(2) unfolding call_open [OF assms(1)] run_called run_open_room
    by (auto simp: Let_def split: if_splits option.splits)
  have seg: "segment (os_room_id resp)" unfolding resp by (simp add: room_id_segment)
  have new: "\<not> room_exists (w_db w) (os_room_id resp)"
    using free_attempt_free [OF a] by (simp add: resp)
  have "get_room (os_room_id resp) (w_db w') =
      Inr (Some (new_room ?req ?cfg (w_now w) (os_room_id resp)))"
    using get_created_room [of "w_db w" "new_room ?req ?cfg (w_now w) (os_room_id resp)"] new w'
    by (simp add: resp new_room_id)
  then show ?thesis
    using seg new call_join [OF assms(1) seg]
    by (simp add: new_room_def) (simp add: resp share_line_def)
qed

theorem opened_room_is_addressable_witness:
  "\<exists>w. run (exchange sample_path sample_daemon (\<lambda>n. None) open_reply
       (client_open_room sample_base ''a'' None None)) sample_world =
     Some (Inr \<lparr>os_room_id = ''cbc-a-20260102-0304'', os_share_line = ''Join CBC room cbc-a-20260102-0304''\<rparr>, w) \<and>
   (\<exists>room. get_room ''cbc-a-20260102-0304'' (w_db w) = Inr (Some room) \<and> subject room = ''a'')"
proof -
  let ?run = "run (exchange sample_path sample_daemon (\<lambda>n. None) open_reply
       (client_open_room sample_base ''a'' None None)) sample_world"
  have "map_option fst ?run =
      Some (Inr \<lparr>os_room_id = ''cbc-a-20260102-0304'', os_share_line = ''Join CBC room cbc-a-20260102-0304''\<rparr>)"
    by code_simp
  then obtain w where w: "?run =
      Some (Inr \<lparr>os_room_id = ''cbc-a-20260102-0304'', os_share_line = ''Join CBC room cbc-a-20260102-0304''\<rparr>, w)"
    by auto
  let ?resp = "\<lparr>os_room_id = ''cbc-a-20260102-0304'', os_share_line = ''Join CBC room cbc-a-20260102-0304''\<rparr>"
  note reached = opened_room_is_addressable [OF sample_addresses w]
  have "\<exists>room. get_room (os_room_id ?resp) (w_db w) = Inr (Some room) \<and> subject room = ''a'' \<and> r_state room = Active"
    by (rule reached [THEN conjunct2, THEN conjunct2, THEN conjunct2, THEN conjunct1])
  with w show ?thesis by auto
qed

text \<open>An id is put into the URL as it is; one with a slash addresses another endpoint.\<close>

lemma slash_misroutes:
  "router (hq_method (client_status sample_base ''r/transcript''))
     (sample_path (hq_url (client_status sample_base ''r/transcript''))) = Routed (TranscriptEp ''r'')"
  by code_simp

end
