(* ===== verification/Render.thy ===== *)
theory Render
  imports Poll
begin

text \<open>
  How a response is shown: the JSON that the derived \<open>Serialize\<close> of the protocol crate writes, member by
  member in the order of the fields, and the markdown of a transcript (\<open>render_transcript_markdown\<close> of
  \<open>bins/cbc/src/main.rs\<close>), which \<open>cbc show\<close> and the recap tool share.
\<close>

section \<open>JSON\<close>

text \<open>A member that is left out when absent.\<close>

definition optional :: "string \<Rightarrow> ('a \<Rightarrow> json) \<Rightarrow> 'a option \<Rightarrow> (string \<times> json) list" where
  "optional k f x = (case x of None \<Rightarrow> [] | Some a \<Rightarrow> [(k, f a)])"

definition num_u32 :: "u32 \<Rightarrow> json" where
  "num_u32 n = JNum (show_u32 n)"

definition num_int :: "int \<Rightarrow> json" where
  "num_int i = JNum (show_int i)"

definition open_json :: "OpenRoomResponse \<Rightarrow> json" where
  "open_json r = JObj [(''room_id'', JStr (os_room_id r)), (''share_line'', JStr (os_share_line r))]"

definition join_json :: "JoinRoomResponse \<Rightarrow> json" where
  "join_json r = JObj [(''handle'', JStr (js_handle r)), (''resumed'', JBool (js_resumed r)),
     (''room_state'', JStr (js_room_state r)), (''recent_messages'', JArr (map message_json (js_recent_messages r)))]"

definition wait_json :: "WaitResponse \<Rightarrow> json" where
  "wait_json r = (case r of
       WaitMessage m surface retry_after room_state \<Rightarrow> JObj ([(''message'', message_json m),
           (''surface_to_user'', JBool surface)] @
           optional ''retry_after'' num_u32 retry_after @ optional ''room_state'' JStr room_state)
     | WaitTimeout status retry_after \<Rightarrow> JObj ((''status'', JStr status) # optional ''retry_after'' num_u32 retry_after))"

definition lifecycle_json :: "LifecycleResponse \<Rightarrow> json" where
  "lifecycle_json r = JObj ((''state'', JStr (ls_state r)) # optional ''status'' JStr (ls_status r) @
     optional ''votes'' num_u32 (ls_votes r) @ optional ''needed'' num_u32 (ls_needed r))"

definition extend_json :: "ExtendResponse \<Rightarrow> json" where
  "extend_json r = JObj ([(''state'', JStr (es_state r)), (''status'', JStr (es_status r))] @
     optional ''votes'' num_u32 (es_votes r) @ optional ''needed'' num_u32 (es_needed r) @
     optional ''hard_cap'' num_u32 (es_hard_cap r))"

definition participant_json :: "ParticipantView \<Rightarrow> json" where
  "participant_json p = JObj ([(''handle'', JStr (pv_handle p)), (''repo'', JStr (pv_repo p)),
     (''model'', JStr (pv_model p)), (''cwd'', JStr (pv_cwd p)), (''joined_at'', JStr (pv_joined_at p)),
     (''seconds_since_poll'', num_int (pv_seconds_since_poll p)), (''stale'', JBool (pv_stale p)),
     (''poll_live'', JBool (pv_poll_live p))] @ optional ''nickname'' JStr (pv_nickname p))"

definition status_json :: "RoomStatus \<Rightarrow> json" where
  "status_json r = JObj [(''id'', JStr (rs_id r)), (''subject'', JStr (rs_subject r)), (''state'', JStr (rs_state r)),
     (''started_at'', JStr (rs_started_at r)), (''last_activity_at'', JStr (rs_last_activity_at r)),
     (''participants'', JArr (map participant_json (rs_participants r)))]"

definition transcript_json :: "RoomTranscript \<Rightarrow> json" where
  "transcript_json r = JObj [(''id'', JStr (tr_id r)), (''subject'', JStr (tr_subject r)), (''state'', JStr (tr_state r)),
     (''started_at'', JStr (tr_started_at r)), (''last_activity_at'', JStr (tr_last_activity_at r)),
     (''hard_cap'', num_u32 (tr_hard_cap r)), (''soft_cap'', num_u32 (tr_soft_cap r)),
     (''hard_cap_count'', num_int (tr_hard_cap_count r)),
     (''soft_cap_consecutive'', num_int (tr_soft_cap_consecutive r)),
     (''participants'', JArr (map participant_json (tr_participants r))),
     (''messages'', JArr (map message_json (tr_messages r)))]"

section \<open>Markdown\<close>

definition participant_label :: "string option \<Rightarrow> string \<Rightarrow> string" where
  "participant_label nick handle = (case nick of Some n \<Rightarrow> n @ '' ['' @ handle @ '']'' | None \<Rightarrow> handle)"

definition text_line :: "string \<Rightarrow> string" where
  "text_line s = s @ [newline]"

definition participant_line :: "ParticipantView \<Rightarrow> string" where
  "participant_line p =
     text_line (''- '' @ participant_label (pv_nickname p) (pv_handle p) @ '' ('' @ pv_model p @ '' @ '' @ pv_cwd p @ '')'')"

definition render_message_markdown :: "MessageView \<Rightarrow> string" where
  "render_message_markdown m =
     ''- ['' @ show_int (mv_seq m) @ ''] **'' @ mv_from m @ ''** '' @ right_arrow @ '' '' @ or_all (mv_to m) @
     (if mv_msg_type m \<noteq> ''msg'' then
        '' _signal: '' @ mv_msg_type m @
        (case mv_severity m of Some s \<Rightarrow> '' ('' @ s @ '')'' | None \<Rightarrow> []) @ ''_'' @
        (case mv_question_text m of Some q \<Rightarrow> '' '' @ em_dash @ '' asks its user: '' @ q | None \<Rightarrow> [])
      else '': '' @ mv_body m) @ [newline]"

definition render_transcript_markdown :: "RoomTranscript \<Rightarrow> string" where
  "render_transcript_markdown t =
     text_line (''# '' @ tr_subject t) @ [newline] @
     text_line (''- Room: '' @ tr_id t) @
     text_line (''- State: '' @ tr_state t) @
     text_line (''- Started: '' @ tr_started_at t) @
     text_line (''- Last activity: '' @ tr_last_activity_at t) @
     text_line (''- Caps: hard '' @ show_int (tr_hard_cap_count t) @ ''/'' @ show_u32 (tr_hard_cap t) @
       '', soft '' @ show_int (tr_soft_cap_consecutive t) @ ''/'' @ show_u32 (tr_soft_cap t)) @
     [newline] @ text_line ''## Participants'' @
     (if tr_participants t = [] then text_line ''- (none)''
      else concat (map participant_line (tr_participants t))) @
     [newline] @ text_line ''## Messages'' @
     (if tr_messages t = [] then text_line ''- (none)''
      else concat (map render_message_markdown (tr_messages t)))"

end
