(* ===== verification/Context.thy ===== *)
theory Context
  imports Text
begin

text \<open>
  \<open>bins/cbc/src/context.rs\<close>: who a caller is. What the process can ask of its surroundings (the working
  directory, \<open>git rev-parse --show-toplevel\<close>, two environment variables, its process id) is a record.
\<close>

record Env =
  env_current_dir :: "string option"
  env_git_stdout :: "string option"
  env_cbc_instance :: "string option"
  env_session_id :: "string option"
  env_pid :: u32

definition detect_cwd :: "Env \<Rightarrow> string" where
  "detect_cwd env = (case env_current_dir env of Some p \<Rightarrow> p | None \<Rightarrow> ''.'')"

text \<open>\<open>None\<close> when \<open>git\<close> fails or its output is not text.\<close>

definition git_toplevel :: "Env \<Rightarrow> string option" where
  "git_toplevel env = (case env_git_stdout env of
       None \<Rightarrow> None
     | Some out \<Rightarrow> (let path = trim out in if path = [] then None else Some path))"

text \<open>The pieces between slashes, and \<open>Path::file_name\<close>: the last component, empty pieces and single
  dots left out, unless it is the parent.\<close>

definition pieces :: "char \<Rightarrow> string \<Rightarrow> string list" where
  "pieces sep s = (case foldr (\<lambda>c (cur, ps). if c = sep then ([], cur # ps) else (c # cur, ps)) s ([], []) of
     (cur, ps) \<Rightarrow> cur # ps)"

definition file_name :: "string \<Rightarrow> string option" where
  "file_name path =
     (case rev (filter (\<lambda>p. p \<noteq> [] \<and> p \<noteq> ''.'') (pieces (CHR ''/'') path)) of
        [] \<Rightarrow> None
      | p # _ \<Rightarrow> if p = ''..'' then None else Some p)"

definition basename :: "string \<Rightarrow> string option" where
  "basename path = (case file_name path of None \<Rightarrow> None | Some n \<Rightarrow> if n = [] then None else Some n)"

definition repo_from :: "string option \<Rightarrow> string \<Rightarrow> string" where
  "repo_from toplevel cwd_path =
     (case (case toplevel of None \<Rightarrow> None | Some t \<Rightarrow> basename t) of
        Some n \<Rightarrow> n
      | None \<Rightarrow> (case basename cwd_path of Some n \<Rightarrow> n | None \<Rightarrow> ''repo''))"

definition detect_repo :: "Env \<Rightarrow> string" where
  "detect_repo env = repo_from (git_toplevel env) (detect_cwd env)"

definition process_floor :: "Env \<Rightarrow> string" where
  "process_floor env = ''pid-'' @ show_u32 (env_pid env)"

text \<open>The sources in their order, those that are absent left out.\<close>

definition present :: "'a option list \<Rightarrow> 'a list" where
  "present xs = concat (map (\<lambda>x. case x of None \<Rightarrow> [] | Some a \<Rightarrow> [a]) xs)"

definition resolve_instance :: "string option \<Rightarrow> string option \<Rightarrow> string option \<Rightarrow> string \<Rightarrow> string" where
  "resolve_instance explicit cbc_instance session_id floor =
     (case find (\<lambda>s. s \<noteq> []) (map trim (present [explicit, cbc_instance, session_id])) of
        Some s \<Rightarrow> s
      | None \<Rightarrow> floor)"

definition detect_instance :: "Env \<Rightarrow> string option \<Rightarrow> string" where
  "detect_instance env explicit =
     resolve_instance explicit (env_cbc_instance env) (env_session_id env) (process_floor env)"

section \<open>What is always true of them\<close>

lemma resolve_explicit: "trim label \<noteq> [] \<Longrightarrow> resolve_instance (Some label) cbc sid floor = trim label"
  by (simp add: resolve_instance_def present_def)

lemma resolve_nonempty: "floor \<noteq> [] \<Longrightarrow> resolve_instance explicit cbc sid floor \<noteq> []"
  by (auto simp: resolve_instance_def split: option.split dest: find_SomeD)

lemma detect_instance_nonempty: "detect_instance env explicit \<noteq> []"
  by (simp add: detect_instance_def resolve_nonempty process_floor_def)

lemma pieces_no_sep:
  assumes "p \<in> set (pieces sep s)"
  shows "sep \<notin> set p"
proof -
  let ?F = "foldr (\<lambda>c (cur, ps). if c = sep then ([], cur # ps) else (c # cur, ps)) s ([], [])"
  have "sep \<notin> set (fst ?F) \<and> (\<forall>p\<in>set (snd ?F). sep \<notin> set p)"
    by (induction s) (auto simp: split_beta)
  with assms show ?thesis by (auto simp: pieces_def split_beta)
qed

lemma basename_plain:
  assumes "basename path = Some n"
  shows "n \<noteq> [] \<and> CHR ''/'' \<notin> set n \<and> n \<noteq> ''.'' \<and> n \<noteq> ''..''"
proof -
  let ?ps = "filter (\<lambda>p. p \<noteq> [] \<and> p \<noteq> ''.'') (pieces (CHR ''/'') path)"
  obtain rest where "rev ?ps = n # rest" and "n \<noteq> ''..''"
    using assms by (auto simp: basename_def file_name_def split: option.splits list.splits if_splits)
  then have "n \<in> set ?ps" by (metis list.set_intros(1) set_rev)
  with \<open>n \<noteq> ''..''\<close> show ?thesis using pieces_no_sep [of n "CHR ''/''" path] by simp
qed

lemma repo_plain: "repo_from toplevel path \<noteq> [] \<and> CHR ''/'' \<notin> set (repo_from toplevel path)"
  by (auto simp: repo_from_def split: option.splits dest!: basename_plain)

end
