(* ===== verification/Mcp.thy ===== *)
theory Mcp
  imports Client Render Context
begin

text \<open>
  \<open>bins/cbc/src/mcp.rs\<close>: the tools an agent calls. Each takes the caller's arguments and surroundings,
  makes one call of the client and answers with the response as JSON, to which it adds a \<open>next\<close> member
  that says what to do now; an error is answered as JSON too. The transport's own error text and the
  JSON printer are arguments.
\<close>

section \<open>Arguments\<close>

record OpenRoomArgs =
  oa_subject :: string
  oa_hard_cap :: "u32 option"
  oa_soft_cap :: "u32 option"

record RoomArgs =
  ra_room_id :: string

type_synonym StatusArgs = RoomArgs
type_synonym RecapArgs = RoomArgs

text \<open>The arguments of the tools that act as a participant start alike.\<close>

record AgentArgs = RoomArgs +
  ga_model :: string
  ga_identity :: "string option"

type_synonym WaitArgs = AgentArgs
type_synonym CloseArgs = AgentArgs
type_synonym ExtendArgs = AgentArgs
type_synonym WakeArgs = AgentArgs

record JoinRoomArgs = AgentArgs +
  ja_nickname :: "string option"

record SendArgs = AgentArgs +
  sa_body :: string
  sa_to :: "string option"
  sa_human :: bool

record SignalArgs = AgentArgs +
  na_signal_type :: string
  na_severity :: "string option"
  na_question_text :: "string option"

record PauseArgs = AgentArgs +
  pa_reason :: "string option"

section \<open>Answers\<close>

definition err_json :: "string \<Rightarrow> json" where
  "err_json message = JObj [(''error'', JStr message)]"

definition json_with_next :: "json \<Rightarrow> string \<Rightarrow> json" where
  "json_with_next v next_step = (case v of
       JObj m \<Rightarrow> JObj (obj_insert ''next'' (JStr next_step) m)
     | other \<Rightarrow> other)"

definition err_with_next :: "string \<Rightarrow> string \<Rightarrow> json" where
  "err_with_next message next_step = JObj [(''error'', JStr message), (''next'', JStr next_step)]"

section \<open>What to do next\<close>

definition poll_launch_clause :: "string option \<Rightarrow> string \<Rightarrow> string" where
  "poll_launch_clause explicit room = (case explicit of
       Some label \<Rightarrow>
     ''launch `cbc poll '' @ room @ '' --model <m> --as '' @ label @ ''` as a background task and STAY in the room '' @ em_dash @ '' the SAME `--as '' @ label @ ''` you joined with, reused on every send and in your `.cbc` connections block so all of them are one'' @
     '' identity''
     | None \<Rightarrow>
     ''launch your background poll as `cbc poll '' @ room @ '' --model <m> --as <label>`, where <label> is a STABLE role name you reuse everywhere '' @
     em_dash @
     '' `<repo>-worker-<feature>` for a worker, `<repo>-orchestrator` for an orchestrator. Pass that SAME'' @
     '' label on join, send, poll, and your `.cbc` connections block. Do NOT poll under a bare session id:'' @
     '' it rotates on restart/fork/clear and splits you into duplicate rows that nag every turn'')"

definition join_next :: "string \<Rightarrow> string \<Rightarrow> nat \<Rightarrow> string option \<Rightarrow> string" where
  "join_next h room recent explicit =
     ''Joined as '' @ h @ ''. '' @ show_nat recent @ '' recent message(s) are included in this response. Joining COMMITS you to the room '' @
     em_dash @
     '' reading the opener is NOT the end of your turn; you owe a reply AND a running poll. Do this now, in'' @
     '' order: (1) cbc_recap to re-read the whole room (do not reply from the snippet or from memory); (2)'' @
     '' cbc_send a substantive reply (or, if you joined to speak first, your opening message), passing the'' @
     '' SAME `as:` label you joined with; (3) '' @ poll_launch_clause explicit room @ ''. Do NOT read-and-walk-away: never end your turn (or resume other work) without a reply sent and a'' @
     '' background poll running. Where background tasks are unavailable, fall back to a manual cbc_wait'' @
     '' loop '' @ em_dash @ '' but do not just leave.''"

definition send_next :: "string \<Rightarrow> string option \<Rightarrow> string" where
  "send_next room explicit =
     ''Posted. Now await the reply hands-free: '' @ poll_launch_clause explicit room @ ''. Fallback: call cbc_wait. When a reply arrives, RELAUNCH the poll first (before you compose), then'' @
     '' re-ground with cbc_recap before you act '' @ em_dash @
     '' do not answer from memory. Never STOP a running poll while you remain in the room. The counterpart'' @
     '' may take a while; the poll holds for about an hour of silence, so honor any retry_after and never'' @
     '' bail to your user to relay.''"

definition open_next :: "string \<Rightarrow> string" where
  "open_next room =
     ''Opening the room did NOT join you or post anything. Opening COMMITS you to the room: you must'' @
     '' surface the id AND have a poll running before you do anything else '' @ em_dash @
     '' do NOT open it as a side task and keep working, and do NOT end this turn, until both are done. Do'' @
     '' this now, in order: (1) cbc_join_room('' @ room @ '', model) with your anchored `as:<label>` (a STABLE role name '' @ em_dash @
     '' `<repo>-orchestrator`, or `<repo>-worker-<feature>` '' @ em_dash @
     '' reused on every call); (2) cbc_send your opening question (same `as:<label>`) so it is queued and'' @
     '' waiting when the other agent joins; (3) show your user this room id on its own line, exactly:'' @
     [newline] @ [newline] @ room @ [newline] @ [newline] @ ''No slash prefix '' @ em_dash @
     '' it is NOT a command. Ask them to paste it to the other agent. Then start the wait hands-free:'' @
     '' launch `cbc poll '' @ room @ '' --model <m> --as <label>` as a background task and end your turn (the SAME `--as <label>` you'' @
     '' joined with, so your join, sends, poll, and `.cbc` connections block are one identity '' @
     em_dash @
     '' a poll under a different label, or none, splits you into duplicate rows that nag every turn). It'' @
     '' waits THROUGH the join (no need to be told when the other agent arrives) and wakes you on the first'' @
     '' reply. Do NOT ask your user to tell you when they joined, and do NOT sit in a manual cbc_wait loop.'' @
     '' Opening and vanishing '' @ em_dash @ '' no id surfaced, no poll running '' @ em_dash @
     '' is the failure to avoid. A room is TWO-PARTY (you + one counterpart); if your task also needs'' @
     '' another service, open a SEPARATE room for it rather than expecting a third agent here.''"

definition signal_next :: "string \<Rightarrow> string" where
  "signal_next ty =
     (if ty = ''waiting_user'' then
     ''Signaled that you are consulting your user. The counterpart'' @ [CHR 0x27] @
     ''s cbc_wait will now back off while you are away. Go get your answer, then post your reply with'' @
     '' cbc_send(human=true).''
      else if ty = ''fold'' then
     ''Fold signaled '' @ em_dash @
     '' the soft-cap counter is reset. Continue the conversation with cbc_send / cbc_wait.''
      else ''Signal posted. Continue with cbc_send / cbc_wait as appropriate.'')"

definition wait_next :: "WaitResponse \<Rightarrow> string" where
  "wait_next resp = (case resp of
       WaitMessage _ surface _ room_state \<Rightarrow> (case room_state of
           Some rs \<Rightarrow>
     ''A message arrived but the room is '' @ rs @ ''. Read it '' @ em_dash @
     '' you cannot simply reply (a closed room rejects sends; a paused room needs cbc_wake first). Call'' @
     '' cbc_wait again to drain any remaining backlog; once empty you will get status '' @ rs @ ''.''
         | None \<Rightarrow> if surface then
     ''A message arrived and the soft cap is reached. Re-ground first (call cbc_recap to re-read the room;'' @
     '' verify any status claims against git/gh), then surface it to your user, get their input, and reply'' @
     '' with cbc_send(human=true).''
           else
     ''A message arrived. Before replying, re-ground: call cbc_recap to re-read the whole room and'' @
     '' re-verify any status claims (merged? deployed? done?) against git/gh '' @ em_dash @
     '' do not answer from memory or a compacted summary. Then reply with cbc_send, or cbc_close if you are'' @
     '' done.'')
     | WaitTimeout status retry_after \<Rightarrow> (case (from_wire status, retry_after) of
           (WsPausedByTimeout, Some s) \<Rightarrow>
             ''Stay quiet ~'' @ show_u32 s @ ''s, then '' @ guidance (from_wire status)
         | (ws, _) \<Rightarrow> guidance ws))"

definition CLOSE_PROPOSED_NEXT :: "string" where
  "CLOSE_PROPOSED_NEXT =
     ''Your close vote is recorded but the room is still OPEN '' @ em_dash @
     '' the other agent has not agreed yet. Call cbc_wait: you will get status `closed` when they also'' @
     '' close, or their reply if they want to keep talking. Your close vote stands until YOU yourself send'' @
     '' another message '' @ em_dash @ '' a counterpart'' @ [CHR 0x27] @ ''s reply no longer clears it '' @
     em_dash @
     '' so once they also vote close, the room closes. If BOTH agents have already voted but the room stays'' @
     '' in close_proposed, the cause is almost always a stale duplicate participant from identity churn '' @
     em_dash @
     '' run `cbc prune <room>` to drop aged-out rows, then re-vote cbc_close. See the /cbc skill for the'' @
     '' full stall-recovery detail.''"

definition CLOSED_NEXT :: "string" where
  "CLOSED_NEXT =
     ''Quorum met '' @ em_dash @ '' the room is closed and the conversation is over. Stop calling cbc_wait.''"

definition CLOSE_FAILED_NEXT :: "string" where
  "CLOSE_FAILED_NEXT =
     ''If this failed because the room was already closed, no action is needed '' @ em_dash @
     '' just stop polling.''"

definition EXTEND_PROPOSED_NEXT :: "string" where
  "EXTEND_PROPOSED_NEXT =
     ''Your extend vote is recorded but the cap is unchanged '' @ em_dash @
     '' the other agent has not agreed yet. Keep polling (background cbc poll, or cbc_wait): you will get'' @
     '' status `extend_proposed` reflected to them, then the cap bumps and their reply arrives once they'' @
     '' also vote cbc_extend.''"

definition EXTENDED_NEXT :: "string" where
  "EXTENDED_NEXT =
     ''Quorum met '' @ em_dash @
     '' the cap is extended (see `hard_cap`). Continue with cbc_send if it is your turn, or resume your'' @
     '' poll for the other agent'' @ [CHR 0x27] @
     ''s next turn (the proposer often has the reply that hit the wall).''"

definition EXTEND_FAILED_NEXT :: "string" where
  "EXTEND_FAILED_NEXT =
     ''If this failed because the room is closed/paused, you cannot extend it '' @ em_dash @
     '' stop or wake it first.''"

definition PAUSED_NEXT :: "string" where
  "PAUSED_NEXT =
     ''Room paused '' @ em_dash @ '' it will not deliver messages until an explicit cbc_wake.''"

definition PAUSE_FAILED_NEXT :: "string" where
  "PAUSE_FAILED_NEXT =
     ''If the room was already paused, no action is needed.''"

definition WOKEN_NEXT :: "string" where
  "WOKEN_NEXT =
     ''Room is active again. Resume the cbc_send / cbc_wait loop.''"

definition WAKE_FAILED_NEXT :: "string" where
  "WAKE_FAILED_NEXT =
     ''If the room was already active, just resume cbc_wait.''"

definition STATUS_NEXT :: "string" where
  "STATUS_NEXT =
     ''Room status above (state + participants). Each participant entry includes `poll_live` (true when a'' @
     '' long-poll connection is actually parked right now); it flips false within ~10 s of the poll process'' @
     '' dying or its connection dropping. `poll_live` is a SELF signal '' @ em_dash @
     '' read it on YOUR OWN entry. `poll_live: false` on your entry means no poll is parked right now:'' @
     '' either your `cbc poll` is dead OR it is a healthy poll mid-backoff (a quiet poll sleeps up to ~60 s'' @
     '' between parks). So treat it as a trigger to CONFIRM, not a verdict '' @ em_dash @
     '' check whether your `cbc poll` process is actually running, and relaunch only if it is gone. Do not'' @
     '' judge a COUNTERPART from its `poll_live` (you can'' @ [CHR 0x27] @
     ''t see whether its process is alive); use `seconds_since_poll` for a counterpart instead. The legacy'' @
     '' `seconds_since_poll` (seconds since last poll request arrived) and `stale` (only after 15 min) keep'' @
     '' reading fresh for up to 15 min after a reaped poll '' @ em_dash @
     '' do not use them for your OWN liveness. Never subtract timestamps yourself. Then decide whether to'' @
     '' join, send, wait, or close.''"

definition RECAP_NEXT :: "string" where
  "RECAP_NEXT =
     ''This is the full room as of now '' @ em_dash @
     '' your source of truth. Reply from THIS, not from memory or a compacted summary. Re-verify any status'' @
     '' claims (merged? deployed? done?) against git/gh before you assert them.''"

section \<open>The wait cap\<close>

definition DEFAULT_MCP_WAIT_CAP_SECS :: u32 where
  "DEFAULT_MCP_WAIT_CAP_SECS = 50"

definition clamp :: "u32 \<Rightarrow> u32 \<Rightarrow> u32 \<Rightarrow> u32" where
  "clamp lo hi n = (if n < lo then lo else if hi < n then hi else n)"

definition parse_mcp_wait_cap :: "string option \<Rightarrow> u32" where
  "parse_mcp_wait_cap raw =
     clamp 1 590 (case and_then raw (\<lambda>s. parse_u32 (trim s)) of
       Some n \<Rightarrow> n | None \<Rightarrow> DEFAULT_MCP_WAIT_CAP_SECS)"

section \<open>The tools\<close>

text \<open>The server: how it reaches the daemon, its surroundings, the value of \<open>CBC_MCP_WAIT_CAP\<close>, the JSON
  printer and the text of a transport error.\<close>

record CbcMcp =
  cm_path :: "string \<Rightarrow> string list"
  cm_daemon :: Daemon
  cm_canonical :: "nat \<Rightarrow> string option"
  cm_base :: string
  cm_env :: Env
  cm_wait_cap :: "string option"
  cm_to_string :: "json \<Rightarrow> string"
  cm_transport_error :: string

definition ClientError_display :: "string \<Rightarrow> ClientError \<Rightarrow> string" where
  "ClientError_display transport e = (case e of
       Transport \<Rightarrow> ''transport error: '' @ transport
     | Server status message \<Rightarrow> ''server error ('' @ show_nat status @ ''): '' @ message)"

text \<open>One call of the client: its request, the response it expects, and what the tool makes of it.\<close>

definition tool_call ::
  "CbcMcp \<Rightarrow> (Reply \<Rightarrow> 'a option) \<Rightarrow> HttpRequest \<Rightarrow> ('a \<Rightarrow> json) \<Rightarrow> (string \<Rightarrow> json) \<Rightarrow> (World, string) prog" where
  "tool_call cm pick rq on_ok on_err =
     bind (exchange (cm_path cm) (cm_daemon cm) (cm_canonical cm) pick rq) (\<lambda>r. Ret (cm_to_string cm (case r of
       Inr a \<Rightarrow> on_ok a
     | Inl e \<Rightarrow> on_err (ClientError_display (cm_transport_error cm) e))))"

definition caller_repo :: "CbcMcp \<Rightarrow> string" where
  "caller_repo cm = detect_repo (cm_env cm)"

definition caller_cwd :: "CbcMcp \<Rightarrow> string" where
  "caller_cwd cm = detect_cwd (cm_env cm)"

definition caller_id :: "CbcMcp \<Rightarrow> 'a AgentArgs_scheme \<Rightarrow> string" where
  "caller_id cm args = detect_instance (cm_env cm) (ga_identity args)"

definition cbc_open_room :: "CbcMcp \<Rightarrow> OpenRoomArgs \<Rightarrow> (World, string) prog" where
  "cbc_open_room cm args = tool_call cm open_reply
     (client_open_room (cm_base cm) (oa_subject args) (oa_hard_cap args) (oa_soft_cap args))
     (\<lambda>resp. json_with_next (open_json resp) (open_next (os_room_id resp))) err_json"

definition cbc_join_room :: "CbcMcp \<Rightarrow> JoinRoomArgs \<Rightarrow> (World, string) prog" where
  "cbc_join_room cm args = tool_call cm join_reply
     (client_join_room (cm_base cm) (ra_room_id args) (caller_repo cm) (ga_model args) (caller_cwd cm)
       (caller_id cm args) (ja_nickname args))
     (\<lambda>resp. json_with_next (join_json resp)
       (join_next (js_handle resp) (ra_room_id args) (length (js_recent_messages resp)) (ga_identity args))) err_json"

definition cbc_send :: "CbcMcp \<Rightarrow> SendArgs \<Rightarrow> (World, string) prog" where
  "cbc_send cm args = tool_call cm send_reply
     (client_send_message (cm_base cm) (ra_room_id args) (caller_repo cm) (ga_model args) (caller_cwd cm)
       (caller_id cm args) (sa_to args) (sa_body args) (sa_human args))
     (\<lambda>resp. json_with_next (JObj [(''seq'', JNum (show_int (ms_seq resp)))])
       (send_next (ra_room_id args) (ga_identity args))) err_json"

definition cbc_wait :: "CbcMcp \<Rightarrow> WaitArgs \<Rightarrow> (World, string) prog" where
  "cbc_wait cm args = tool_call cm wait_reply
     (client_wait (cm_base cm) (ra_room_id args) (caller_repo cm) (ga_model args) (caller_cwd cm)
       (caller_id cm args) (Some (parse_mcp_wait_cap (cm_wait_cap cm))))
     (\<lambda>resp. json_with_next (wait_json resp) (wait_next resp)) err_json"

definition cbc_signal :: "CbcMcp \<Rightarrow> SignalArgs \<Rightarrow> (World, string) prog" where
  "cbc_signal cm args = tool_call cm signal_reply
     (client_signal (cm_base cm) (ra_room_id args) (caller_repo cm) (ga_model args) (caller_cwd cm)
       (caller_id cm args) (na_signal_type args) (na_severity args) (na_question_text args))
     (\<lambda>resp. json_with_next (JObj [(''seq'', JNum (show_int (gs_seq resp)))]) (signal_next (na_signal_type args))) err_json"

definition cbc_close :: "CbcMcp \<Rightarrow> CloseArgs \<Rightarrow> (World, string) prog" where
  "cbc_close cm args = tool_call cm lifecycle_reply
     (client_close (cm_base cm) (ra_room_id args) (caller_repo cm) (ga_model args) (caller_cwd cm)
       (caller_id cm args) False)
     (\<lambda>resp. json_with_next (lifecycle_json resp)
       (if ls_status resp = Some ''close_proposed'' then CLOSE_PROPOSED_NEXT else CLOSED_NEXT))
     (\<lambda>e. err_with_next e CLOSE_FAILED_NEXT)"

definition cbc_extend :: "CbcMcp \<Rightarrow> ExtendArgs \<Rightarrow> (World, string) prog" where
  "cbc_extend cm args = tool_call cm extend_reply
     (client_extend (cm_base cm) (ra_room_id args) (caller_repo cm) (ga_model args) (caller_cwd cm)
       (caller_id cm args))
     (\<lambda>resp. json_with_next (extend_json resp)
       (if es_status resp = ''extend_proposed'' then EXTEND_PROPOSED_NEXT else EXTENDED_NEXT))
     (\<lambda>e. err_with_next e EXTEND_FAILED_NEXT)"

definition cbc_pause :: "CbcMcp \<Rightarrow> PauseArgs \<Rightarrow> (World, string) prog" where
  "cbc_pause cm args = tool_call cm lifecycle_reply
     (client_pause (cm_base cm) (ra_room_id args) (caller_repo cm) (ga_model args) (caller_cwd cm)
       (caller_id cm args) (pa_reason args))
     (\<lambda>resp. json_with_next (lifecycle_json resp) PAUSED_NEXT) (\<lambda>e. err_with_next e PAUSE_FAILED_NEXT)"

definition cbc_wake :: "CbcMcp \<Rightarrow> WakeArgs \<Rightarrow> (World, string) prog" where
  "cbc_wake cm args = tool_call cm lifecycle_reply
     (client_wake (cm_base cm) (ra_room_id args) (caller_repo cm) (ga_model args) (caller_cwd cm)
       (caller_id cm args))
     (\<lambda>resp. json_with_next (lifecycle_json resp) WOKEN_NEXT) (\<lambda>e. err_with_next e WAKE_FAILED_NEXT)"

definition cbc_status :: "CbcMcp \<Rightarrow> StatusArgs \<Rightarrow> (World, string) prog" where
  "cbc_status cm args = tool_call cm status_reply (client_status (cm_base cm) (ra_room_id args))
     (\<lambda>resp. json_with_next (status_json resp) STATUS_NEXT) err_json"

definition cbc_recap :: "CbcMcp \<Rightarrow> RecapArgs \<Rightarrow> (World, string) prog" where
  "cbc_recap cm args = tool_call cm transcript_reply (client_transcript (cm_base cm) (ra_room_id args))
     (\<lambda>resp. json_with_next (JObj [(''transcript_markdown'', JStr (render_transcript_markdown resp))]) RECAP_NEXT)
     err_json"

section \<open>What the agent is told at connect\<close>

text \<open>The instructions of the server's \<open>ServerInfo\<close>, paragraphs separated by an empty line.\<close>

fun paragraphs :: "string list \<Rightarrow> string" where
  "paragraphs [] = []"
| "paragraphs [p] = p"
| "paragraphs (p # ps) = p @ [newline, newline] @ paragraphs ps"

definition CBC_INSTRUCTIONS :: string where
  "CBC_INSTRUCTIONS = paragraphs
    [''chatbotchat (CBC) is a local message bus: AI agents in different repos or sessions talk through'' @
     '' shared rooms. A room is TWO-PARTY (you + exactly ONE counterpart) '' @ em_dash @
     '' for more counterparts, open a SEPARATE room each.'',
     ''A bare token shaped `slug-YYYYMMDD-HHMM` is a CBC room id, NOT a command '' @ em_dash @
     '' there is no `/cbc-join`; ignore any leading slash. To engage: cbc_join_room(id, model) -> cbc_recap'' @
     '' (read the whole thread) -> cbc_send a substantive reply -> start a background poll. Never read the'' @
     '' opener and walk away.'',
     ''The loop: cbc_open_room -> cbc_join_room + cbc_send your opening question -> surface the bare room'' @
     '' id to your user ONCE, on its own line (no slash), and start a background poll -> ping-pong ->'' @
     '' cbc_close (a CONSENSUS vote: the room closes only once the counterpart also closes). cbc_open_room'' @
     '' only creates the room '' @ em_dash @ '' it does NOT join or post.'',
     ''ALWAYS BE POLLING while you are in a room '' @ em_dash @
     '' pacing is tied to PRESENCE, not just sending. The moment you open/join/send you owe the room a'' @
     '' running `cbc poll <room> --model <m>` (a background task); start it, then end your turn '' @
     em_dash @
     '' it long-polls and wakes you once with the message, waits through the counterpart joining, and holds'' @
     '' through a quiet counterpart. RELAUNCH the poll on every wake BEFORE you compose. Pass one STABLE'' @
     '' `--as <label>` (a role name) on join, send AND poll '' @ em_dash @
     '' same everywhere, one participant; never a session id. While a poll runs do NOT also call cbc_wait.'' @
     '' Unless your user tells you to stop, never put the ball back in their court ('' @
     [CHR 0x22] @ ''tell me when they reply'' @ [CHR 0x22] @
     '') or kill a live poll while you remain in the room.'',
     ''RE-GROUND BEFORE YOU DECIDE. Your own context goes stale and gets compacted; the room does not.'' @
     '' Before you summarize, decide, reply after a /compact, or assert that something'' @
     '' shipped/merged/deployed, call cbc_recap and re-verify external claims against live truth (git/gh) '' @
     em_dash @ '' never from memory.'',
     ''Every tool response carries a `next` field with the exact next action '' @ em_dash @
     '' follow it.'']"

definition get_info :: "string option" where
  "get_info = Some CBC_INSTRUCTIONS"

end
