(* ===== verification/McpSpec.thy ===== *)
theory McpSpec
  imports Mcp ClientSpec HookSpec ConsensusSpec
begin

text \<open>
  The tools of an agent on the daemon: the \<open>close\<close> tool can only vote, whatever the agent passes, and one
  label is one participant, in every tool, from every process and in the poll the guidance suggests.
\<close>

section \<open>Tools are calls of handlers\<close>

text \<open>A server that reaches its daemon.\<close>

definition connected :: "CbcMcp \<Rightarrow> bool" where
  "connected cm \<longleftrightarrow> addresses (cm_path cm) (cm_base cm)"

definition tool_text :: "CbcMcp \<Rightarrow> ('a \<Rightarrow> json) \<Rightarrow> (string \<Rightarrow> json) \<Rightarrow> ApiError + 'a \<Rightarrow> string" where
  "tool_text cm on_ok on_err r = cm_to_string cm (case client_result r of
     Inr a \<Rightarrow> on_ok a | Inl e \<Rightarrow> on_err (ClientError_display (cm_transport_error cm) e))"

lemma run_tool_call:
  assumes "exchange (cm_path cm) (cm_daemon cm) (cm_canonical cm) pick rq = called p"
  shows "run (tool_call cm pick rq on_ok on_err) w =
    map_option (\<lambda>(r, w'). (tool_text cm on_ok on_err r, w')) (run p w)"
  by (simp add: tool_call_def assms called_def bind_assoc run_bind tool_text_def split: option.split)

lemma tool_text_ok: "tool_text cm on_ok on_err (Inr a) = cm_to_string cm (on_ok a)"
  by (simp add: tool_text_def)

section \<open>Closing\<close>

definition close_vote :: "CbcMcp \<Rightarrow> CloseArgs \<Rightarrow> LifecycleRequest" where
  "close_vote cm args = \<lparr>q_repo = caller_repo cm, q_model = ga_model args, q_cwd = caller_cwd cm,
     q_instance = caller_id cm args, lr_reason = None, lr_force = False\<rparr>"

lemma run_cbc_close:
  assumes "connected cm" and "segment (ra_room_id args)"
  shows "run (cbc_close cm args) w =
    map_option (\<lambda>(r, w'). (tool_text cm
      (\<lambda>resp. json_with_next (lifecycle_json resp)
        (if ls_status resp = Some ''close_proposed'' then CLOSE_PROPOSED_NEXT else CLOSED_NEXT))
      (\<lambda>e. err_with_next e CLOSE_FAILED_NEXT) r, w'))
    (run (close_room (dn_fmt (cm_daemon cm)) (ra_room_id args) (close_vote cm args)) w)"
  unfolding cbc_close_def close_vote_def
  by (rule run_tool_call, rule call_close) (use assms in \<open>simp_all add: connected_def\<close>)

text \<open>An agent cannot close alone. Whatever it passes, the close tool is an unforced vote: while another
  live participant has not voted it leaves every room and the audit log as they were and tells the
  agent that the room is still open; when none is left it closes the room and says so.\<close>

lemma mcp_close_needs_consensus:
  assumes "connected cm" and "segment (ra_room_id args)" and "wf_db (w_db w)"
    and "close_checks (ra_room_id args) (close_vote cm args) (w_db w) = Inr (room, c)"
    and "close_quorum (config room) = QAll"
  shows "\<exists>resp w'.
    (if holdouts (ra_room_id args) (w_now w) c (w_db w) = {}
     then run (cbc_close cm args) w =
         Some (cm_to_string cm (json_with_next (lifecycle_json resp) CLOSED_NEXT), w') \<and>
       (\<forall>r\<in>set (rooms (w_db w')). r_id r = ra_room_id args \<longrightarrow> r_state r = Closed)
     else run (cbc_close cm args) w =
         Some (cm_to_string cm (json_with_next (lifecycle_json resp) CLOSE_PROPOSED_NEXT), w') \<and>
       rooms (w_db w') = rooms (w_db w) \<and> events (w_db w') = events (w_db w))"
proof -
  have "\<not> lr_force (close_vote cm args)" by (simp add: close_vote_def)
  from close_by_consensus [OF assms(3-5) this, of "dn_fmt (cm_daemon cm)"]
  obtain resp w' where run: "run (close_room (dn_fmt (cm_daemon cm)) (ra_room_id args) (close_vote cm args)) w =
      Some (Inr resp, w')"
    and outcome: "if holdouts (ra_room_id args) (w_now w) c (w_db w) = {}
      then ls_status resp = Some ''closed'' \<and>
        (\<forall>r\<in>set (rooms (w_db w')). r_id r = ra_room_id args \<longrightarrow> r_state r = Closed)
      else ls_status resp = Some ''close_proposed'' \<and> rooms (w_db w') = rooms (w_db w) \<and>
        events (w_db w') = events (w_db w)"
    by blast
  show ?thesis
    using outcome unfolding run_cbc_close [OF assms(1,2)] run
    by (intro exI [of _ resp] exI [of _ w']) (simp add: tool_text_ok split: if_splits)
qed

section \<open>Identity\<close>

definition join_request_of :: "CbcMcp \<Rightarrow> JoinRoomArgs \<Rightarrow> JoinRoomRequest" where
  "join_request_of cm args = \<lparr>q_repo = caller_repo cm, q_model = ga_model args, q_cwd = caller_cwd cm,
     q_instance = caller_id cm args, jr_nickname = ja_nickname args\<rparr>"

lemma run_cbc_join:
  assumes "connected cm" and "segment (ra_room_id args)"
  shows "run (cbc_join_room cm args) w =
    map_option (\<lambda>(r, w'). (tool_text cm
      (\<lambda>resp. json_with_next (join_json resp)
        (join_next (js_handle resp) (ra_room_id args) (length (js_recent_messages resp)) (ga_identity args)))
      err_json r, w'))
    (run (join_room (dn_fmt (cm_daemon cm)) (dn_sess (cm_daemon cm)) (ra_room_id args) (join_request_of cm args)) w)"
  unfolding cbc_join_room_def join_request_of_def
  by (rule run_tool_call, rule call_join) (use assms in \<open>simp_all add: connected_def\<close>)

lemma caller_id_label: "ga_identity args = Some label \<Longrightarrow> trim label \<noteq> [] \<Longrightarrow> caller_id cm args = trim label"
  by (simp add: caller_id_def detect_instance_def resolve_explicit)

lemma join_next_command:
  "mentions (join_next h room recent (Some label)) (poll_command room ''<m>'' (Some label))"
proof -
  have "mentions (poll_launch_clause (Some label) room) (poll_command room ''<m>'' (Some label))"
    unfolding poll_launch_clause_def poll_command_def option.case mentions_def
    by (rule exI [of _ "''launch `''"]) simp
  then show ?thesis
    unfolding join_next_def by (blast intro: mentions_parts(1,2))
qed


section \<open>Examples\<close>

definition sample_mcp :: CbcMcp where
  "sample_mcp = \<lparr>cm_path = sample_path, cm_daemon = sample_daemon, cm_canonical = (\<lambda>n. None),
     cm_base = sample_base, cm_env = \<lparr>env_current_dir = Some ''/w'', env_git_stdout = None,
       env_cbc_instance = None, env_session_id = Some ''s1'', env_pid = 7\<rparr>,
     cm_wait_cap = None, cm_to_string = (\<lambda>j. []), cm_transport_error = []\<rparr>"

definition sample_close_args :: CloseArgs where
  "sample_close_args = \<lparr>ra_room_id = ''r'', ga_model = ''m'', ga_identity = Some ''a''\<rparr>"

lemma sample_connected: "connected sample_mcp"
  using sample_addresses by (simp add: connected_def sample_mcp_def)

lemma sample_segment: "segment ''r''"
  by (simp add: segment_def identity_char_def is_ascii_alphanumeric_def)


end
