(* ===== verification/Cli.thy ===== *)
theory Cli
  imports Mcp Hook
begin

text \<open>
  The subcommands of \<open>cbc\<close> that talk to the daemon (\<open>main\<close> in \<open>bins/cbc/src/main.rs\<close>): each makes one
  call and prints the answer, or fails with the context of the step that failed. The command line is
  parsed already; what it defaults to is \<open>poll_defaults\<close>.
\<close>

section \<open>Commands\<close>

datatype ShowFormat = Markdown | AsJson

record PollOptions =
  po_poll_cap_secs :: u32
  po_max_polls :: u32
  po_error_backoff_secs :: u64
  po_join_backoff_secs :: u64
  po_max_join_wait_secs :: u64
  po_stale_backoff_secs :: u64
  po_max_stale_wait_secs :: u64
  po_json :: bool

definition poll_defaults :: PollOptions where
  "poll_defaults = \<lparr>po_poll_cap_secs = 50, po_max_polls = 0, po_error_backoff_secs = 2, po_join_backoff_secs = 5,
     po_max_join_wait_secs = 3600, po_stale_backoff_secs = 30, po_max_stale_wait_secs = 3600, po_json = False\<rparr>"

text \<open>Room id, model, the \<open>--as\<close> label, then what the command has of its own.\<close>

datatype Command =
    CmdOpen string "u32 option" "u32 option"
  | CmdJoin string string "string option" "string option"
  | CmdSend string string "string option" string "string option" bool
  | CmdSignal string string "string option" string "string option" "string option"
  | CmdWait string string "string option"
  | CmdList bool "string option"
  | CmdShow string ShowFormat
  | CmdStatus string
  | CmdPrune string
  | CmdClose string string "string option" bool
  | CmdExtend string string "string option"
  | CmdPause string string "string option" "string option"
  | CmdWake string string "string option"

text \<open>How the process reaches the daemon, its surroundings and the JSON printer.\<close>

record Cli =
  ci_path :: "string \<Rightarrow> string list"
  ci_daemon :: Daemon
  ci_canonical :: "nat \<Rightarrow> string option"
  ci_server :: string
  ci_env :: Env
  ci_to_string :: "json \<Rightarrow> string"
  ci_pretty :: "json \<Rightarrow> string"

definition ci_base :: "Cli \<Rightarrow> string" where
  "ci_base cli = HttpClient_new (ci_server cli)"

text \<open>A call with \<open>context\<close>: what is printed, or the context and the client's error.\<close>

definition cli_call ::
  "Cli \<Rightarrow> (Reply \<Rightarrow> 'a option) \<Rightarrow> string \<Rightarrow> HttpRequest \<Rightarrow> ('a \<Rightarrow> Effect list) \<Rightarrow>
   (World, (string \<times> ClientError) + Effect list) prog" where
  "cli_call cli pick ctx rq show_ok =
     bind (exchange (ci_path cli) (ci_daemon cli) (ci_canonical cli) pick rq) (\<lambda>r. Ret (case r of
       Inr a \<Rightarrow> Inr (show_ok a) | Inl e \<Rightarrow> Inl (ctx, e)))"

definition cli_repo :: "Cli \<Rightarrow> string" where
  "cli_repo cli = detect_repo (ci_env cli)"

definition cli_cwd :: "Cli \<Rightarrow> string" where
  "cli_cwd cli = detect_cwd (ci_env cli)"

definition cli_id :: "Cli \<Rightarrow> string option \<Rightarrow> string" where
  "cli_id cli label = detect_instance (ci_env cli) label"

section \<open>Printing\<close>

definition show_bool :: "bool \<Rightarrow> string" where
  "show_bool b = (if b then ''true'' else ''false'')"

definition print_open :: "OpenRoomResponse \<Rightarrow> Effect list" where
  "print_open r = [println (''Room:  '' @ os_room_id r), println (''Share: '' @ os_share_line r), println [],
     println (''Tell the other agent: '' @ os_share_line r)]"

definition print_join :: "JoinRoomResponse \<Rightarrow> Effect list" where
  "print_join r = [println (''Handle:  '' @ js_handle r), println (''Resumed: '' @ show_bool (js_resumed r)),
     println (''State:   '' @ js_room_state r)]"

definition print_wait :: "WaitResponse \<Rightarrow> Effect list" where
  "print_wait r = (case r of
       WaitMessage m surface retry_after room_state \<Rightarrow> print_message_human m surface room_state @ print_backoff retry_after
     | WaitTimeout status retry_after \<Rightarrow> println status # print_backoff retry_after)"

definition print_summary :: "RoomSummary \<Rightarrow> Effect" where
  "print_summary r = println (su_room_id r @ ''  ['' @ su_state r @ '']  '' @ show_int (su_participant_count r) @
     '' participant'' @ (if su_participant_count r = 1 then [] else ''s'') @ ''  '' @ su_subject r)"

definition print_list :: "RoomSummary list \<Rightarrow> Effect list" where
  "print_list rs = (if rs = [] then [println ''(no rooms)''] else map print_summary rs)"

definition print_transcript :: "(json \<Rightarrow> string) \<Rightarrow> ShowFormat \<Rightarrow> RoomTranscript \<Rightarrow> Effect list" where
  "print_transcript pretty_json format t = (case format of
       AsJson \<Rightarrow> [println (pretty_json (transcript_json t))]
     | Markdown \<Rightarrow> [Out (render_transcript_markdown t)])"

definition print_status :: "RoomStatus \<Rightarrow> Effect list" where
  "print_status r = [println (''Room:    '' @ rs_id r), println (''Subject: '' @ rs_subject r),
       println (''State:   '' @ rs_state r), println (''Started: '' @ rs_started_at r),
       println (''Active:  '' @ rs_last_activity_at r)] @
     (if rs_participants r = [] then [println ''Participants: (none)'']
      else println ''Participants:'' # map (\<lambda>p. println (''  - '' @ participant_label (pv_nickname p) (pv_handle p) @
        '' ('' @ pv_model p @ '' @ '' @ pv_cwd p @ '')'')) (rs_participants r))"

definition print_prune :: "PruneResponse \<Rightarrow> Effect list" where
  "print_prune r = [println (''Pruned '' @ show_u32 (pr_pruned r) @ '' ghost participant(s); '' @
     show_u32 (pr_remaining r) @ '' remaining.'')]"

definition or_zero :: "u32 option \<Rightarrow> u32" where
  "or_zero x = (case x of None \<Rightarrow> 0 | Some n \<Rightarrow> n)"

definition print_close :: "LifecycleResponse \<Rightarrow> Effect list" where
  "print_close r =
     (if ls_status r = Some ''close_proposed'' then
        (let have_votes = show_u32 (or_zero (ls_votes r)); need = show_u32 (or_zero (ls_needed r))
         in [println (
     ''Close proposed ('' @ have_votes @ ''/'' @ need @ '') '' @ em_dash @
     '' waiting for the other agent to agree. They will see it on their next wait and can agree (cbc close)'' @
     '' or keep talking (which cancels the proposal).'')])
      else [println (''State: '' @ ls_state r)])"

definition print_extend :: "ExtendResponse \<Rightarrow> Effect list" where
  "print_extend r =
     (if es_status r = ''extend_proposed'' then
        (let have_votes = show_u32 (or_zero (es_votes r)); need = show_u32 (or_zero (es_needed r))
         in [println (
     ''Extend proposed ('' @ have_votes @ ''/'' @ need @ '') '' @ em_dash @
     '' waiting for the other agent to agree. They will see it on their next wait and can agree (cbc'' @
     '' extend) to bump the cap by +20.'')])
      else (case es_hard_cap r of
          Some cap \<Rightarrow> [println (''Cap extended '' @ em_dash @ '' hard cap is now '' @ show_u32 cap @ ''.'')]
        | None \<Rightarrow> [println ''Cap extended.'']))"

section \<open>Running a command\<close>

type_synonym outcome = "(World, (string \<times> ClientError) + Effect list) prog"

definition run_open :: "Cli \<Rightarrow> string \<Rightarrow> u32 option \<Rightarrow> u32 option \<Rightarrow> outcome" where
  "run_open cli subj hard soft =
     cli_call cli open_reply ''opening room'' (client_open_room (ci_base cli) subj hard soft) print_open"

definition run_join :: "Cli \<Rightarrow> string \<Rightarrow> string \<Rightarrow> string option \<Rightarrow> string option \<Rightarrow> outcome" where
  "run_join cli rid md label nick =
     cli_call cli join_reply ''joining room'' (client_join_room (ci_base cli) rid (cli_repo cli) md (cli_cwd cli) (cli_id cli label) nick) print_join"

definition run_send :: "Cli \<Rightarrow> string \<Rightarrow> string \<Rightarrow> string option \<Rightarrow> string \<Rightarrow> string option \<Rightarrow> bool \<Rightarrow> outcome" where
  "run_send cli rid md label body to human =
     cli_call cli send_reply ''sending message''
     (client_send_message (ci_base cli) rid (cli_repo cli) md (cli_cwd cli) (cli_id cli label) to body human)
     (\<lambda>r. [println (''Sent: seq '' @ show_int (ms_seq r))])"

definition run_signal :: "Cli \<Rightarrow> string \<Rightarrow> string \<Rightarrow> string option \<Rightarrow> string \<Rightarrow> string option \<Rightarrow> string option \<Rightarrow> outcome" where
  "run_signal cli rid md label ty sev question =
     cli_call cli signal_reply ''sending signal''
     (client_signal (ci_base cli) rid (cli_repo cli) md (cli_cwd cli) (cli_id cli label) ty sev question)
     (\<lambda>r. [println (''Signal sent: seq '' @ show_int (gs_seq r))])"

definition run_wait :: "Cli \<Rightarrow> string \<Rightarrow> string \<Rightarrow> string option \<Rightarrow> outcome" where
  "run_wait cli rid md label =
     cli_call cli wait_reply ''waiting for message'' (client_wait (ci_base cli) rid (cli_repo cli) md (cli_cwd cli) (cli_id cli label) None) print_wait"

definition run_list :: "Cli \<Rightarrow> bool \<Rightarrow> string option \<Rightarrow> outcome" where
  "run_list cli all state =
     cli_call cli list_reply ''listing rooms'' (client_list_rooms (ci_base cli) state all) print_list"

definition run_show :: "Cli \<Rightarrow> string \<Rightarrow> ShowFormat \<Rightarrow> outcome" where
  "run_show cli rid format =
     cli_call cli transcript_reply ''fetching transcript'' (client_transcript (ci_base cli) rid)
     (print_transcript (ci_pretty cli) format)"

definition run_status :: "Cli \<Rightarrow> string \<Rightarrow> outcome" where
  "run_status cli rid =
     cli_call cli status_reply ''fetching status'' (client_status (ci_base cli) rid) print_status"

definition run_prune :: "Cli \<Rightarrow> string \<Rightarrow> outcome" where
  "run_prune cli rid =
     cli_call cli prune_reply ''pruning room'' (client_prune (ci_base cli) rid) print_prune"

definition run_close :: "Cli \<Rightarrow> string \<Rightarrow> string \<Rightarrow> string option \<Rightarrow> bool \<Rightarrow> outcome" where
  "run_close cli rid md label force =
     cli_call cli lifecycle_reply ''closing room'' (client_close (ci_base cli) rid (cli_repo cli) md (cli_cwd cli) (cli_id cli label) force) print_close"

definition run_extend :: "Cli \<Rightarrow> string \<Rightarrow> string \<Rightarrow> string option \<Rightarrow> outcome" where
  "run_extend cli rid md label =
     cli_call cli extend_reply ''extending room cap'' (client_extend (ci_base cli) rid (cli_repo cli) md (cli_cwd cli) (cli_id cli label)) print_extend"

definition run_pause :: "Cli \<Rightarrow> string \<Rightarrow> string \<Rightarrow> string option \<Rightarrow> string option \<Rightarrow> outcome" where
  "run_pause cli rid md label reason =
     cli_call cli lifecycle_reply ''pausing room'' (client_pause (ci_base cli) rid (cli_repo cli) md (cli_cwd cli) (cli_id cli label) reason)
     (\<lambda>r. [println (''State: '' @ ls_state r)])"

definition run_wake :: "Cli \<Rightarrow> string \<Rightarrow> string \<Rightarrow> string option \<Rightarrow> outcome" where
  "run_wake cli rid md label =
     cli_call cli lifecycle_reply ''waking room'' (client_wake (ci_base cli) rid (cli_repo cli) md (cli_cwd cli) (cli_id cli label))
     (\<lambda>r. [println (''State: '' @ ls_state r)])"

definition run_command :: "Cli \<Rightarrow> Command \<Rightarrow> outcome" where
  "run_command cli cmd = (case cmd of
       CmdOpen subj hard soft \<Rightarrow> run_open cli subj hard soft
     | CmdJoin rid md label nick \<Rightarrow> run_join cli rid md label nick
     | CmdSend rid md label body to human \<Rightarrow> run_send cli rid md label body to human
     | CmdSignal rid md label ty sev question \<Rightarrow> run_signal cli rid md label ty sev question
     | CmdWait rid md label \<Rightarrow> run_wait cli rid md label
     | CmdList all state \<Rightarrow> run_list cli all state
     | CmdShow rid format \<Rightarrow> run_show cli rid format
     | CmdStatus rid \<Rightarrow> run_status cli rid
     | CmdPrune rid \<Rightarrow> run_prune cli rid
     | CmdClose rid md label force \<Rightarrow> run_close cli rid md label force
     | CmdExtend rid md label \<Rightarrow> run_extend cli rid md label
     | CmdPause rid md label reason \<Rightarrow> run_pause cli rid md label reason
     | CmdWake rid md label \<Rightarrow> run_wake cli rid md label)"

section \<open>The poll command\<close>

text \<open>What \<open>cbc poll\<close> does before its loop: the marker it touches, if any, the request it repeats, and the
  loop on the stream of answers.\<close>

definition poll_marker :: "Cli \<Rightarrow> PollOptions \<Rightarrow> string \<Rightarrow> string option \<Rightarrow> string option" where
  "poll_marker cli po rid label =
     (if should_mark_alive (po_max_polls po)
      then Some (poll_alive_marker (path_join (cli_cwd cli) ''.cbc'') rid label) else None)"

definition poll_request :: "Cli \<Rightarrow> PollOptions \<Rightarrow> string \<Rightarrow> string \<Rightarrow> string option \<Rightarrow> HttpRequest" where
  "poll_request cli po rid md label = client_wait (ci_base cli) rid (cli_repo cli) md (cli_cwd cli)
     (cli_id cli label) (Some (clamp 1 590 (po_poll_cap_secs po)))"

definition run_poll ::
  "Cli \<Rightarrow> PollOptions \<Rightarrow> nat \<Rightarrow> (nat \<Rightarrow> string + WaitResponse) \<Rightarrow> (Effect list \<times> (string + unit)) option" where
  "run_poll cli po calls server_answer =
     poll_until_event calls (ci_to_string cli) server_answer (po_max_polls po) (po_error_backoff_secs po)
       (po_join_backoff_secs po) (effective_max_join_wait (po_max_join_wait_secs po))
       (po_stale_backoff_secs po) (po_max_stale_wait_secs po) (po_json po)"

end
