(* ===== verification/CliSpec.thy ===== *)
theory CliSpec
  imports Cli McpSpec
begin

text \<open>
  The command line and the tools are two surfaces of one client: the same call from either leaves the
  daemon in the same state.
\<close>

text \<open>A command line and a tool server that run in the same surroundings against the same daemon.\<close>

definition same_surroundings :: "Cli \<Rightarrow> CbcMcp \<Rightarrow> bool" where
  "same_surroundings cli cm \<longleftrightarrow> ci_path cli = cm_path cm \<and> ci_daemon cli = cm_daemon cm \<and>
     ci_canonical cli = cm_canonical cm \<and> ci_base cli = cm_base cm \<and> ci_env cli = cm_env cm"

lemma same_caller:
  assumes "same_surroundings cli cm"
  shows "cli_repo cli = caller_repo cm" and "cli_cwd cli = caller_cwd cm" and "ci_base cli = cm_base cm"
    and "cli_id cli (ga_identity args) = caller_id cm args"
  using assms by (simp_all add: same_surroundings_def cli_repo_def caller_repo_def cli_cwd_def caller_cwd_def
      cli_id_def caller_id_def)

lemma run_bind_world:
  "map_option snd (run (bind p (\<lambda>r. Ret (f r))) w) = map_option snd (run p w)"
  by (simp add: run_bind split: option.split)

lemma same_world:
  assumes "same_surroundings cli cm"
  shows "map_option snd (run (cli_call cli pick ctx rq show_ok) w) =
    map_option snd (run (tool_call cm pick rq on_ok on_err) w)"
  using assms by (simp add: cli_call_def tool_call_def run_bind_world same_surroundings_def)


definition sample_cli :: Cli where
  "sample_cli = \<lparr>ci_path = sample_path, ci_daemon = sample_daemon, ci_canonical = (\<lambda>n. None),
     ci_server = ''http://127.0.0.1:8484/'', ci_env = cm_env sample_mcp, ci_to_string = (\<lambda>j. []),
     ci_pretty = (\<lambda>j. [])\<rparr>"


end
