(* ===== verification/Wire.thy ===== *)
theory Wire
  imports Render
begin

text \<open>
  How the client reads a response: the derived \<open>Deserialize\<close> of the protocol crate with its attributes.
  A member with a default may be absent, an optional one may be absent or \<open>null\<close>, others must be there,
  unknown members are ignored; \<open>WaitResponse\<close> is untagged, so its variants are tried in their order.
  The keys of an object are distinct.
\<close>

section \<open>Fields\<close>

definition required :: "(json \<Rightarrow> 'a option) \<Rightarrow> string \<Rightarrow> (string \<times> json) list \<Rightarrow> 'a option" where
  "required f k m = and_then (obj_get k m) f"

definition defaulted :: "'a \<Rightarrow> (json \<Rightarrow> 'a option) \<Rightarrow> string \<Rightarrow> (string \<times> json) list \<Rightarrow> 'a option" where
  "defaulted d f k m = (case obj_get k m of None \<Rightarrow> Some d | Some v \<Rightarrow> f v)"

definition nullable :: "(json \<Rightarrow> 'a option) \<Rightarrow> string \<Rightarrow> (string \<times> json) list \<Rightarrow> 'a option option" where
  "nullable f k m = (case obj_get k m of
       None \<Rightarrow> Some None | Some JNull \<Rightarrow> Some None | Some v \<Rightarrow> map_option Some (f v))"

fun as_u32 :: "json \<Rightarrow> u32 option" where
  "as_u32 (JNum s) = parse_u32 s"
| "as_u32 _ = None"

definition parse_i64 :: "string \<Rightarrow> int option" where
  "parse_i64 s =
     (let negative = starts_with ''-'' s; ds = (if negative then tl s else s);
          i = (if negative then - int (digits_value ds) else int (digits_value ds))
      in if ds \<noteq> [] \<and> list_all is_digit ds \<and> - (2 ^ 63) \<le> i \<and> i < 2 ^ 63 then Some i else None)"

fun as_i64 :: "json \<Rightarrow> int option" where
  "as_i64 (JNum s) = parse_i64 s"
| "as_i64 _ = None"

lemma as_u32_num [simp]: "as_u32 (num_u32 n) = Some n"
  by (simp add: num_u32_def parse_show_u32)

lemma parse_show_int:
  assumes "- (2 ^ 63) \<le> i" and "i < 2 ^ 63"
  shows "parse_i64 (show_int i) = Some i"
proof (cases "i < 0")
  case True
  then show ?thesis
    using assms by (simp add: parse_i64_def show_int_def starts_with_def show_nat_digits digits_value_show_nat)
next
  case False
  obtain c cs where s: "show_nat (nat i) = c # cs" by (cases "show_nat (nat i)") simp_all
  have "is_digit c" using show_nat_digits [of "nat i"] by (simp add: s)
  then have "\<not> starts_with ''-'' (show_nat (nat i))" by (auto simp: s starts_with_def is_digit_def)
  with False show ?thesis
    using assms by (simp add: parse_i64_def show_int_def show_nat_digits digits_value_show_nat)
qed

section \<open>Responses\<close>

definition message_from_json :: "json \<Rightarrow> MessageView option" where
  "message_from_json v = and_then (as_object v) (\<lambda>m.
     and_then (required as_i64 ''seq'' m) (\<lambda>seq.
     and_then (required as_str ''from'' m) (\<lambda>sender.
     and_then (nullable as_str ''to'' m) (\<lambda>to.
     and_then (required as_str ''body'' m) (\<lambda>body.
     and_then (required as_str ''created_at'' m) (\<lambda>at.
     and_then (defaulted ''msg'' as_str ''type'' m) (\<lambda>ty.
     and_then (nullable as_str ''severity'' m) (\<lambda>sev.
     and_then (nullable as_str ''question_text'' m) (\<lambda>question.
     Some \<lparr>mv_seq = seq, mv_from = sender, mv_to = to, mv_body = body, mv_created_at = at, mv_msg_type = ty,
       mv_severity = sev, mv_question_text = question\<rparr>)))))))))"

definition wait_message_from :: "(string \<times> json) list \<Rightarrow> WaitResponse option" where
  "wait_message_from m =
     and_then (required message_from_json ''message'' m) (\<lambda>msg.
     and_then (defaulted False as_bool ''surface_to_user'' m) (\<lambda>surface.
     and_then (nullable as_u32 ''retry_after'' m) (\<lambda>retry.
     and_then (nullable as_str ''room_state'' m) (\<lambda>rs.
     Some (WaitMessage msg surface retry rs)))))"

definition wait_timeout_from :: "(string \<times> json) list \<Rightarrow> WaitResponse option" where
  "wait_timeout_from m =
     and_then (required as_str ''status'' m) (\<lambda>status.
     and_then (nullable as_u32 ''retry_after'' m) (\<lambda>retry.
     Some (WaitTimeout status retry)))"

definition wait_from_json :: "json \<Rightarrow> WaitResponse option" where
  "wait_from_json v = and_then (as_object v) (\<lambda>m.
     case wait_message_from m of Some r \<Rightarrow> Some r | None \<Rightarrow> wait_timeout_from m)"

definition lifecycle_from_json :: "json \<Rightarrow> LifecycleResponse option" where
  "lifecycle_from_json v = and_then (as_object v) (\<lambda>m.
     and_then (required as_str ''state'' m) (\<lambda>state.
     and_then (nullable as_str ''status'' m) (\<lambda>status.
     and_then (nullable as_u32 ''votes'' m) (\<lambda>votes.
     and_then (nullable as_u32 ''needed'' m) (\<lambda>needed.
     Some \<lparr>ls_state = state, ls_status = status, ls_votes = votes, ls_needed = needed\<rparr>)))))"

definition extend_from_json :: "json \<Rightarrow> ExtendResponse option" where
  "extend_from_json v = and_then (as_object v) (\<lambda>m.
     and_then (required as_str ''state'' m) (\<lambda>state.
     and_then (required as_str ''status'' m) (\<lambda>status.
     and_then (nullable as_u32 ''votes'' m) (\<lambda>votes.
     and_then (nullable as_u32 ''needed'' m) (\<lambda>needed.
     and_then (nullable as_u32 ''hard_cap'' m) (\<lambda>cap.
     Some \<lparr>es_state = state, es_status = status, es_votes = votes, es_needed = needed, es_hard_cap = cap\<rparr>))))))"

section \<open>Reading what was written\<close>

lemmas field_defs = required_def defaulted_def nullable_def and_then_def

lemma nullable_str [simp]: "nullable as_str k ((k, json_of_option JStr x) # m) = Some x"
  by (cases x) (simp_all add: nullable_def json_of_option_def)

lemma message_roundtrip:
  assumes "- (2 ^ 63) \<le> mv_seq m" and "mv_seq m < 2 ^ 63"
  shows "message_from_json (message_json m) = Some m"
  using assms
  by (cases m) (auto simp: message_from_json_def message_json_def required_def defaulted_def nullable_def
      json_of_option_def parse_show_int split: option.split)

definition seq_ok :: "WaitResponse \<Rightarrow> bool" where
  "seq_ok r = (case r of WaitMessage m _ _ _ \<Rightarrow> - (2 ^ 63) \<le> mv_seq m \<and> mv_seq m < 2 ^ 63 | WaitTimeout _ _ \<Rightarrow> True)"

lemma wait_roundtrip:
  assumes "seq_ok r"
  shows "wait_from_json (wait_json r) = Some r"
proof (cases r)
  case (WaitMessage m surface retry rs)
  then have "message_from_json (message_json m) = Some m"
    using assms by (intro message_roundtrip) (simp_all add: seq_ok_def)
  then show ?thesis
    by (cases retry; cases rs) (simp_all add: WaitMessage wait_json_def wait_from_json_def wait_message_from_def
        required_def defaulted_def nullable_def optional_def num_u32_def parse_show_u32)
next
  case (WaitTimeout status retry)
  then show ?thesis
    by (cases retry) (simp_all add: wait_json_def wait_from_json_def wait_message_from_def wait_timeout_from_def
        required_def nullable_def optional_def num_u32_def parse_show_u32)
qed

lemma lifecycle_roundtrip: "lifecycle_from_json (lifecycle_json l) = Some l"
  by (cases l; cases "ls_status l"; cases "ls_votes l"; cases "ls_needed l")
    (simp_all add: lifecycle_json_def lifecycle_from_json_def required_def nullable_def optional_def num_u32_def
      parse_show_u32)

lemma extend_roundtrip: "extend_from_json (extend_json e) = Some e"
  by (cases e; cases "es_votes e"; cases "es_needed e"; cases "es_hard_cap e")
    (simp_all add: extend_json_def extend_from_json_def required_def nullable_def optional_def num_u32_def
      parse_show_u32)

text \<open>C25: responses survive the wire. Whatever the daemon writes of a wait, a lifecycle or an extend
  response, the client reads back as it was; a message is never read as a status nor a status as a
  message, although the two are told apart by their members only.\<close>

theorem responses_roundtrip:
  "(seq_ok r \<longrightarrow> wait_from_json (wait_json r) = Some r) \<and>
   lifecycle_from_json (lifecycle_json l) = Some l \<and> extend_from_json (extend_json e) = Some e"
  using wait_roundtrip lifecycle_roundtrip extend_roundtrip by blast

theorem responses_roundtrip_witness:
  "wait_from_json (wait_json (WaitTimeout ''close_proposed'' None)) = Some (WaitTimeout ''close_proposed'' None)"
  by (rule mp [OF conjunct1 [OF responses_roundtrip]]) (simp add: seq_ok_def)

end
