(* ===== verification/WakeSpec.thy ===== *)
theory WakeSpec
  imports WaitSpec
begin

text \<open>
  The wake-up: a parked \<open>wait\<close> beside an environment that changes the world while it is blocked. \<open>drive\<close>
  follows a program through the changes; the lemmas give its reading of the building blocks of a
  handler. A part that does not block is driven as it runs alone (\<open>drive_run\<close>).
\<close>

section \<open>The building blocks, driven\<close>

lemma drive_fetch [drive_simps]:
  "drive (fetch conv f k) es w = (case f (w_db w) of Inl e \<Rightarrow> Some (Inl (conv e), es, w) | Inr a \<Rightarrow> drive (k a) es w)"
  by (simp add: fetch_def drive_simps split: sum.split)

lemma drive_look [drive_simps]: "drive (look f k) es w = drive (k (f (w_db w))) es w"
  by (simp add: look_def drive_simps)

lemma drive_clocks [drive_simps]:
  "drive (now_utc k) es w = drive (k (w_now w)) es w"
  "drive (mono_now k) es w = drive (k (w_mono w)) es w"
  by (simp_all add: now_utc_def mono_now_def drive_simps)

lemma drive_sql [drive_simps]:
  "drive (sql conv f k) es w = (case fst (f (w_db w)) of
       Inl e \<Rightarrow> Some (Inl (conv e), es, w\<lparr>w_db := snd (f (w_db w))\<rparr>)
     | Inr a \<Rightarrow> drive (k a) es (w\<lparr>w_db := snd (f (w_db w))\<rparr>))"
  by (simp add: sql_def drive_simps split: sum.split)

lemma drive_call [drive_simps]:
  "drive (call conv p k) es w = (case drive p es w of
       None \<Rightarrow> None
     | Some (Inl e, es', w') \<Rightarrow> Some (Inl (conv e), es', w')
     | Some (Inr a, es', w') \<Rightarrow> drive (k a) es' w')"
  by (auto simp: call_def drive_simps split: option.split sum.split)

lemma drive_subscribe [drive_simps]:
  "drive (subscribe rid k) es w =
     drive (k (fst (hub_subscribe rid (w_hub w)))) es (w\<lparr>w_hub := snd (hub_subscribe rid (w_hub w))\<rparr>)"
  by (simp add: subscribe_def drive_simps split: prod.split)

lemma drive_with_park [drive_simps]:
  "drive (with_park st h p) es w =
     (case drive p es (w\<lparr>w_presence := enter (presence_grace st) h (w_mono w) (w_presence w)\<rparr>) of
        None \<Rightarrow> None
      | Some (r, es', w') \<Rightarrow> Some (r, es', left_park h w'))"
  by (simp add: with_park_def park_def unpark_def drive_simps left_park_def split: option.split)

lemma drive_ok_or [drive_simps]:
  "drive (ok_or e x k) es w = (case x of None \<Rightarrow> Some (Inl e, es, w) | Some a \<Rightarrow> drive (k a) es w)"
  by (simp add: ok_or_def fail_def drive_simps split: option.split)

lemma drive_ok [drive_simps]: "drive (ok b) es w = Some (Inr b, es, w)"
  by (simp add: ok_def)

section \<open>What happens to the world meanwhile\<close>

text \<open>Time passes; another participant's request is served.\<close>

definition passes :: "time \<Rightarrow> World \<Rightarrow> World" where
  "passes dt w = w\<lparr>w_now := w_now w + dt, w_mono := w_mono w + dt\<rparr>"

definition posts :: "(time \<Rightarrow> string) \<Rightarrow> string \<Rightarrow> SendMessageRequest \<Rightarrow> World \<Rightarrow> World" where
  "posts fmt rid req w = (case run (send_message fmt rid req) w of None \<Rightarrow> w | Some (_, w') \<Rightarrow> w')"

lemma posts_sent:
  assumes "wf_db (w_db w)" and "send_checks rid req (w_db w) = Inr (room, s)"
  shows "posts fmt rid req w =
    w\<lparr>w_db := sent_db rid room s req (w_now w) (w_db w), w_hub := hub_notify rid (w_hub w)\<rparr>"
  using run_send_message [OF assms(1), of fmt rid req] assms(2) by (simp add: posts_def)

lemma sent_wf:
  assumes "wf_db d" and "send_checks rid req d = Inr (room, s)"
  shows "wf_db (sent_db rid room s req now d)"
proof -
  let ?w = "world_of d now"
  have ok: "db_ok ?w" using assms(1) by (simp add: db_ok_def world_of_def)
  have "run (send_message id rid req) ?w = Some (Inr \<lparr>ms_seq = next_seq d\<rparr>,
      ?w\<lparr>w_db := sent_db rid room s req now d, w_hub := hub_notify rid (w_hub ?w)\<rparr>)" for id
    using run_send_message [of ?w id rid req] assms by (simp add: world_of_def)
  from server.run_ok [OF send_message_keeps ok this] show ?thesis by (simp add: db_ok_def)
qed

lemma inbox_after_send:
  assumes "wf_db d" and "send_checks rid req d = Inr (room, s)" and "read_cursor h d \<noteq> None"
    and "inbox rid h d = []" and "p_handle s \<noteq> h" and "sm_to req = None \<or> sm_to req = Some h"
  shows "inbox rid h (sent_db rid room s req now d) = [sent_message rid (p_handle s) req now d]"
proof -
  obtain c where c: "read_cursor h d = Some c" using assms(3) by blast
  then obtain p where p: "p \<in> set (participants d)" "last_read_seq p = c"
    by (auto simp: read_cursor_def dest: find_SomeD)
  have "find (\<lambda>p. p_handle p = h) (map (without_votes g) ps) =
      map_option (without_votes g) (find (\<lambda>p. p_handle p = h) ps)" for g ps
    by (induction ps) (auto simp: without_votes_def)
  moreover have seen: "last_read_seq (without_votes g p) = last_read_seq p" for g p
    by (simp add: without_votes_def)
  ultimately have same: "read_cursor h (sent_db rid room s req now d) = Some c"
    using c seen by (auto simp: read_cursor_def sent_db_def)
  have "c \<le> top_seq d" using assms(1) p by (auto simp: wf_db_def wf_participants_def)
  then have "unread_for rid h c (sent_message rid (p_handle s) req now d)"
    using assms(5,6) by (auto simp: unread_for_def addressed_to_def sent_message_def next_seq_def top_seq_def)
  then show ?thesis using assms(4) same c by (simp add: inbox_def sent_db_def)
qed

section \<open>The park\<close>

text \<open>An idle loop before its deadline parks until the room is rung, then starts over.\<close>

lemma drive_wait_parked:
  assumes "db_ok w" and "claimable rid h (w_db w) = None" and "w_mono w < deadline"
    and "run y w = Some (Inr False, w)" and "rx_room rx = rid" and "rx_seen rx = pings (w_hub w) rid"
    and "pings (w_hub (e1 w)) rid = pings (w_hub w) rid" and "w_mono (e1 w) < deadline"
    and "pings (w_hub (e2 (e1 w))) rid = pings (w_hub w) rid + 1"
  shows "drive (wait_loop (Suc n) rid h deadline y rx) [e1, e2] w =
      drive (wait_loop n rid h deadline y (rx\<lparr>rx_seen := rx_seen rx + 1\<rparr>)) [] (e2 (e1 w))"
    and "run (wait_loop (Suc n) rid h deadline y rx) w = None"
proof -
  let ?g = "\<lambda>v. recv_ready rx (w_hub v) \<or> w_mono w + saturating_since deadline (w_mono w) \<le> w_mono v"
  have claim: "run (claim_next_unread (Suc n) rid h) w = Some (Inr None, w)"
    using run_claim [OF assms(1), of n rid h] assms(2) by (simp add: after_claim_def)
  have g: "\<not> ?g w" "\<not> ?g (e1 w)" "?g (e2 (e1 w))"
    using assms(3,5-9) by (auto simp: recv_ready_def saturating_since_def)
  have ready: "recv_ready rx (w_hub (e2 (e1 w)))" using assms(5,6,9) by (simp add: recv_ready_def)
  have ring: "recv_take rx (w_hub (e2 (e1 w))) = (RecvOk, rx\<lparr>rx_seen := rx_seen rx + 1\<rparr>)"
    using assms(5,6,9) by (simp add: recv_take_def CHANNEL_CAPACITY_def Let_def)
  have wake: "unblock ?g [e1, e2] w = Some (e2 (e1 w), [])"
    using unblock_wait [of ?g w e1 "[e2]", OF g(1)] unblock_wait [of ?g "e1 w" e2 "[]", OF g(2)]
      unblock_enabled [of ?g "e2 (e1 w)" "[]", OF g(3)] by simp
  show "drive (wait_loop (Suc n) rid h deadline y rx) [e1, e2] w =
      drive (wait_loop n rid h deadline y (rx\<lparr>rx_seen := rx_seen rx + 1\<rparr>)) [] (e2 (e1 w))"
    using assms(3) wake ready ring
    by (simp add: wait_loop.simps drive_call drive_run [OF claim] drive_clocks drive_run [OF assms(4)]
        recv_timeout_def drive_Await saturating_since_def Let_def del: claim_next_unread.simps)
  show "run (wait_loop (Suc n) rid h deadline y rx) w = None"
    using assms(3) g(1)
    by (simp add: wait_loop.simps run_call claim run_mono_now assms(4) recv_timeout_def run_Await
        saturating_since_def Let_def del: claim_next_unread.simps)
qed

text \<open>The loop and what follows it, from the world in which the caller is parked.\<close>

lemma drive_until_sent:
  fixes d
  assumes "wf_db (w_db w)" and d: "d = touched h (w_now w) (w_db w)"
    and room: "get_room rid d = Inr (Some room)" and live: "\<not> is_halted (r_state room)"
    and "read_cursor h d \<noteq> None" and "inbox rid h d = []" and "proposal fmt rid h (w_now w) d = None"
    and "0 \<le> dt" and "dt < cap"
    and checks: "send_checks rid mreq d = Inr (room', s)" "p_handle s \<noteq> h" "sm_to mreq = None \<or> sm_to mreq = Some h"
  shows "run (wait_for_message_until (Suc (Suc n)) rid h cap (wait_relevant_change fmt rid h)) w = None"
    and "\<exists>v. drive (wait_for_message_until (Suc (Suc n)) rid h cap (wait_relevant_change fmt rid h))
          [passes dt, posts fmt rid mreq] w =
        Some (Inr (Delivered (sent_message rid (p_handle s) mreq (w_now w + dt) d)), [], v) \<and>
      inbox rid h (w_db v) = [] \<and> rooms (w_db v) = map (revived rid (w_now w + dt)) (rooms d) \<and>
      w_now v = w_now w + dt"
proof -
  let ?y = "wait_relevant_change fmt rid h"
  let ?rx = "fst (hub_subscribe rid (w_hub w))"
  let ?w = "w\<lparr>w_db := d, w_hub := snd (hub_subscribe rid (w_hub w))\<rparr>"
  let ?m = "sent_message rid (p_handle s) mreq (w_now w + dt) d"
  let ?sent = "sent_db rid room' s mreq (w_now w + dt) d"
  have wf: "wf_db d" unfolding d by (rule touched_wf [OF assms(1)])
  then have ok: "db_ok ?w" by (simp add: db_ok_def)
  have idle: "claimable rid h (w_db ?w) = None" using claimable_first [OF wf] assms(6) by simp
  have y: "run ?y ?w = Some (Inr False, ?w)"
    using run_relevant_change [of rid ?w room fmt h] room live assms(7) by simp
  have rx: "rx_room ?rx = rid" "rx_seen ?rx = pings (w_hub ?w) rid"
    by (simp_all add: subscribed_seen) (simp add: hub_subscribe_def split: option.split)
  have after: "posts fmt rid mreq (passes dt ?w) =
      (passes dt ?w)\<lparr>w_db := ?sent, w_hub := hub_notify rid (w_hub ?w)\<rparr>"
    using posts_sent [of "passes dt ?w" rid mreq room' s fmt] wf checks(1) by (simp add: passes_def)
  have parked: "drive (wait_loop (Suc (Suc n)) rid h (w_mono w + cap) ?y ?rx) [passes dt, posts fmt rid mreq] ?w =
      drive (wait_loop (Suc n) rid h (w_mono w + cap) ?y (?rx\<lparr>rx_seen := rx_seen ?rx + 1\<rparr>)) []
        (posts fmt rid mreq (passes dt ?w))"
    and blocked: "run (wait_loop (Suc (Suc n)) rid h (w_mono w + cap) ?y ?rx) ?w = None"
    using drive_wait_parked [OF ok idle _ y rx, of "w_mono w + cap" "passes dt" "posts fmt rid mreq" "Suc n"] assms(8,9)
    by (simp_all add: after) (simp_all add: passes_def)
  show "run (wait_for_message_until (Suc (Suc n)) rid h cap ?y) w = None"
    using blocked by (simp add: run_wait_until d)
  have wf_sent: "wf_db ?sent" by (rule sent_wf [OF wf checks(1)])
  have inbox: "inbox rid h ?sent = [?m]"
    by (rule inbox_after_send [OF wf checks(1) assms(5,6) checks(2,3)])
  let ?v = "posts fmt rid mreq (passes dt ?w)"
  have found: "claimable rid h (w_db ?v) = Some ?m"
    using claimable_first [OF wf_sent, of rid h] inbox by (simp add: after)
  have reader: "reader_ok h ?sent" using wf_sent inbox by (auto simp: reader_ok_def inbox_def split: option.splits)
  have "run (wait_loop (Suc n) rid h (w_mono w + cap) ?y (?rx\<lparr>rx_seen := rx_seen ?rx + 1\<rparr>)) ?v =
      Some (Inr (Delivered ?m), ?v\<lparr>w_db := after_claim rid h ?sent\<rparr>)"
    using run_wait_claims [OF _ found] wf_sent by (simp add: db_ok_def after)
  note delivered = drive_run [OF this, of "[]"]
  have "drive (wait_for_message_until (Suc (Suc n)) rid h cap ?y) [passes dt, posts fmt rid mreq] w =
      Some (Inr (Delivered ?m), [], ?v\<lparr>w_db := after_claim rid h ?sent\<rparr>)"
    using parked delivered
    by (simp add: wait_for_message_until_def drive_simps touched_def [symmetric] d)
  moreover have "inbox rid h (after_claim rid h ?sent) = []" using inbox_after_claim [OF reader, of rid] inbox by simp
  moreover have "rooms (after_claim rid h ?sent) = map (revived rid (w_now w + dt)) (rooms d)"
    by (simp add: after_claim_def sent_db_def split: option.split)
  moreover have "w_now ?v = w_now w + dt" by (simp add: after) (simp add: passes_def)
  ultimately show "\<exists>v. drive (wait_for_message_until (Suc (Suc n)) rid h cap ?y) [passes dt, posts fmt rid mreq] w =
        Some (Inr (Delivered ?m), [], v) \<and>
      inbox rid h (w_db v) = [] \<and> rooms (w_db v) = map (revived rid (w_now w + dt)) (rooms d) \<and> w_now v = w_now w + dt"
    by (intro exI [of _ "?v\<lparr>w_db := after_claim rid h ?sent\<rparr>"]) simp
qed

text \<open>What follows the loop does not block.\<close>

lemma drive_delivery:
  assumes "drive (wait_for_message_until n rid h (park_time fmt st req rid h (w_now w) (w_db w))
      (wait_relevant_change fmt rid h)) es w = Some (Inr (Delivered m), es', v)"
  shows "\<exists>surface hnt. drive (wait_after_gates fmt st n rid req room h) es w =
    Some (Inr (WaitMessage (message_view fmt m) surface hnt None), es', v)"
  using drive_run [OF run_park_cap, where es = es] drive_run [OF run_sentinel, where es = es']
    drive_run [OF run_busy, where es = es'] assms
  by (auto simp: wait_after_gates_def deliver_response_def drive_call drive_look drive_ok split: option.splits)

lemma drive_wait_entry:
  assumes "get_room rid (w_db w) = Inr (Some room)" and "\<not> is_halted (r_state room)"
    and "resolved rid (caller_instance req) (w_db w) = Some c" and "joined_other rid (p_handle c) (w_db w)"
  shows "drive (wait_room fmt st n rid req) es w =
    (case drive (wait_after_gates fmt st n rid req room (p_handle c)) es (entered st (p_handle c) w) of
       None \<Rightarrow> None | Some (r, es', v) \<Rightarrow> Some (r, es', left_park (p_handle c) v))"
  using drive_run [OF run_resolve, where es = es] assms
  by (simp add: wait_room_def drive_simps has_counterpart_iff entered_def touched_def [symmetric])

section \<open>The property\<close>



end
