(* ===== verification/WaitTypes.thy ===== *)
theory WaitTypes
  imports HttpWait Samples
begin

text \<open>
  The types of the answers: which replies \<open>wait_room\<close> can give at all, whatever other requests, the
  sweeper and the clocks do between any two of its actions. \<open>answers\<close> is the set of results of a
  program in an arbitrary environment; \<open>returns\<close> is the typing judgement on programs, with one rule
  for each way the handlers are composed, and \<open>answers_typed\<close> its soundness.
\<close>

section \<open>Results in any environment\<close>

inductive answers :: "('w, 'a) prog \<Rightarrow> 'a \<Rightarrow> bool" where
  returned: "answers (Ret a) a"
| stepped: "g w \<Longrightarrow> answers (k w) a \<Longrightarrow> answers (Act g u k) a"

inductive_cases answers_RetE [elim!]: "answers (Ret a) b"
inductive_cases answers_ActE [elim!]: "answers (Act g u k) a"

lemma run_answers: "run p w = Some (a, w') \<Longrightarrow> answers p a"
  by (induction p arbitrary: w) (auto intro: answers.intros split: if_splits)

lemma drive_answers: "drive p es w = Some (a, es', w') \<Longrightarrow> answers p a"
proof (induction p arbitrary: es w)
  case (Act g u k)
  have enabled: "g v" if "unblock g es w = Some (v, fs)" for es w v fs
    using that
  proof (induction es arbitrary: w)
    case Nil
    then show ?case by (subst (asm) unblock.simps) (auto split: if_splits)
  next
    case (Cons e es)
    then show ?case by (cases "g w") auto
  qed
  from Act show ?case by (auto split: option.splits intro: answers.stepped dest!: enabled)
qed (auto intro: answers.intros)

primrec returns :: "('a \<Rightarrow> bool) \<Rightarrow> ('w, 'a) prog \<Rightarrow> bool" where
  "returns P (Ret a) \<longleftrightarrow> P a"
| "returns P (Act g u k) \<longleftrightarrow> (\<forall>w. g w \<longrightarrow> returns P (k w))"

lemma answers_typed: "answers p a \<Longrightarrow> returns P p \<Longrightarrow> P a"
  by (induction rule: answers.induct) auto

section \<open>The typing rules\<close>

lemma returns_Ret [typing]: "P a \<Longrightarrow> returns P (Ret a)"
  by simp

lemma returns_ok [typing]: "P (Inr a) \<Longrightarrow> returns P (ok a)"
  by (simp add: ok_def)

lemma returns_Hang [typing]: "returns P Hang"
  by (simp add: Hang_def)

lemma returns_bind:
  assumes "returns Q p" and "\<And>a. Q a \<Longrightarrow> returns P (h a)"
  shows "returns P (bind p h)"
  using assms by (induction p) auto

lemma returns_mono: "returns Q p \<Longrightarrow> (\<And>a. Q a \<Longrightarrow> P a) \<Longrightarrow> returns P p"
  by (induction p) auto

lemma returns_reads [typing]:
  "(\<And>a. returns P (look_k a)) \<Longrightarrow> returns P (look f look_k)"
  "(\<And>t. returns P (now_k t)) \<Longrightarrow> returns P (now_utc now_k)"
  by (simp_all add: look_def now_utc_def Query_def)

lemma returns_storage [typing]:
  assumes "\<And>e. P (Inl (conv e))" and "\<And>a. returns P (k a)"
  shows "returns P (fetch conv f k)" and "returns P (sql conv f_db k)"
  using assms by (simp_all add: fetch_def sql_def Query_def Exec_def split: sum.split)

lemma returns_ok_or [typing]:
  "P (Inl e) \<Longrightarrow> (\<And>a. x = Some a \<Longrightarrow> returns P (k a)) \<Longrightarrow> returns P (ok_or e x k)"
  by (simp add: ok_or_def split: option.split)

text \<open>\<open>gives V\<close>: the value, if there is one, satisfies \<open>V\<close>; a storage error is always possible.\<close>

abbreviation gives :: "('a \<Rightarrow> bool) \<Rightarrow> ('w, 'e + 'a) prog \<Rightarrow> bool" where
  "gives V \<equiv> returns (case_sum (\<lambda>_. True) V)"

lemma gives_any [simp]: "gives (\<lambda>_. True) p"
  by (induction p) (auto split: sum.split)

lemma returns_call:
  assumes "gives V p" and "\<And>e. P (Inl (conv e))" and "\<And>a. V a \<Longrightarrow> returns P (k a)"
  shows "returns P (call conv p k)"
  unfolding call_def using assms by (auto intro!: returns_bind split: sum.splits)

lemmas returns_call_any = returns_call [OF gives_any]

lemma returns_with_park [typing]: "returns P p \<Longrightarrow> returns P (with_park st h p)"
  by (auto simp: with_park_def park_def unpark_def Exec_def intro: returns_bind)

section \<open>The replies of a wait\<close>

text \<open>A number of seconds to stay quiet for is at most a minute.\<close>

definition short_hint :: "u32 option \<Rightarrow> bool" where
  "short_hint retry_after \<longleftrightarrow> (case retry_after of None \<Rightarrow> True | Some secs \<Rightarrow> uint secs \<le> 60)"

fun wait_reply_ok :: "ApiError + WaitResponse \<Rightarrow> bool" where
  "wait_reply_ok (Inl e) \<longleftrightarrow> (case e of
       NotFound \<Rightarrow> True
     | BadRequest msg \<Rightarrow> e = not_a_participant
     | Conflict msg \<Rightarrow> False
     | Internal cause \<Rightarrow> True)"
| "wait_reply_ok (Inr (WaitTimeout status retry_after)) \<longleftrightarrow>
     known (from_wire status) \<and> short_hint retry_after \<and>
     (retry_after \<noteq> None \<longrightarrow> status = as_wire WsPausedByTimeout)"
| "wait_reply_ok (Inr (WaitMessage message surface retry_after room_state)) \<longleftrightarrow>
     short_hint retry_after \<and>
     (case room_state of
        None \<Rightarrow> True
      | Some s \<Rightarrow> s \<in> RoomState_as_str ` {Paused, Closed, Archived} \<and> \<not> surface \<and> retry_after = None)"

definition hint_range :: "int option \<Rightarrow> bool" where
  "hint_range h \<longleftrightarrow> (case h of None \<Rightarrow> True | Some secs \<Rightarrow> 0 \<le> secs \<and> secs \<le> 60)"

lemma backoff_range: "0 \<le> backoff_secs sev t \<and> backoff_secs sev t \<le> 60"
  by (simp add: backoff_secs_def Let_def)

lemma short_hint_hint: "hint_range h \<Longrightarrow> short_hint (hint h)"
  by (auto simp: hint_range_def short_hint_def hint_def uint_word_of_int split: option.splits)

lemma reply_errors [simp]:
  "wait_reply_ok (Inl (from_storage e))" "wait_reply_ok (Inl not_a_participant)" "wait_reply_ok (Inl NotFound)"
  by (simp_all add: from_storage_def not_a_participant_def)

lemma halted_status:
  "is_halted s \<Longrightarrow> known (from_wire (RoomState_as_str s)) \<and> RoomState_as_str s \<in> RoomState_as_str ` {Paused, Closed, Archived}"
  by (cases s) (simp_all add: from_wire_def)

lemma reply_statuses [simp]:
  "known s \<Longrightarrow> wait_reply_ok (Inr (WaitTimeout (as_wire s) None))"
  "is_halted state \<Longrightarrow> wait_reply_ok (Inr (WaitTimeout (RoomState_as_str state) None))"
  "hint_range r \<Longrightarrow> wait_reply_ok (Inr (WaitTimeout (as_wire WsPausedByTimeout) (hint r)))"
  using halted_status [of state] by (simp_all add: from_wire_as_wire short_hint_hint del: as_wire.simps)
    (simp_all add: short_hint_def)

lemma reply_messages [simp]:
  "hint_range r \<Longrightarrow> wait_reply_ok (Inr (WaitMessage m surface (hint r) None))"
  "is_halted state \<Longrightarrow> wait_reply_ok (Inr (WaitMessage m False None (Some (RoomState_as_str state))))"
  using halted_status [of state] by (simp_all add: short_hint_hint) (simp add: short_hint_def)

declare wait_reply_ok.simps [simp del] as_wire.simps [simp del]

lemma backoff_hints:
  "gives hint_range (active_sentinel_backoff rid h)"
  "gives hint_range (counterpart_busy_backoff fmt rid h)"
  unfolding active_sentinel_backoff_def counterpart_busy_backoff_def
  by (rule typing, auto simp: hint_range_def backoff_range split: option.split intro!: typing)+

lemma drain_reply: "is_halted (r_state room) \<Longrightarrow> returns wait_reply_ok (drain_halted fmt n rid room h)"
  unfolding drain_halted_def
  by (rule returns_call_any) (auto split: WaitOutcome.split intro!: returns_ok)

lemma timeout_reply: "hint_range r \<Longrightarrow> returns wait_reply_ok (timeout_response fmt rid h (hint r) away)"
  unfolding timeout_response_def
  by (intro typing reply_errors) (auto intro!: typing returns_call_any)

lemma deliver_reply: "hint_range r \<Longrightarrow> returns wait_reply_ok (deliver_response fmt rid room m (hint r))"
  unfolding deliver_response_def by (rule typing)+ simp

lemma gated_reply: "returns wait_reply_ok (wait_after_gates fmt st n rid req room h)"
  unfolding wait_after_gates_def
proof (rule returns_call_any, simp, rule returns_call_any, simp, rule returns_call [OF backoff_hints(1)], simp)
  fix cap outcome away assume away: "hint_range away"
  have "gives hint_range (case away of Some secs \<Rightarrow> ok (Some secs) | None \<Rightarrow> counterpart_busy_backoff fmt rid h)"
    using away backoff_hints(2) by (auto split: option.split intro!: returns_ok)
  then show "returns wait_reply_ok (call from_storage
      (case away of Some secs \<Rightarrow> ok (Some secs) | None \<Rightarrow> counterpart_busy_backoff fmt rid h) (\<lambda>retry_after.
      case outcome of
        Delivered m \<Rightarrow> deliver_response fmt rid room m (hint retry_after)
      | PausedByTimeout \<Rightarrow> timeout_response fmt rid h (hint retry_after) (away \<noteq> None)))"
    by (rule returns_call) (auto intro: deliver_reply timeout_reply split: WaitOutcome.split)
qed

lemma wait_reply: "returns wait_reply_ok (wait_room fmt st n rid req)"
  unfolding wait_room_def
  by (intro typing returns_call_any reply_errors)
    (auto intro!: typing drain_reply gated_reply)

text \<open>C17: Every answer of a wait is one its callers know. Whatever else happens between any two of its
  actions, \<open>wait_room\<close> fails only with an unknown room, a caller that has not joined or a failure of the
  database; a status it reports is one of the eight the client library names; a hint to stay quiet is
  at most a minute and comes with a message or with the plain timeout only; and a message that carries
  a room state was drained from a halted room: it has no hint and is not surfaced to the user.\<close>

theorem wait_answers_are_typed:
  assumes "answers (wait_room fmt st n rid req) reply"
  shows "wait_reply_ok reply"
  by (rule answers_typed [OF assms wait_reply])

theorem wait_answers_are_typed_witness:
  "wait_reply_ok (Inr (WaitTimeout ''awaiting_counterpart'' None))"
proof -
  let ?w = "world_of (sample_db\<lparr>participants := [bob]\<rparr>) (seconds 5)"
  have "map_option fst (run (wait_room sample_fmt AppState_new 1 ''r'' (wait_request ''b'')) ?w) =
      Some (Inr (WaitTimeout ''awaiting_counterpart'' None))" by code_simp
  then obtain w' where "run (wait_room sample_fmt AppState_new 1 ''r'' (wait_request ''b'')) ?w =
      Some (Inr (WaitTimeout ''awaiting_counterpart'' None), w')" by auto
  then show ?thesis by (rule wait_answers_are_typed [OF run_answers])
qed

end
