(* ===== verification/Files.thy ===== *)
theory Files
  imports Context Hook
begin

text \<open>
  The part of \<open>std::fs\<close> and \<open>std::path\<close> the installers of \<open>cbc\<close> use, over a file system with symbolic links.
  A place is a list of names from the root; a disk maps places to files, directories and links. A path is
  text, walked component by component the way POSIX resolves it: \<open>..\<close> is the parent of the directory the
  walk has reached, a link is replaced by its text, and at most forty links are followed. A write
  truncates before it writes, so it may stop with part of the text written (\<open>fits\<close> bounds what a file can
  hold); permissions are a predicate on places.
\<close>

type_synonym place = "string list"

datatype node = File string | Dir | Link string

datatype io_error = ENOENT | ENOTDIR | EISDIR | EACCES | EEXIST | ELOOP | ENOSPC | EINVAL

record Disk =
  nodes :: "place \<Rightarrow> node option"
  working_dir :: place
  may_read :: "place \<Rightarrow> bool"
  may_write :: "place \<Rightarrow> bool"
  os_text :: "io_error \<Rightarrow> string"
  fits :: "place \<Rightarrow> string \<Rightarrow> nat option"

section \<open>Paths\<close>

text \<open>The components of a path, and where an absolute or a relative one starts.\<close>

definition steps :: "string \<Rightarrow> string list" where
  "steps path = filter (\<lambda>p. p \<noteq> [] \<and> p \<noteq> ''.'') (pieces (CHR ''/'') path)"

definition start :: "place \<Rightarrow> string \<Rightarrow> place" where
  "start cur path = (if starts_with ''/'' path then [] else cur)"

text \<open>\<open>SYMLINK_MAX\<close> of the kernels: a walk that meets one more link fails.\<close>

definition MAX_LINKS :: nat where "MAX_LINKS = 40"

text \<open>The place a path names and the links that may still be followed. The last component may be
  missing; with \<open>follow\<close> a link there is followed too.\<close>

function walk :: "nat \<Rightarrow> bool \<Rightarrow> (place \<Rightarrow> node option) \<Rightarrow> place \<Rightarrow> string list \<Rightarrow> io_error + nat \<times> place" where
  "walk k follow ns cur [] = Inr (k, cur)"
| "walk k follow ns cur (c # cs) =
     (if c = ''..'' then walk k follow ns (butlast cur) cs
      else (case ns (cur @ [c]) of
          None \<Rightarrow> if cs = [] then Inr (k, cur @ [c]) else Inl ENOENT
        | Some (File _) \<Rightarrow> if cs = [] then Inr (k, cur @ [c]) else Inl ENOTDIR
        | Some Dir \<Rightarrow> walk k follow ns (cur @ [c]) cs
        | Some (Link t) \<Rightarrow>
            if cs = [] \<and> \<not> follow then Inr (k, cur @ [c])
            else (case k of 0 \<Rightarrow> Inl ELOOP | Suc k' \<Rightarrow> walk k' follow ns (start cur t) (steps t @ cs))))"
  by pat_completeness auto

termination
  by (relation "measures [\<lambda>(k, _, _, _, cs). k, \<lambda>(k, _, _, _, cs). length cs]") auto

definition place_of :: "Disk \<Rightarrow> bool \<Rightarrow> string \<Rightarrow> io_error + place" where
  "place_of d follow path =
     (if path = [] then Inl ENOENT
      else (case walk MAX_LINKS follow (nodes d) (start (working_dir d) path) (steps path) of
          Inl e \<Rightarrow> Inl e
        | Inr (_, p) \<Rightarrow> Inr p))"

section \<open>Operations\<close>

definition look :: "bool \<Rightarrow> Disk \<Rightarrow> string \<Rightarrow> io_error + node" where
  "look follow d path = (case place_of d follow path of
       Inl e \<Rightarrow> Inl e
     | Inr p \<Rightarrow> (case nodes d p of None \<Rightarrow> Inl ENOENT | Some n \<Rightarrow> Inr n))"

definition symlink_metadata :: "Disk \<Rightarrow> string \<Rightarrow> io_error + node" where
  "symlink_metadata = look False"

definition path_exists :: "Disk \<Rightarrow> string \<Rightarrow> bool" where
  "path_exists d path = (case look True d path of Inl _ \<Rightarrow> False | Inr _ \<Rightarrow> True)"

definition is_dir :: "Disk \<Rightarrow> string \<Rightarrow> bool" where
  "is_dir d path = (look True d path = Inr Dir)"

definition is_file :: "Disk \<Rightarrow> string \<Rightarrow> bool" where
  "is_file d path = (case look True d path of Inr (File _) \<Rightarrow> True | _ \<Rightarrow> False)"

definition read_link :: "Disk \<Rightarrow> string \<Rightarrow> io_error + string" where
  "read_link d path = (case look False d path of
       Inl e \<Rightarrow> Inl e | Inr (Link t) \<Rightarrow> Inr t | Inr _ \<Rightarrow> Inl EINVAL)"

definition read_file :: "Disk \<Rightarrow> string \<Rightarrow> io_error + string" where
  "read_file d path = (case place_of d True path of
       Inl e \<Rightarrow> Inl e
     | Inr p \<Rightarrow> (case nodes d p of
           None \<Rightarrow> Inl ENOENT
         | Some (File b) \<Rightarrow> if may_read d p then Inr b else Inl EACCES
         | Some Dir \<Rightarrow> Inl EISDIR
         | Some (Link _) \<Rightarrow> Inl ELOOP))"

definition set_node :: "place \<Rightarrow> node option \<Rightarrow> Disk \<Rightarrow> Disk" where
  "set_node p n d = d\<lparr>nodes := (nodes d)(p := n)\<rparr>"

text \<open>Opening for writing: an existing file must be writable, a new one needs a writable directory.\<close>

definition write_text :: "string \<Rightarrow> string \<Rightarrow> Disk \<Rightarrow> (io_error + unit) \<times> Disk" where
  "write_text path body d = (case place_of d True path of
       Inl e \<Rightarrow> (Inl e, d)
     | Inr p \<Rightarrow> (case nodes d p of
           Some Dir \<Rightarrow> (Inl EISDIR, d)
         | Some (Link _) \<Rightarrow> (Inl ELOOP, d)
         | old \<Rightarrow>
             if \<not> may_write d (if old = None then butlast p else p) then (Inl EACCES, d)
             else (case fits d p body of
                 None \<Rightarrow> (Inr (), set_node p (Some (File body)) d)
               | Some n \<Rightarrow> (Inl ENOSPC, set_node p (Some (File (take n body))) d))))"

definition remove_file :: "string \<Rightarrow> Disk \<Rightarrow> (io_error + unit) \<times> Disk" where
  "remove_file path d = (case place_of d False path of
       Inl e \<Rightarrow> (Inl e, d)
     | Inr p \<Rightarrow> (case nodes d p of
           None \<Rightarrow> (Inl ENOENT, d)
         | Some Dir \<Rightarrow> (Inl EISDIR, d)
         | Some _ \<Rightarrow> if may_write d (butlast p) then (Inr (), set_node p None d) else (Inl EACCES, d)))"

text \<open>\<open>mkdir\<close> and \<open>create_dir_all\<close>, on a start and the components: \<open>parent\<close> drops the last one.\<close>

definition make_dir :: "place \<Rightarrow> string list \<Rightarrow> Disk \<Rightarrow> (io_error + unit) \<times> Disk" where
  "make_dir cur cs d = (case walk MAX_LINKS False (nodes d) cur cs of
       Inl e \<Rightarrow> (Inl e, d)
     | Inr (_, p) \<Rightarrow> (case nodes d p of
           Some _ \<Rightarrow> (Inl EEXIST, d)
         | None \<Rightarrow> if may_write d (butlast p) then (Inr (), set_node p (Some Dir) d) else (Inl EACCES, d)))"

definition dir_at :: "place \<Rightarrow> string list \<Rightarrow> Disk \<Rightarrow> bool" where
  "dir_at cur cs d = (case walk MAX_LINKS True (nodes d) cur cs of
       Inl _ \<Rightarrow> False | Inr (_, p) \<Rightarrow> nodes d p = Some Dir)"

text \<open>A failure is forgiven when the directory is there.\<close>

definition unless_dir :: "place \<Rightarrow> string list \<Rightarrow> (io_error + unit) \<times> Disk \<Rightarrow> (io_error + unit) \<times> Disk" where
  "unless_dir cur cs r = (case r of
       (Inr u, d) \<Rightarrow> (Inr u, d)
     | (Inl e, d) \<Rightarrow> if dir_at cur cs d then (Inr (), d) else (Inl e, d))"

function make_dirs :: "place \<Rightarrow> string list \<Rightarrow> Disk \<Rightarrow> (io_error + unit) \<times> Disk" where
  "make_dirs cur cs d =
     (if cs = [] then (Inr (), d)
      else (case make_dir cur cs d of
          (Inl ENOENT, d) \<Rightarrow> (case make_dirs cur (butlast cs) d of
              (Inl e, d) \<Rightarrow> (Inl e, d)
            | (Inr _, d) \<Rightarrow> unless_dir cur cs (make_dir cur cs d))
        | r \<Rightarrow> unless_dir cur cs r))"
  by pat_completeness auto

termination
  by (relation "measure (\<lambda>(_, cs, _). length cs)") auto

declare make_dirs.simps [simp del]

definition create_dir_all :: "string \<Rightarrow> Disk \<Rightarrow> (io_error + unit) \<times> Disk" where
  "create_dir_all path d = make_dirs (start (working_dir d) path) (steps path) d"

section \<open>Walking\<close>

text \<open>A disk is a tree: the root is a directory, and whatever exists lies in a directory.\<close>

definition tree :: "(place \<Rightarrow> node option) \<Rightarrow> bool" where
  "tree ns \<longleftrightarrow> ns [] = Some Dir \<and> (\<forall>p c. ns (p @ [c]) \<noteq> None \<longrightarrow> ns p = Some Dir)"

lemma tree_butlast: "tree ns \<Longrightarrow> ns p \<noteq> None \<Longrightarrow> ns (butlast p) = Some Dir"
  by (cases p rule: rev_cases) (auto simp: tree_def)

lemma tree_no_child: "tree ns \<Longrightarrow> ns p \<noteq> Some Dir \<Longrightarrow> ns (p @ [c]) = None"
  by (metis tree_def)

lemma walk_append:
  assumes "walk k True ns cur xs = Inr (k', p)" and "ns p = Some Dir" and "ys \<noteq> []"
  shows "walk k follow ns cur (xs @ ys) = walk k' follow ns p ys"
  using assms
proof (induction k True ns cur xs rule: walk.induct)
  case (2 k ns cur c cs)
  show ?case
  proof (cases "c = ''..''")
    case True with 2 show ?thesis by simp
  next
    case False
    with 2 show ?thesis by (auto split: option.splits node.splits nat.splits if_splits)
  qed
qed simp

text \<open>What does not touch a directory or a link the walk needs leaves it as it was; so does what
  is written at its end.\<close>

lemma walk_same_dirs:
  assumes "walk k True ns cur cs = Inr (k', p)" and "ns p = Some Dir"
    and "\<And>q. ns q = Some Dir \<Longrightarrow> ns' q = Some Dir"
    and "\<And>q t. ns q = Some (Link t) \<Longrightarrow> ns' q = Some (Link t)"
  shows "walk k True ns' cur cs = Inr (k', p)"
  using assms
proof (induction k True ns cur cs rule: walk.induct)
  case (2 k ns cur c cs)
  show ?case
  proof (cases "c = ''..''")
    case False
    with 2 show ?thesis by (auto split: option.splits node.splits nat.splits if_splits)
  qed (use 2 in simp)
qed simp

lemma walk_update:
  assumes "walk k follow ns cur cs = Inr (k', p)" and "\<forall>t. ns p \<noteq> Some (Link t)"
    and "ns p = Some Dir \<longrightarrow> n = Dir" and "\<forall>t. n \<noteq> Link t"
  shows "walk k follow (ns(p \<mapsto> n)) cur cs = Inr (k', p)"
  using assms
proof (induction k follow ns cur cs rule: walk.induct)
  case (2 k follow ns cur c cs)
  show ?case
  proof (cases "c = ''..''")
    case False
    with 2 show ?thesis by (cases n) (auto split: option.splits node.splits nat.splits if_splits)
  qed (use 2 in simp)
qed simp

lemma walk_place:
  assumes "walk k follow ns cur cs = Inr (k', p)" and "tree ns" and "ns cur = Some Dir"
  shows "ns (butlast p) = Some Dir" and "ns p = None \<Longrightarrow> p \<noteq> []"
    and "follow \<Longrightarrow> ns p \<noteq> Some (Link t)"
proof -
  have "ns (butlast p) = Some Dir \<and> (ns p = None \<longrightarrow> p \<noteq> []) \<and> (follow \<longrightarrow> ns p \<noteq> Some (Link t))"
    using assms
  proof (induction k follow ns cur cs rule: walk.induct)
    case (1 k follow ns cur)
    then show ?case by (auto simp: tree_butlast)
  next
    case (2 k follow ns cur c cs)
    have up: "ns (butlast cur) = Some Dir" using 2 by (simp add: tree_butlast)
    have first: "ns (start cur u) = Some Dir" for u using 2 by (simp add: start_def tree_def)
    show ?case
    proof (cases "c = ''..''")
      case False
      with 2 first show ?thesis by (auto split: option.splits node.splits nat.splits if_splits)
    qed (use 2 up in simp)
  qed
  then show "ns (butlast p) = Some Dir" "ns p = None \<Longrightarrow> p \<noteq> []" "follow \<Longrightarrow> ns p \<noteq> Some (Link t)" by auto
qed

text \<open>Nothing but the nodes of a disk ever changes.\<close>

definition same_system :: "Disk \<Rightarrow> Disk \<Rightarrow> bool" where
  "same_system d d' \<longleftrightarrow> d' = d\<lparr>nodes := nodes d'\<rparr>"

lemma same_system_refl [simp]: "same_system d d"
  by (simp add: same_system_def)

lemma same_system_trans [trans]: "same_system a b \<Longrightarrow> same_system b c \<Longrightarrow> same_system a c"
  unfolding same_system_def by (metis Disk.update_convs(1) Disk.surjective Disk.select_convs(1))

lemma same_system_eq:
  assumes "same_system d d'"
  shows "working_dir d' = working_dir d" "may_read d' = may_read d" "may_write d' = may_write d"
    "fits d' = fits d" "os_text d' = os_text d"
  using assms by (metis Disk.surjective Disk.update_convs(1) Disk.select_convs same_system_def)+

lemma set_node_simps [simp]:
  "nodes (set_node p n d) = (nodes d)(p := n)" "working_dir (set_node p n d) = working_dir d"
  "same_system d (set_node p n d)"
  by (simp_all add: set_node_def same_system_def)

lemma tree_set:
  assumes "tree ns" and "p \<noteq> []" and "ns (butlast p) = Some Dir" and "n = Some Dir \<or> ns p \<noteq> Some Dir"
  shows "tree (ns(p := n))"
  using assms by (auto simp: tree_def)

section \<open>A directory and its entries\<close>

text \<open>The path leads to a directory, at that place.\<close>

definition opens :: "Disk \<Rightarrow> string \<Rightarrow> place \<Rightarrow> bool" where
  "opens d dir p \<longleftrightarrow> dir \<noteq> [] \<and> nodes d p = Some Dir \<and>
     (\<exists>k. walk MAX_LINKS True (nodes d) (start (working_dir d) dir) (steps dir) = Inr (k, p))"

definition entry_name :: "string \<Rightarrow> bool" where
  "entry_name n \<longleftrightarrow> n \<noteq> [] \<and> n \<noteq> ''.'' \<and> n \<noteq> ''..'' \<and> CHR ''/'' \<notin> set n"

lemma pieces_cons:
  "pieces sep (c # s) = (if c = sep then [] # pieces sep s else (c # hd (pieces sep s)) # tl (pieces sep s))"
  by (auto simp: pieces_def split: prod.splits)

lemma pieces_nonempty [simp]: "pieces sep s \<noteq> []"
  by (auto simp: pieces_def split: prod.splits)

lemma pieces_append: "pieces sep (p @ sep # q) = pieces sep p @ pieces sep q"
proof (induction p)
  case Nil
  then show ?case by (simp add: pieces_cons) (simp add: pieces_def)
next
  case (Cons c p)
  then show ?case by (simp add: pieces_cons)
qed

lemma pieces_none: "sep \<notin> set s \<Longrightarrow> pieces sep s = [s]"
  by (induction s) (auto simp: pieces_cons, simp add: pieces_def)

lemma pieces_entry: "entry_name n \<Longrightarrow> pieces (CHR ''/'') n = [n]"
  by (simp add: entry_name_def pieces_none)

lemma steps_join:
  assumes "entry_name n"
  shows "steps (path_join p n) = steps p @ [n]"
proof (cases "p = [] \<or> last p = CHR ''/''")
  case False
  then show ?thesis
    using assms by (simp add: path_join_def steps_def pieces_append pieces_entry) (simp add: entry_name_def)
next
  case True
  then consider "p = []" | q where "p = q @ ''/''" by (metis append_butlast_last_id)
  then show ?thesis
  proof cases
    case 1
    then show ?thesis using assms
      by (simp add: path_join_def steps_def pieces_entry) (simp add: entry_name_def pieces_def)
  next
    case 2
    then show ?thesis using assms pieces_append [of "CHR ''/''" q "[]"]
      by (simp add: path_join_def steps_def pieces_append pieces_entry) (simp add: entry_name_def pieces_def)
  qed
qed

lemma join_app: "path_join p n @ s = path_join p (n @ s)"
  by (simp add: path_join_def)

lemma join_nonempty [simp]: "n \<noteq> [] \<Longrightarrow> path_join p n \<noteq> []"
  by (simp add: path_join_def)

lemma start_join: "p \<noteq> [] \<Longrightarrow> start cur (path_join p n) = start cur p"
  by (cases p) (auto simp: start_def path_join_def starts_with_def)

lemma opens_same:
  assumes "opens d dir p" and "same_system d d'"
    and "\<And>q. nodes d q = Some Dir \<Longrightarrow> nodes d' q = Some Dir"
    and "\<And>q t. nodes d q = Some (Link t) \<Longrightarrow> nodes d' q = Some (Link t)"
  shows "opens d' dir p"
  using assms(1) walk_same_dirs [OF _ _ assms(3,4)] assms(3)
  by (auto simp: opens_def same_system_eq [OF assms(2)])

lemma walk_entry:
  assumes "opens d dir p" and "entry_name n" and "follow \<Longrightarrow> \<forall>t. nodes d (p @ [n]) \<noteq> Some (Link t)"
  shows "\<exists>k. walk MAX_LINKS follow (nodes d) (start (working_dir d) (path_join dir n)) (steps (path_join dir n)) = Inr (k, p @ [n])"
proof -
  from assms(1) obtain k where "walk MAX_LINKS True (nodes d) (start (working_dir d) dir) (steps dir) = Inr (k, p)"
    and "nodes d p = Some Dir" and "dir \<noteq> []" by (auto simp: opens_def)
  then have "walk MAX_LINKS follow (nodes d) (start (working_dir d) (path_join dir n)) (steps (path_join dir n)) =
      walk k follow (nodes d) p [n]"
    using assms(2) by (simp add: steps_join start_join walk_append)
  also have "\<dots> = Inr (k, p @ [n])"
    using assms(2,3) by (auto simp: entry_name_def split: option.splits node.splits)
  finally show ?thesis by blast
qed

lemma place_entry:
  assumes "opens d dir p" and "entry_name n" and "follow \<Longrightarrow> \<forall>t. nodes d (p @ [n]) \<noteq> Some (Link t)"
  shows "place_of d follow (path_join dir n) = Inr (p @ [n])"
proof -
  obtain k where "walk MAX_LINKS follow (nodes d) (start (working_dir d) (path_join dir n)) (steps (path_join dir n)) = Inr (k, p @ [n])"
    using walk_entry [OF assms] by blast
  then show ?thesis using assms(2) by (simp add: place_of_def entry_name_def)
qed

lemma opens_entry:
  assumes "opens d dir p" and "entry_name n" and "nodes d (p @ [n]) = Some Dir"
  shows "opens d (path_join dir n) (p @ [n])"
  using walk_entry [OF assms(1,2), of True] assms(2,3) by (simp add: opens_def entry_name_def)

text \<open>What writing, removing and making a directory do to an entry.\<close>

lemma write_entry:
  assumes "place_of d True path = Inr p" and "write_text path body d = (r, d')"
  shows "d' = d \<and> (\<exists>e. r = Inl e) \<or>
    (\<exists>b. d' = set_node p (Some (File b)) d \<and> nodes d p \<noteq> Some Dir \<and> (\<forall>t. nodes d p \<noteq> Some (Link t)) \<and>
       (r = Inr () \<longrightarrow> b = body))"
  using assms by (auto simp: write_text_def split: option.splits node.splits if_splits)

lemma remove_entry:
  assumes "place_of d False path = Inr p" and "remove_file path d = (r, d')"
  shows "d' = d \<and> (\<exists>e. r = Inl e) \<or> d' = set_node p None d \<and> nodes d p \<noteq> Some Dir \<and> r = Inr ()"
  using assms by (auto simp: remove_file_def split: option.splits node.splits if_splits)

lemma create_entry:
  assumes "opens d dir p" and "entry_name n" and link: "\<forall>t. nodes d (p @ [n]) \<noteq> Some (Link t)"
    and "create_dir_all (path_join dir n) d = (r, d')"
  shows "d' = d \<and> (\<exists>e. r = Inl e) \<or> d' = d \<and> nodes d (p @ [n]) = Some Dir \<or>
    d' = set_node (p @ [n]) (Some Dir) d \<and> nodes d (p @ [n]) = None"
proof -
  let ?cur = "start (working_dir d) (path_join dir n)" and ?cs = "steps (path_join dir n)"
  obtain k k' where nofollow: "walk MAX_LINKS False (nodes d) ?cur ?cs = Inr (k, p @ [n])"
    and follow: "walk MAX_LINKS True (nodes d) ?cur ?cs = Inr (k', p @ [n])"
    using walk_entry [OF assms(1,2), of False] walk_entry [OF assms(1,2), of True] link by auto
  have "?cs \<noteq> []" using assms(2) by (simp add: steps_join)
  then have "(r, d') = unless_dir ?cur ?cs (make_dir ?cur ?cs d)"
    using assms(4) nofollow
    by (subst (asm) create_dir_all_def, subst (asm) make_dirs.simps) (auto simp: make_dir_def split: option.splits if_splits)
  then show ?thesis
    using nofollow follow by (auto simp: make_dir_def unless_dir_def dir_at_def split: option.splits if_splits)
qed

end
