(* ===== verification/Skill.thy ===== *)
theory Skill
  imports Files Poll
begin

text \<open>
  \<open>bins/cbc/src/skill.rs\<close>: the installer of the bundled skills. It must not write through a symbolic link
  that another tool has put where a skill goes. An error is the chain of its contexts, the outermost
  first, ending with what the system said; the texts of the bundled files are an argument.
\<close>

section \<open>Errors with a context\<close>

type_synonym failure = "string list"

definition because :: "Disk \<Rightarrow> string \<Rightarrow> io_error + 'a \<Rightarrow> failure + 'a" where
  "because d ctx r = (case r of Inl e \<Rightarrow> Inl [ctx, os_text d e] | Inr a \<Rightarrow> Inr a)"

text \<open>An operation on the disk, with its context; and the next one after it.\<close>

definition because_of :: "string \<Rightarrow> (io_error + 'a) \<times> Disk \<Rightarrow> (failure + 'a) \<times> Disk" where
  "because_of ctx r = (because (snd r) ctx (fst r), snd r)"

definition then_do :: "(failure + 'a) \<times> Disk \<Rightarrow> ('a \<Rightarrow> Disk \<Rightarrow> (failure + 'b) \<times> Disk) \<Rightarrow> (failure + 'b) \<times> Disk" where
  "then_do r f = (case r of (Inl e, d) \<Rightarrow> (Inl e, d) | (Inr a, d) \<Rightarrow> f a d)"

definition in_context :: "string \<Rightarrow> (failure + 'a) \<times> Disk \<Rightarrow> (failure + 'a) \<times> Disk" where
  "in_context ctx r = (case r of (Inl e, d) \<Rightarrow> (Inl (ctx # e), d) | (Inr a, d) \<Rightarrow> (Inr a, d))"

section \<open>The bundled skills\<close>

record BundledSkill =
  sk_name :: string
  sk_body :: string

definition BUNDLED_NAMES :: "string list" where
  "BUNDLED_NAMES = [''cbc'', ''cbc-orchestrator'', ''cbc-worker'', ''cbc-peer'', ''cbc-recap'', ''cbc-reconcile'',
     ''cbc-refresh'', ''cbc-checkup'', ''cbc-clean'']"

definition BUNDLED_SKILLS :: "(string \<Rightarrow> string) \<Rightarrow> BundledSkill list" where
  "BUNDLED_SKILLS bundled = map (\<lambda>n. \<lparr>sk_name = n, sk_body = bundled n\<rparr>) BUNDLED_NAMES"

datatype SkillOutcome = Created | Updated | AlreadyPresent | SkippedSymlink string | ReplacedSymlink

datatype TargetState = Absent | Symlink string string | RealDir bool

definition skills_dir :: "string option \<Rightarrow> failure + string" where
  "skills_dir home = (case home of
       None \<Rightarrow> Inl [''HOME not set; cannot locate Claude Code skills'']
     | Some h \<Rightarrow> Inr (path_join (path_join h ''.claude'') ''skills''))"

section \<open>Installing\<close>

definition link_text :: "Disk \<Rightarrow> string \<Rightarrow> string" where
  "link_text d path = (case read_link d path of Inr t \<Rightarrow> t | Inl _ \<Rightarrow> ''?'')"

definition classify :: "Disk \<Rightarrow> string \<Rightarrow> string \<Rightarrow> failure + TargetState" where
  "classify d skill_dir body =
     (case symlink_metadata d skill_dir of
        Inl ENOENT \<Rightarrow> Inr Absent
      | Inl e \<Rightarrow> Inl [''inspecting '' @ skill_dir, os_text d e]
      | Inr (Link _) \<Rightarrow> Inr (Symlink skill_dir (link_text d skill_dir))
      | Inr _ \<Rightarrow>
          (let skill_file = path_join skill_dir ''SKILL.md''
           in case symlink_metadata d skill_file of
                Inr (Link _) \<Rightarrow> Inr (Symlink skill_file (link_text d skill_file))
              | _ \<Rightarrow> Inr (RealDir (case read_file d skill_file of Inr bytes \<Rightarrow> bytes = body | Inl _ \<Rightarrow> False))))"

definition write_skill :: "string \<Rightarrow> string \<Rightarrow> string \<Rightarrow> Disk \<Rightarrow> (failure + unit) \<times> Disk" where
  "write_skill skill_dir skill_file body d =
     then_do (because_of (''creating '' @ skill_dir) (create_dir_all skill_dir d))
       (\<lambda>_ d. because_of (''writing '' @ skill_file) (write_text skill_file body d))"

definition back_up :: "string \<Rightarrow> Disk \<Rightarrow> (failure + unit) \<times> Disk" where
  "back_up skill_file d =
     (if path_exists d skill_file
      then (let backup = skill_file @ ''.bak''
            in then_do (because d (''reading '' @ skill_file) (read_file d skill_file), d)
                 (\<lambda>original d. because_of (''backing up to '' @ backup) (write_text backup original d)))
      else (Inr (), d))"

definition install_one :: "string \<Rightarrow> BundledSkill \<Rightarrow> bool \<Rightarrow> Disk \<Rightarrow> (failure + SkillOutcome) \<times> Disk" where
  "install_one dir skill force d =
     (let skill_dir = path_join dir (sk_name skill);
          skill_file = path_join skill_dir ''SKILL.md''
      in case classify d skill_dir (sk_body skill) of
           Inl e \<Rightarrow> (Inl e, d)
         | Inr Absent \<Rightarrow>
             then_do (write_skill skill_dir skill_file (sk_body skill) d) (\<lambda>_ d. (Inr Created, d))
         | Inr (RealDir True) \<Rightarrow> (Inr AlreadyPresent, d)
         | Inr (RealDir False) \<Rightarrow>
             then_do (back_up skill_file d) (\<lambda>_ d.
               then_do (write_skill skill_dir skill_file (sk_body skill) d) (\<lambda>_ d. (Inr Updated, d)))
         | Inr (Symlink link target) \<Rightarrow>
             if \<not> force then (Inr (SkippedSymlink target), d)
             else then_do (because_of (''removing the symlink at '' @ link) (remove_file link d)) (\<lambda>_ d.
               then_do (write_skill skill_dir skill_file (sk_body skill) d) (\<lambda>_ d. (Inr ReplacedSymlink, d))))"

fun install_each :: "string \<Rightarrow> bool \<Rightarrow> BundledSkill list \<Rightarrow> Disk \<Rightarrow> (failure + (string \<times> SkillOutcome) list) \<times> Disk" where
  "install_each dir force [] d = (Inr [], d)"
| "install_each dir force (skill # skills) d =
     then_do (in_context (''installing the '' @ sk_name skill @ '' skill'') (install_one dir skill force d)) (\<lambda>out d.
       then_do (install_each dir force skills d) (\<lambda>outs d. (Inr ((sk_name skill, out) # outs), d)))"

definition install_all :: "(string \<Rightarrow> string) \<Rightarrow> string \<Rightarrow> bool \<Rightarrow> Disk \<Rightarrow> (failure + (string \<times> SkillOutcome) list) \<times> Disk" where
  "install_all bundled dir force d = install_each dir force (BUNDLED_SKILLS bundled) d"

section \<open>Reporting\<close>

definition print_outcome :: "string \<Rightarrow> string \<Rightarrow> SkillOutcome \<Rightarrow> Effect list" where
  "print_outcome dir name out =
     (let skill_dir = path_join dir name;
          file = path_join skill_dir ''SKILL.md'';
          fresh = println ''Start a fresh Claude Code session to pick it up.''
      in case out of
           Created \<Rightarrow>
             [println (''Installed the '' @ name @ '' skill for Claude Code:'' @ [newline] @ ''  '' @ file), fresh]
         | Updated \<Rightarrow>
             [println (''Updated the '' @ name @ '' skill:'' @ [newline] @ ''  '' @ file),
              println (''(backed up the previous file to '' @ file @ ''.bak)''), fresh]
         | AlreadyPresent \<Rightarrow>
             [println (''The '' @ name @ '' skill at '' @ file @ '' is already up to date; nothing to do.'')]
         | SkippedSymlink target \<Rightarrow>
             [println (''A devkit-managed '' @ name @ '' skill is already installed (left in place):'' @ [newline] @
                ''  '' @ skill_dir @ '' -> '' @ target),
              println ''It is a symlink; pass --force to replace it with cbc's bundled copy.'']
         | ReplacedSymlink \<Rightarrow>
             [println (''Replaced the devkit '' @ name @ '' symlink with cbc's bundled skill copy:'' @ [newline] @
                ''  '' @ file), fresh])"

definition print_outcomes :: "string \<Rightarrow> (string \<times> SkillOutcome) list \<Rightarrow> Effect list" where
  "print_outcomes dir outs = concat (map (\<lambda>(name, out). print_outcome dir name out) outs)"

end
