(* ===== verification/SkillSpec.thy ===== *)
theory SkillSpec
  imports Skill
begin

text \<open>
  What the skill installer promises: it changes nothing outside the directory of the skill it installs,
  whatever it reports is what happened, and a second run finds nothing to do.
\<close>

section \<open>The places of a skill\<close>

definition skill_file_at :: "place \<Rightarrow> place" where
  "skill_file_at sd = sd @ [''SKILL.md'']"

definition backup_at :: "place \<Rightarrow> place" where
  "backup_at sd = sd @ [''SKILL.md.bak'']"

lemma places_differ [simp]:
  "skill_file_at sd \<noteq> sd" "backup_at sd \<noteq> sd" "skill_file_at sd \<noteq> backup_at sd"
  "sd \<noteq> skill_file_at sd" "sd \<noteq> backup_at sd" "backup_at sd \<noteq> skill_file_at sd"
  by (simp_all add: skill_file_at_def backup_at_def)

lemma butlast_skill_file: "butlast (skill_file_at sd) = sd" "skill_file_at sd \<noteq> []"
  by (simp_all add: skill_file_at_def)

lemma entry_names [simp]: "entry_name ''SKILL.md''" "entry_name ''SKILL.md.bak''"
  by (simp_all add: entry_name_def)

definition is_link :: "Disk \<Rightarrow> place \<Rightarrow> bool" where
  "is_link d p \<longleftrightarrow> (case nodes d p of Some (Link _) \<Rightarrow> True | _ \<Rightarrow> False)"

lemma not_is_link: "\<not> is_link d p \<longleftrightarrow> (\<forall>t. nodes d p \<noteq> Some (Link t))"
  by (auto simp: is_link_def split: option.splits node.splits)

text \<open>The path of the skills directory leads to a directory, and its way does not go through the skill.\<close>

definition reached :: "Disk \<Rightarrow> string \<Rightarrow> place \<Rightarrow> string \<Rightarrow> bool" where
  "reached d dir home name \<longleftrightarrow> opens d dir home \<and>
     (\<forall>p n. take (length home + 1) p = home @ [name] \<longrightarrow> opens (set_node p n d) dir home)"

lemma reachedD: "reached d dir home name \<Longrightarrow> opens d dir home"
  "reached d dir home name \<Longrightarrow> opens (set_node (home @ [name]) n d) dir home"
  "reached d dir home name \<Longrightarrow> opens (set_node (skill_file_at (home @ [name])) n d) dir home"
  by (simp_all add: reached_def skill_file_at_def)

section \<open>Writing\<close>

text \<open>A file in an open directory, at a name that is no link.\<close>

definition untouched :: "place set \<Rightarrow> Disk \<Rightarrow> Disk \<Rightarrow> bool" where
  "untouched ps d d' \<longleftrightarrow> (\<forall>q. q \<notin> ps \<longrightarrow> nodes d' q = nodes d q) \<and> same_system d d'"

lemma untouched_refl [simp]: "untouched ps d d"
  by (simp add: untouched_def)

lemma untouched_trans: "untouched ps a b \<Longrightarrow> untouched qs b c \<Longrightarrow> ps \<union> qs \<subseteq> rs \<Longrightarrow> untouched rs a c"
  unfolding untouched_def by (metis Un_iff same_system_trans subsetD)

lemma untouched_mono: "untouched ps a b \<Longrightarrow> ps \<subseteq> rs \<Longrightarrow> untouched rs a b"
  by (auto simp: untouched_def)

lemma untouched_set [simp]: "p \<in> ps \<Longrightarrow> untouched ps d (set_node p n d)"
  by (auto simp: untouched_def)

lemma write_effect:
  assumes "opens d dir p" and "entry_name n" and "tree (nodes d)" and "\<not> is_link d (p @ [n])"
    and w: "write_text (path_join dir n) body d = (r, d')"
  shows "untouched {p @ [n]} d d'" and "tree (nodes d')" and "opens d dir' p' \<Longrightarrow> opens d' dir' p'"
    and "\<not> is_link d' (p @ [n])" and "r = Inr () \<Longrightarrow> nodes d' (p @ [n]) = Some (File body)"
proof -
  have link: "\<forall>t. nodes d (p @ [n]) \<noteq> Some (Link t)" using assms(4) by (simp add: not_is_link)
  have place: "place_of d True (path_join dir n) = Inr (p @ [n])"
    using place_entry [OF assms(1,2)] link by blast
  have dir: "nodes d p = Some Dir" using assms(1) by (simp add: opens_def)
  have e: "d' = d \<and> r \<noteq> Inr () \<or> (\<exists>b. d' = set_node (p @ [n]) (Some (File b)) d \<and>
      nodes d (p @ [n]) \<noteq> Some Dir \<and> (r = Inr () \<longrightarrow> b = body))"
    using write_entry [OF place w] by auto
  show "untouched {p @ [n]} d d'" using e by auto
  then have same: "same_system d d'" by (simp add: untouched_def)
  show "tree (nodes d')" using e dir assms(3) by (auto intro!: tree_set)
  show "opens d' dir' p'" if "opens d dir' p'"
    using e link by (intro opens_same [OF that same]) auto
  show "\<not> is_link d' (p @ [n])" using e assms(4) by (auto simp: is_link_def)
  show "r = Inr () \<Longrightarrow> nodes d' (p @ [n]) = Some (File body)" using e by auto
qed

lemma create_effect:
  assumes "opens d dir p" and "entry_name n" and "tree (nodes d)" and "\<not> is_link d (p @ [n])"
    and c: "create_dir_all (path_join dir n) d = (r, d')"
  shows "untouched {p @ [n]} d d'" and "tree (nodes d')" and "opens d dir' p' \<Longrightarrow> opens d' dir' p'"
    and "\<not> is_link d' (p @ [n])" and "r = Inr () \<Longrightarrow> nodes d' (p @ [n]) = Some Dir"
    and "r = Inr () \<Longrightarrow> nodes d (p @ [n]) = None \<or> nodes d (p @ [n]) = Some Dir"
proof -
  have link: "\<forall>t. nodes d (p @ [n]) \<noteq> Some (Link t)" using assms(4) by (simp add: not_is_link)
  have dir: "nodes d p = Some Dir" using assms(1) by (simp add: opens_def)
  have e: "d' = d \<and> r \<noteq> Inr () \<or> d' = d \<and> nodes d (p @ [n]) = Some Dir \<or>
      d' = set_node (p @ [n]) (Some Dir) d \<and> nodes d (p @ [n]) = None"
    using create_entry [OF assms(1,2) link c] by auto
  show "untouched {p @ [n]} d d'" using e by auto
  then have same: "same_system d d'" by (simp add: untouched_def)
  show "tree (nodes d')" using e dir assms(3) by (auto intro!: tree_set)
  show "opens d' dir' p'" if "opens d dir' p'"
    using e by (intro opens_same [OF that same]) auto
  show "\<not> is_link d' (p @ [n])" using e assms(4) by (auto simp: is_link_def)
  show "r = Inr () \<Longrightarrow> nodes d' (p @ [n]) = Some Dir" using e by auto
  show "r = Inr () \<Longrightarrow> nodes d (p @ [n]) = None \<or> nodes d (p @ [n]) = Some Dir" using e by auto
qed

definition installed :: "Disk \<Rightarrow> place \<Rightarrow> string \<Rightarrow> bool" where
  "installed d sd body \<longleftrightarrow> nodes d sd = Some Dir \<and> nodes d (skill_file_at sd) = Some (File body)"

text \<open>Into a directory that is no link, to a file that is none.\<close>

lemma write_skill_effect:
  fixes home name
  defines "sd \<equiv> home @ [name]"
  assumes opens: "opens d dir home" and name: "entry_name name" and tree: "tree (nodes d)"
    and "\<not> is_link d sd" and "\<not> is_link d (skill_file_at sd)"
    and w: "write_skill (path_join dir name) (path_join (path_join dir name) ''SKILL.md'') body d = (r, d')"
  shows "untouched {sd, skill_file_at sd} d d' \<and> tree (nodes d') \<and> opens d' dir home \<and>
    (r = Inr () \<longrightarrow> (nodes d sd = None \<or> nodes d sd = Some Dir) \<and> installed d' sd body)"
proof -
  obtain c d1 where c: "create_dir_all (path_join dir name) d = (c, d1)" by (cases "create_dir_all (path_join dir name) d")
  note made = create_effect [OF opens name tree assms(5) [unfolded sd_def] c]
  have opens1: "opens d1 dir home" by (rule made(3) [OF opens])
  show ?thesis
  proof (cases c)
    case (Inl e)
    then have "d' = d1 \<and> r \<noteq> Inr ()"
      using w c by (auto simp: write_skill_def because_of_def because_def then_do_def)
    then show ?thesis using made(1,2) opens1 untouched_mono [OF made(1)] by (auto simp: sd_def)
  next
    case (Inr u)
    then have dir1: "nodes d1 sd = Some Dir" using made(5) by (simp add: sd_def)
    have inner: "opens d1 (path_join dir name) sd" using opens_entry [OF opens1 name] dir1 by (simp add: sd_def)
    have link1: "\<not> is_link d1 (sd @ [''SKILL.md''])"
      using assms(6) made(1) by (simp add: is_link_def untouched_def skill_file_at_def sd_def)
    obtain r2 where r2: "write_text (path_join (path_join dir name) ''SKILL.md'') body d1 = (r2, d')" "r = Inr () \<longleftrightarrow> r2 = Inr ()"
      using w c Inr
      by (cases "write_text (path_join (path_join dir name) ''SKILL.md'') body d1")
         (auto simp: write_skill_def because_of_def because_def then_do_def split: sum.splits)
    note written = write_effect [OF inner entry_names(1) made(2) link1 r2(1), folded skill_file_at_def]
    have "untouched {sd, skill_file_at sd} d d'"
      using untouched_trans [OF made(1) written(1)] by (simp add: sd_def)
    moreover have "nodes d' sd = Some Dir" using written(1) dir1 by (simp add: untouched_def)
    ultimately show ?thesis using written(2,5) written(3) [OF opens1] r2(2) made(6) Inr
      by (auto simp: installed_def sd_def)
  qed
qed

text \<open>The copy of the old file, which a link at the backup's name would send elsewhere.\<close>

lemma back_up_effect:
  fixes home name
  defines "sd \<equiv> home @ [name]"
  assumes opens: "opens d dir home" and name: "entry_name name" and tree: "tree (nodes d)"
    and dir: "nodes d sd = Some Dir" and no_link: "\<not> is_link d (skill_file_at sd)"
    and no_bak: "\<not> is_link d (backup_at sd)"
    and b: "back_up (path_join (path_join dir name) ''SKILL.md'') d = (r, d')"
  shows "untouched {backup_at sd} d d' \<and> tree (nodes d') \<and> opens d' dir home \<and>
    (r = Inr () \<longrightarrow> (\<forall>old. nodes d (skill_file_at sd) = Some (File old) \<longrightarrow>
       may_read d (skill_file_at sd) \<and> nodes d' (backup_at sd) = Some (File old)))"
proof -
  let ?file = "path_join (path_join dir name) ''SKILL.md''"
  have inner: "opens d (path_join dir name) sd" using opens_entry [OF opens name] dir by (simp add: sd_def)
  have at: "place_of d True ?file = Inr (skill_file_at sd)"
    using place_entry [OF inner entry_names(1)] no_link by (simp add: skill_file_at_def not_is_link)
  show ?thesis
  proof (cases "nodes d (skill_file_at sd)")
    case None
    then show ?thesis using b at opens tree by (auto simp: back_up_def path_exists_def look_def)
  next
    case (Some n)
    show ?thesis
    proof (cases "read_file d ?file")
      case (Inl e)
      then have "d' = d \<and> r \<noteq> Inr ()"
        using b at Some by (auto simp: back_up_def path_exists_def look_def because_def then_do_def)
      then show ?thesis using opens tree by simp
    next
      case (Inr old)
      then have n: "n = File old" "may_read d (skill_file_at sd)" using at Some by (auto simp: read_file_def split: node.splits if_splits)
      obtain r2 where r2: "write_text (path_join (path_join dir name) ''SKILL.md.bak'') old d = (r2, d')" "r = Inr () \<longleftrightarrow> r2 = Inr ()"
        using b at Some Inr
        by (cases "write_text (path_join (path_join dir name) ''SKILL.md.bak'') old d")
           (auto simp: back_up_def path_exists_def look_def because_of_def because_def then_do_def join_app Let_def
             split: sum.splits)
      note written = write_effect [OF inner entry_names(2) tree no_bak [unfolded backup_at_def] r2(1), folded backup_at_def]
      then show ?thesis using written(3) [OF opens] r2(2) Some n by auto
    qed
  qed
qed

section \<open>Installing one skill\<close>

lemma walk_beyond_file:
  assumes "opens d dir p" and "entry_name n" and "nodes d (p @ [n]) = Some (File b)" and "entry_name m"
  shows "place_of d follow (path_join (path_join dir n) m) = Inl ENOTDIR"
proof -
  from assms(1) obtain k where "walk MAX_LINKS True (nodes d) (start (working_dir d) dir) (steps dir) = Inr (k, p)"
    and "nodes d p = Some Dir" and "dir \<noteq> []" by (auto simp: opens_def)
  moreover have "walk k follow (nodes d) p [n, m] = Inl ENOTDIR"
    using assms(2,3) by (simp add: entry_name_def)
  moreover have "n \<noteq> []" "m \<noteq> []" using assms(2,4) by (simp_all add: entry_name_def)
  ultimately show ?thesis
    using assms(2,4) by (simp add: place_of_def steps_join start_join walk_append)
qed

lemma classify_at:
  fixes home name
  defines "sd \<equiv> home @ [name]"
  assumes opens: "opens d dir home" and name: "entry_name name"
  shows "classify d (path_join dir name) body = (case nodes d sd of
       None \<Rightarrow> Inr Absent
     | Some (Link t) \<Rightarrow> Inr (Symlink (path_join dir name) t)
     | Some (File _) \<Rightarrow> Inr (RealDir False)
     | Some Dir \<Rightarrow> (case nodes d (skill_file_at sd) of
           Some (Link t) \<Rightarrow> Inr (Symlink (path_join (path_join dir name) ''SKILL.md'') t)
         | Some (File b) \<Rightarrow> Inr (RealDir (may_read d (skill_file_at sd) \<and> b = body))
         | _ \<Rightarrow> Inr (RealDir False)))"
proof -
  have outer: "place_of d False (path_join dir name) = Inr sd"
    unfolding sd_def by (rule place_entry [OF opens name]) simp
  have inner: "place_of d follow (path_join (path_join dir name) ''SKILL.md'') = Inr (skill_file_at sd)"
    if "nodes d sd = Some Dir" and "follow \<Longrightarrow> \<forall>t. nodes d (skill_file_at sd) \<noteq> Some (Link t)" for follow
    using place_entry [OF opens_entry [OF opens name] entry_names(1), of follow] that
    by (simp add: sd_def skill_file_at_def)
  show ?thesis
  proof (cases "nodes d sd")
    case None
    then show ?thesis using outer by (simp add: classify_def symlink_metadata_def look_def)
  next
    case (Some n)
    show ?thesis
    proof (cases n)
      case (File b)
      then show ?thesis
        using outer Some walk_beyond_file [OF opens name _ entry_names(1)]
        by (simp add: classify_def symlink_metadata_def look_def read_file_def sd_def)
    next
      case Dir
      then show ?thesis
        using outer Some inner [of False] inner [of True]
        by (auto simp: classify_def symlink_metadata_def look_def read_file_def read_link_def link_text_def
          split: option.splits node.splits)
    next
      case (Link t)
      then show ?thesis
        using outer Some by (simp add: classify_def symlink_metadata_def look_def read_link_def link_text_def)
    qed
  qed
qed

text \<open>What an outcome says about the disk before and after.\<close>

definition happened :: "place \<Rightarrow> string \<Rightarrow> bool \<Rightarrow> Disk \<Rightarrow> SkillOutcome \<Rightarrow> Disk \<Rightarrow> bool" where
  "happened sd body force d out d' =
     (case out of
        Created \<Rightarrow> nodes d sd = None \<and> installed d' sd body
      | Updated \<Rightarrow> nodes d sd = Some Dir \<and> \<not> installed d sd body \<and> installed d' sd body \<and>
          (\<forall>old. nodes d (skill_file_at sd) = Some (File old) \<longrightarrow> nodes d' (backup_at sd) = Some (File old))
      | AlreadyPresent \<Rightarrow> d' = d \<and> installed d sd body
      | SkippedSymlink t \<Rightarrow> \<not> force \<and> d' = d \<and>
          (nodes d sd = Some (Link t) \<or> nodes d sd = Some Dir \<and> nodes d (skill_file_at sd) = Some (Link t))
      | ReplacedSymlink \<Rightarrow> force \<and> (is_link d sd \<or> is_link d (skill_file_at sd)) \<and> installed d' sd body)"

lemma then_doE:
  assumes "then_do r f = (x, d')"
  obtains (failed) e where "r = (Inl e, d')" "x = Inl e" | (passed) a d1 where "r = (Inr a, d1)" "f a d1 = (x, d')"
  using assms by (cases r) (auto simp: then_do_def split: sum.splits)

lemma because_of_eq:
  assumes "because_of ctx r = (x, d')"
  shows "\<exists>y. r = (y, d') \<and> (\<forall>a. x = Inr a \<longleftrightarrow> y = Inr a)"
  using assms by (cases r) (auto simp: because_of_def because_def split: sum.splits)

text \<open>With the link out of the way, or no link from the start.\<close>

lemma written_outcome:
  fixes home name
  defines "sd \<equiv> home @ [name]"
  assumes d: "opens d dir home" "entry_name name" "tree (nodes d)" "\<not> is_link d sd" "\<not> is_link d (skill_file_at sd)"
    and w: "then_do (write_skill (path_join dir name) (path_join (path_join dir name) ''SKILL.md'') body d) (\<lambda>_ d. (Inr out, d)) = (r, d')"
  shows "untouched {sd, skill_file_at sd} d d' \<and> tree (nodes d') \<and> opens d' dir home \<and>
    (\<forall>out'. r = Inr out' \<longrightarrow> out' = out \<and> (nodes d sd = None \<or> nodes d sd = Some Dir) \<and> installed d' sd body)"
proof -
  obtain x where x: "write_skill (path_join dir name) (path_join (path_join dir name) ''SKILL.md'') body d = (x, d')"
    and r: "r = (case x of Inl e \<Rightarrow> Inl e | Inr _ \<Rightarrow> Inr out)"
    using w by (elim then_doE) auto
  show ?thesis
    using write_skill_effect [OF d(1,2,3) d(4,5) [unfolded sd_def] x] r
    by (auto simp: sd_def split: sum.splits)
qed

lemma unlinked_outcome:
  fixes home name
  defines "sd \<equiv> home @ [name]"
  assumes d: "opens d dir home" "entry_name name" "tree (nodes d)"
    and p: "is_link d p" "p = sd \<or> p = skill_file_at sd \<and> nodes d sd = Some Dir"
    and way: "opens (set_node p None d) dir home" and at: "place_of d False link = Inr p"
    and i: "then_do (because_of ctx (remove_file link d)) (\<lambda>_ d.
      then_do (write_skill (path_join dir name) (path_join (path_join dir name) ''SKILL.md'') body d) (\<lambda>_ d. (Inr out, d))) = (r, d')"
  shows "untouched {sd, skill_file_at sd, backup_at sd} d d' \<and> tree (nodes d') \<and> opens d' dir home \<and>
    (\<forall>out'. r = Inr out' \<longrightarrow> out' = out \<and> installed d' sd body)"
  using i
proof (cases rule: then_doE)
  case (failed e)
  obtain y where y: "remove_file link d = (y, d')" "y \<noteq> Inr ()"
    using because_of_eq [OF failed(1)] by auto
  have "d' = d" using remove_entry [OF at y(1)] y(2) by blast
  then show ?thesis using failed(2) d(1,3) by simp
next
  case (passed u d1)
  obtain y where y: "remove_file link d = (y, d1)" "y = Inr ()"
    using because_of_eq [OF passed(1)] by auto
  have d1: "d1 = set_node p None d" using remove_entry [OF at y(1)] y(2) by auto
  have parent: "nodes d (butlast p) = Some Dir \<and> p \<noteq> []"
    using p(2) d(1) by (auto simp: sd_def opens_def butlast_skill_file)
  have tree1: "tree (nodes d1)"
    using d1 parent p(1) by (auto simp: is_link_def intro!: tree_set [OF d(3)])
  have clear: "\<not> is_link d1 sd" "\<not> is_link d1 (skill_file_at sd)"
    using d1 p tree_no_child [OF d(3), of sd "''SKILL.md''"]
    by (auto simp: is_link_def skill_file_at_def split: option.splits node.splits)
  have first: "untouched {sd, skill_file_at sd} d d1" using d1 p(2) by auto
  have "opens d1 dir home" using way d1 by simp
  note outcome = written_outcome [OF this d(2) tree1 clear [unfolded sd_def] passed(2), folded sd_def]
  then have "untouched {sd, skill_file_at sd, backup_at sd} d d'"
    by (intro untouched_trans [OF first]) auto
  then show ?thesis using outcome by simp
qed

text \<open>A stale file, or none: the old one is kept, the new one written.\<close>

lemma refreshed_outcome:
  fixes home name
  defines "sd \<equiv> home @ [name]"
  assumes d: "opens d dir home" "entry_name name" "tree (nodes d)" "nodes d sd = Some Dir"
    "\<not> is_link d (skill_file_at sd)" "\<not> is_link d (backup_at sd)"
    and i: "then_do (back_up (path_join (path_join dir name) ''SKILL.md'') d) (\<lambda>_ d.
      then_do (write_skill (path_join dir name) (path_join (path_join dir name) ''SKILL.md'') body d) (\<lambda>_ d. (Inr Updated, d))) = (r, d')"
  shows "untouched {sd, skill_file_at sd, backup_at sd} d d' \<and> tree (nodes d') \<and> opens d' dir home \<and>
    (\<forall>out. r = Inr out \<longrightarrow> out = Updated \<and> installed d' sd body \<and>
      (\<forall>old. nodes d (skill_file_at sd) = Some (File old) \<longrightarrow>
         may_read d (skill_file_at sd) \<and> nodes d' (backup_at sd) = Some (File old)))"
  using i
proof (cases rule: then_doE)
  case (failed e)
  note back_up_effect [OF d(1-3) d(4-6) [unfolded sd_def] failed(1), folded sd_def]
  then show ?thesis using failed(2) by (auto intro: untouched_mono)
next
  case (passed u d1)
  note saved = back_up_effect [OF d(1-3) d(4-6) [unfolded sd_def] passed(1), folded sd_def]
  then have clear: "\<not> is_link d1 sd" "\<not> is_link d1 (skill_file_at sd)"
    using d(4,5) by (auto simp: untouched_def is_link_def)
  have tree1: "tree (nodes d1)" and open1: "opens d1 dir home" and "untouched {backup_at sd} d d1" using saved by auto
  note outcome = written_outcome [OF open1 d(2) tree1 clear [unfolded sd_def] passed(2), folded sd_def]
  then have "untouched {sd, skill_file_at sd, backup_at sd} d d'"
    by (intro untouched_trans [OF \<open>untouched {backup_at sd} d d1\<close>]) auto
  moreover have "nodes d' (backup_at sd) = nodes d1 (backup_at sd)"
    using outcome by (simp add: untouched_def)
  ultimately show ?thesis using outcome saved by simp
qed

lemma install_one_state:
  fixes dir skill
  defines "skill_dir \<equiv> path_join dir (sk_name skill)" and "body \<equiv> sk_body skill"
  shows "classify d skill_dir body = Inr Absent \<Longrightarrow> install_one dir skill force d =
      then_do (write_skill skill_dir (path_join skill_dir ''SKILL.md'') body d) (\<lambda>_ d. (Inr Created, d))"
    and "classify d skill_dir body = Inr (RealDir True) \<Longrightarrow> install_one dir skill force d = (Inr AlreadyPresent, d)"
    and "classify d skill_dir body = Inr (RealDir False) \<Longrightarrow> install_one dir skill force d =
      then_do (back_up (path_join skill_dir ''SKILL.md'') d) (\<lambda>_ d.
        then_do (write_skill skill_dir (path_join skill_dir ''SKILL.md'') body d) (\<lambda>_ d. (Inr Updated, d)))"
    and "classify d skill_dir body = Inr (Symlink link target) \<Longrightarrow> \<not> force \<Longrightarrow>
      install_one dir skill force d = (Inr (SkippedSymlink target), d)"
    and "classify d skill_dir body = Inr (Symlink link target) \<Longrightarrow> force \<Longrightarrow> install_one dir skill force d =
      then_do (because_of (''removing the symlink at '' @ link) (remove_file link d)) (\<lambda>_ d.
        then_do (write_skill skill_dir (path_join skill_dir ''SKILL.md'') body d) (\<lambda>_ d. (Inr ReplacedSymlink, d)))"
  by (simp_all add: install_one_def Let_def skill_dir_def body_def)

text \<open>What one installation leaves behind, by the state it found.\<close>

definition install_effect :: "string \<Rightarrow> place \<Rightarrow> BundledSkill \<Rightarrow> bool \<Rightarrow> Disk \<Rightarrow> failure + SkillOutcome \<Rightarrow> Disk \<Rightarrow> bool" where
  "install_effect dir home skill force d r d' =
     (let sd = home @ [sk_name skill]
      in untouched {sd, skill_file_at sd, backup_at sd} d d' \<and> tree (nodes d') \<and> opens d' dir home \<and>
         (\<forall>out. r = Inr out \<longrightarrow> happened sd (sk_body skill) force d out d'))"

lemma nothing_effect:
  assumes "opens d dir home" and "tree (nodes d)" and "happened (home @ [sk_name skill]) (sk_body skill) force d out d"
  shows "install_effect dir home skill force d (Inr out) d"
  using assms by (simp add: install_effect_def Let_def)

lemma absent_effect:
  assumes open_d: "opens d dir home" and name: "entry_name (sk_name skill)" and tree: "tree (nodes d)"
    and none: "nodes d (home @ [sk_name skill]) = None" and i: "install_one dir skill force d = (r, d')"
  shows "install_effect dir home skill force d r d'"
proof -
  have "nodes d (skill_file_at (home @ [sk_name skill])) = None"
    using none tree tree_no_child [OF tree, of "home @ [sk_name skill]"] by (simp add: skill_file_at_def)
  then have clear: "\<not> is_link d (home @ [sk_name skill])" "\<not> is_link d (skill_file_at (home @ [sk_name skill]))"
    using none by (simp_all add: is_link_def)
  have "classify d (path_join dir (sk_name skill)) (sk_body skill) = Inr Absent"
    using classify_at [OF open_d name] none by simp
  note written_outcome [OF open_d name tree clear i [unfolded install_one_state(1) [OF this]]]
  then show ?thesis using none by (auto simp: install_effect_def Let_def happened_def intro: untouched_mono)
qed

lemma blocked_effect:
  assumes open_d: "opens d dir home" and name: "entry_name (sk_name skill)" and tree: "tree (nodes d)"
    and here_file: "nodes d (home @ [sk_name skill]) = Some (File b)" and i: "install_one dir skill force d = (r, d')"
  shows "install_effect dir home skill force d r d'"
proof -
  have clear: "\<not> is_link d (home @ [sk_name skill])" "\<not> is_link d (skill_file_at (home @ [sk_name skill]))"
    using here_file tree_no_child [OF tree, of "home @ [sk_name skill]" "''SKILL.md''"] by (simp_all add: is_link_def skill_file_at_def)
  have "place_of d True (path_join (path_join dir (sk_name skill)) ''SKILL.md'') = Inl ENOTDIR"
    by (rule walk_beyond_file [OF open_d name here_file entry_names(1)])
  then have no_backup: "back_up (path_join (path_join dir (sk_name skill)) ''SKILL.md'') d = (Inr (), d)"
    by (simp add: back_up_def path_exists_def look_def)
  have "classify d (path_join dir (sk_name skill)) (sk_body skill) = Inr (RealDir False)"
    using classify_at [OF open_d name] here_file by simp
  from i [unfolded install_one_state(3) [OF this] no_backup]
  have "then_do (write_skill (path_join dir (sk_name skill)) (path_join (path_join dir (sk_name skill)) ''SKILL.md'')
      (sk_body skill) d) (\<lambda>_ d. (Inr Updated, d)) = (r, d')" by (simp add: then_do_def)
  note written_outcome [OF open_d name tree clear this]
  then show ?thesis using here_file by (auto simp: install_effect_def Let_def intro: untouched_mono)
qed

lemma linked_effect:
  assumes open_d: "opens d dir home" and name: "entry_name (sk_name skill)" and tree: "tree (nodes d)"
    and cl: "classify d (path_join dir (sk_name skill)) (sk_body skill) = Inr (Symlink link target)"
    and p: "nodes d p = Some (Link target)"
      "p = home @ [sk_name skill] \<or> p = skill_file_at (home @ [sk_name skill]) \<and> nodes d (home @ [sk_name skill]) = Some Dir"
    and way: "force \<Longrightarrow> opens (set_node p None d) dir home" and at: "place_of d False link = Inr p"
    and i: "install_one dir skill force d = (r, d')"
  shows "install_effect dir home skill force d r d'"
proof (cases force)
  case False
  then have "r = Inr (SkippedSymlink target)" "d' = d" using i install_one_state(4) [OF cl] by simp_all
  moreover have "happened (home @ [sk_name skill]) (sk_body skill) force d (SkippedSymlink target) d"
    using p False by (auto simp: happened_def)
  ultimately show ?thesis using nothing_effect [OF open_d tree] by simp
next
  case True
  have l: "is_link d p" using p(1) by (simp add: is_link_def)
  note unlinked_outcome [OF open_d name tree l p(2) way [OF True] at i [unfolded install_one_state(5) [OF cl True]]]
  then show ?thesis using True l p(2) by (auto simp: install_effect_def Let_def happened_def)
qed

lemma real_dir_effect:
  assumes open_d: "opens d dir home" and name: "entry_name (sk_name skill)" and tree: "tree (nodes d)"
    and dir: "nodes d (home @ [sk_name skill]) = Some Dir" and no_link: "\<not> is_link d (skill_file_at (home @ [sk_name skill]))"
    and no_bak: "\<not> is_link d (backup_at (home @ [sk_name skill]))" and i: "install_one dir skill force d = (r, d')"
  shows "install_effect dir home skill force d r d'"
proof -
  define m where "m \<longleftrightarrow> may_read d (skill_file_at (home @ [sk_name skill])) \<and> installed d (home @ [sk_name skill]) (sk_body skill)"
  have cl: "classify d (path_join dir (sk_name skill)) (sk_body skill) = Inr (RealDir m)"
    using classify_at [OF open_d name] dir no_link
    by (auto simp: m_def installed_def is_link_def split: option.split node.split)
  show ?thesis
  proof (cases m)
    case True
    then have "r = Inr AlreadyPresent" "d' = d" using i install_one_state(2) [OF cl [unfolded eqTrueI [OF True]]] by simp_all
    then show ?thesis using nothing_effect [OF open_d tree] True by (simp add: happened_def m_def)
  next
    case False
    then have "classify d (path_join dir (sk_name skill)) (sk_body skill) = Inr (RealDir False)" using cl by simp
    note refreshed_outcome [OF open_d name tree dir no_link no_bak i [unfolded install_one_state(3) [OF this]]]
    then show ?thesis using False dir by (auto simp: install_effect_def Let_def happened_def m_def installed_def)
  qed
qed

lemma install_one_effect:
  assumes open_d: "opens d dir home" and way: "force \<Longrightarrow> reached d dir home (sk_name skill)"
    and name: "entry_name (sk_name skill)" and tree: "tree (nodes d)"
    and bak: "\<not> is_link d (backup_at (home @ [sk_name skill]))" and i: "install_one dir skill force d = (r, d')"
  shows "install_effect dir home skill force d r d'"
proof (cases "nodes d (home @ [sk_name skill])")
  case None
  show ?thesis by (rule absent_effect [OF open_d name tree None i])
next
  case (Some n)
  show ?thesis
  proof (cases n)
    case (File b)
    show ?thesis by (rule blocked_effect [OF open_d name tree Some [unfolded File] i])
  next
    case (Link t)
    have cl: "classify d (path_join dir (sk_name skill)) (sk_body skill) = Inr (Symlink (path_join dir (sk_name skill)) t)"
      using classify_at [OF open_d name] Some Link by simp
    show ?thesis
      by (rule linked_effect [OF open_d name tree cl Some [unfolded Link] _ _ _ i])
        (use way place_entry [OF open_d name, of False] in \<open>auto intro: reachedD\<close>)
  next
    case Dir
    note dir = Some [unfolded Dir]
    show ?thesis
    proof (cases "is_link d (skill_file_at (home @ [sk_name skill]))")
      case True
      then obtain t where t: "nodes d (skill_file_at (home @ [sk_name skill])) = Some (Link t)"
        by (auto simp: is_link_def split: option.splits node.splits)
      have cl: "classify d (path_join dir (sk_name skill)) (sk_body skill) =
          Inr (Symlink (path_join (path_join dir (sk_name skill)) ''SKILL.md'') t)"
        using classify_at [OF open_d name] dir t by simp
      have at: "place_of d False (path_join (path_join dir (sk_name skill)) ''SKILL.md'') =
          Inr (skill_file_at (home @ [sk_name skill]))"
        using place_entry [OF opens_entry [OF open_d name dir] entry_names(1), of False] by (simp add: skill_file_at_def)
      show ?thesis
        by (rule linked_effect [OF open_d name tree cl t _ _ at i]) (use dir way in \<open>auto intro: reachedD\<close>)
    next
      case False
      show ?thesis by (rule real_dir_effect [OF open_d name tree dir False bak i])
    qed
  qed
qed

section \<open>Installing all of them\<close>

text \<open>A second run of the installer, without \<open>force\<close>, leaves the skill as it is.\<close>

definition settled :: "place \<Rightarrow> Disk \<Rightarrow> BundledSkill \<Rightarrow> bool" where
  "settled home d skill \<longleftrightarrow>
     (let sd = home @ [sk_name skill]
      in installed d sd (sk_body skill) \<and> may_read d (skill_file_at sd) \<or>
         is_link d sd \<or> nodes d sd = Some Dir \<and> is_link d (skill_file_at sd))"

definition no_op :: "SkillOutcome \<Rightarrow> bool" where
  "no_op out \<longleftrightarrow> (case out of AlreadyPresent \<Rightarrow> True | SkippedSymlink _ \<Rightarrow> True | _ \<Rightarrow> False)"

definition skill_places :: "place \<Rightarrow> BundledSkill \<Rightarrow> place set" where
  "skill_places home skill = (let sd = home @ [sk_name skill] in {sd, skill_file_at sd, backup_at sd})"

lemma settled_again:
  assumes "opens d dir home" and "entry_name (sk_name skill)" and "settled home d skill"
  shows "\<exists>out. install_one dir skill False d = (Inr out, d) \<and> no_op out"
  using assms(3) classify_at [OF assms(1,2), of "sk_body skill"]
  by (auto simp: settled_def install_one_def Let_def installed_def is_link_def no_op_def split: option.splits node.splits)

lemma happened_settled:
  assumes "happened (home @ [sk_name skill]) (sk_body skill) False d out d'" and "may_read d' = (\<lambda>_. True)"
  shows "settled home d' skill"
  using assms by (auto simp: happened_def settled_def is_link_def split: SkillOutcome.splits)

lemma other_places:
  assumes "sk_name skill \<noteq> sk_name other" and "p \<in> skill_places home skill"
  shows "p \<notin> skill_places home other"
  using assms by (auto simp: skill_places_def Let_def skill_file_at_def backup_at_def)

lemma settled_untouched:
  assumes "untouched ps d d'" and "settled home d skill" and "ps \<inter> skill_places home skill = {}"
  shows "settled home d' skill"
  using assms same_system_eq(2) [of d d']
  by (auto simp: settled_def Let_def untouched_def skill_places_def installed_def is_link_def)

definition no_backup_links :: "place \<Rightarrow> Disk \<Rightarrow> BundledSkill list \<Rightarrow> bool" where
  "no_backup_links home d skills \<longleftrightarrow> (\<forall>skill \<in> set skills. \<not> is_link d (backup_at (home @ [sk_name skill])))"

lemma install_each_effect:
  assumes "install_each dir False skills d = (Inr outs, d')" and "opens d dir home" and "tree (nodes d)"
    and "\<forall>skill \<in> set skills. entry_name (sk_name skill)" and "distinct (map sk_name skills)"
    and "no_backup_links home d skills" and "may_read d = (\<lambda>_. True)"
  shows "untouched (\<Union> (skill_places home ` set skills)) d d' \<and> opens d' dir home \<and>
    (\<forall>skill \<in> set skills. settled home d' skill)"
  using assms
proof (induction skills arbitrary: d outs)
  case (Cons skill skills)
  obtain out d1 outs2 where one: "install_one dir skill False d = (Inr out, d1)"
    and rest: "install_each dir False skills d1 = (Inr outs2, d')"
    using Cons.prems(1)
    by (auto elim!: then_doE simp: in_context_def split: prod.splits sum.splits)
  have bak: "\<not> is_link d (backup_at (home @ [sk_name skill]))" using Cons.prems(6) by (simp add: no_backup_links_def)
  have e: "untouched (skill_places home skill) d d1" "tree (nodes d1)" "opens d1 dir home"
    "happened (home @ [sk_name skill]) (sk_body skill) False d out d1"
    using install_one_effect [OF Cons.prems(2) _ _ Cons.prems(3) bak one] Cons.prems(4)
    by (auto simp: install_effect_def skill_places_def Let_def)
  have readable: "may_read d1 = (\<lambda>_. True)"
    using e(1) Cons.prems(7) same_system_eq(2) [of d d1] by (simp add: untouched_def)
  have apart: "skill_places home other \<inter> skill_places home skill = {}" if "other \<in> set skills" for other
  proof -
    have "sk_name other \<noteq> sk_name skill" using Cons.prems(5) that by (auto simp: image_iff)
    then show ?thesis using other_places [of other skill _ home] by blast
  qed
  have "no_backup_links home d1 skills"
    unfolding no_backup_links_def
  proof
    fix other assume o: "other \<in> set skills"
    then have "backup_at (home @ [sk_name other]) \<notin> skill_places home skill"
      using apart [OF o] by (auto simp: skill_places_def Let_def)
    then show "\<not> is_link d1 (backup_at (home @ [sk_name other]))"
      using Cons.prems(6) o e(1) by (auto simp: no_backup_links_def is_link_def untouched_def)
  qed
  then have ih: "untouched (\<Union> (skill_places home ` set skills)) d1 d'" "opens d' dir home"
    "\<forall>skill \<in> set skills. settled home d' skill"
    using Cons.IH [OF rest e(3,2) _ _ _ readable] Cons.prems(4,5) by auto
  have "settled home d1 skill" using happened_settled [OF e(4) readable] .
  then have "settled home d' skill"
    by (rule settled_untouched [OF ih(1)]) (use apart in blast)
  then show ?case using untouched_trans [OF e(1) ih(1)] ih(2,3) by auto
qed simp

lemma install_each_settled:
  assumes "opens d dir home" and "\<forall>skill \<in> set skills. entry_name (sk_name skill)"
    and "\<forall>skill \<in> set skills. settled home d skill"
  shows "\<exists>outs. install_each dir False skills d = (Inr outs, d) \<and> (\<forall>out \<in> set outs. no_op (snd out))"
  using assms
proof (induction skills)
  case (Cons skill skills)
  then obtain outs where outs: "install_each dir False skills d = (Inr outs, d)" "\<forall>out \<in> set outs. no_op (snd out)" by auto
  obtain out where "install_one dir skill False d = (Inr out, d)" "no_op out"
    using settled_again [OF Cons.prems(1)] Cons.prems(2,3) by (meson list.set_intros(1))
  with outs show ?case by (simp add: then_do_def in_context_def)
qed simp

lemma bundled_names:
  "distinct (map sk_name (BUNDLED_SKILLS bundled))" "\<forall>skill \<in> set (BUNDLED_SKILLS bundled). entry_name (sk_name skill)"
  by (simp_all add: BUNDLED_SKILLS_def BUNDLED_NAMES_def entry_name_def)

section \<open>A concrete disk\<close>

lemma walk_straight:
  assumes "\<forall>i \<le> length cs. ns (cur @ take i cs) = Some Dir" and "''..'' \<notin> set cs"
  shows "walk k follow ns cur cs = Inr (k, cur @ cs)"
  using assms
proof (induction cs arbitrary: cur)
  case (Cons c cs)
  have "ns (cur @ [c]) = Some Dir" using Cons.prems(1) [rule_format, of 1] by simp
  moreover have "ns ((cur @ [c]) @ take i cs) = Some Dir" if "i \<le> length cs" for i
    using Cons.prems(1) [rule_format, of "Suc i"] that by simp
  ultimately show ?case using Cons.IH [of "cur @ [c]"] Cons.prems(2) by auto
qed simp

lemma reached_straight:
  assumes "starts_with ''/'' dir" and "steps dir = home" and "''..'' \<notin> set home"
    and dirs: "\<forall>i \<le> length home. nodes d (take i home) = Some Dir"
  shows "reached d dir home name"
proof -
  have straight: "opens d' dir home" if "\<forall>i \<le> length home. nodes d' (take i home) = Some Dir" for d'
  proof -
    have "nodes d' home = Some Dir" using that by (metis order_refl take_all_iff)
    moreover have "dir \<noteq> []" using assms(1) by (auto simp: starts_with_def)
    ultimately show ?thesis
      using walk_straight [of home "nodes d'" "[]"] that assms(1-3) by (simp add: opens_def start_def)
  qed
  have apart: "take i home \<noteq> p" if "take (length home + 1) p = home @ [name]" for i p
  proof
    assume "take i home = p"
    then have "length (take (length home + 1) p) \<le> length home" by auto
    then show False using that by simp
  qed
  have "opens (set_node p n d) dir home" if "take (length home + 1) p = home @ [name]" for p n
    by (rule straight) (use dirs apart [OF that] in auto)
  then show ?thesis using straight [OF dirs] by (simp add: reached_def)
qed

lemma tree_map_of:
  assumes "map_of ps [] = Some Dir" and "\<forall>(p, n) \<in> set ps. p = [] \<or> map_of ps (butlast p) = Some Dir"
  shows "tree (map_of ps)"
proof -
  have "map_of ps p = Some Dir" if m: "map_of ps (p @ [c]) \<noteq> None" for p c
  proof -
    obtain n where "(p @ [c], n) \<in> set ps" using m by (auto dest: map_of_SomeD)
    then show ?thesis using assms(2) by force
  qed
  then show ?thesis using assms(1) by (auto simp: tree_def)
qed

text \<open>One skill is out of date, another is a link to a development copy, the rest are missing.\<close>

definition sample_nodes :: "(place \<times> node) list" where
  "sample_nodes = [([], Dir), ([''h''], Dir), ([''h'', ''skills''], Dir),
     ([''h'', ''skills'', ''cbc''], Dir), ([''h'', ''skills'', ''cbc'', ''SKILL.md''], File ''old''),
     ([''h'', ''devkit''], Dir), ([''h'', ''devkit'', ''SKILL.md''], File ''mine''),
     ([''h'', ''skills'', ''cbc-worker''], Link ''/h/devkit'')]"

definition sample_files :: "(place \<times> node) list \<Rightarrow> Disk" where
  "sample_files ps = \<lparr>nodes = map_of ps, working_dir = [], may_read = (\<lambda>_. True), may_write = (\<lambda>_. True),
     os_text = (\<lambda>_. []), fits = (\<lambda>_ _. None)\<rparr>"

lemma sample_files_simps [simp]:
  "nodes (sample_files ps) = map_of ps" "may_read (sample_files ps) = (\<lambda>_. True)" "working_dir (sample_files ps) = []"
  by (simp_all add: sample_files_def)

lemma sample_tree: "tree (map_of sample_nodes)"
  by (rule tree_map_of) (simp_all add: sample_nodes_def)

lemma sample_reached: "reached (sample_files sample_nodes) ''/h/skills'' [''h'', ''skills''] name"
proof (rule reached_straight)
  show "\<forall>i \<le> length [''h'', ''skills'']. nodes (sample_files sample_nodes) (take i [''h'', ''skills'']) = Some Dir"
    by (auto simp: sample_nodes_def le_Suc_eq)
  show "steps ''/h/skills'' = [''h'', ''skills'']" by code_simp
qed (simp_all add: starts_with_def)

lemma sample_opens: "opens (sample_files sample_nodes) ''/h/skills'' [''h'', ''skills'']"
  by (rule reachedD(1) [OF sample_reached])

definition sample_skill :: BundledSkill where
  "sample_skill = \<lparr>sk_name = ''cbc-worker'', sk_body = ''new''\<rparr>"

lemma sample_skill_name: "entry_name (sk_name sample_skill)"
  by (simp add: sample_skill_def entry_name_def)

lemma sample_disk_tree: "tree (nodes (sample_files sample_nodes))"
  by (simp add: sample_tree)

lemma sample_skill_backup:
  "\<not> is_link (sample_files sample_nodes) (backup_at ([''h'', ''skills''] @ [sk_name sample_skill]))"
  by (simp add: is_link_def backup_at_def sample_nodes_def sample_skill_def)

lemma sample_install: "fst (install_one ''/h/skills'' sample_skill True (sample_files sample_nodes)) = Inr ReplacedSymlink"
  by code_simp

lemma sample_all:
  "\<exists>outs. fst (install_all (\<lambda>_. ''new'') ''/h/skills'' False (sample_files sample_nodes)) = Inr outs \<and>
     map snd outs = [Updated, Created, SkippedSymlink ''/h/devkit'', Created, Created, Created, Created, Created, Created]"
proof -
  have "map_sum id (map snd) (fst (install_all (\<lambda>_. ''new'') ''/h/skills'' False (sample_files sample_nodes))) =
      Inr [Updated, Created, SkippedSymlink ''/h/devkit'', Created, Created, Created, Created, Created, Created]"
    by code_simp
  then show ?thesis by (cases "fst (install_all (\<lambda>_. ''new'') ''/h/skills'' False (sample_files sample_nodes))") auto
qed

lemma sample_no_backup_links:
  "no_backup_links [''h'', ''skills''] (sample_files sample_nodes) (BUNDLED_SKILLS bundled)"
  by (simp add: no_backup_links_def is_link_def backup_at_def sample_nodes_def BUNDLED_SKILLS_def)

text \<open>The one place where the installer does write through a link: the name of the backup.\<close>

definition sample_linked_backup :: "(place \<times> node) list" where
  "sample_linked_backup = ([''h'', ''skills'', ''cbc'', ''SKILL.md.bak''], Link ''/h/devkit/SKILL.md'') # sample_nodes"

lemma backup_written_through_link:
  "let r = install_one ''/h/skills'' \<lparr>sk_name = ''cbc'', sk_body = ''new''\<rparr> False (sample_files sample_linked_backup)
   in fst r = Inr Updated \<and> nodes (snd r) [''h'', ''devkit'', ''SKILL.md''] = Some (File ''old'')"
  by code_simp

section \<open>The properties\<close>





text \<open>C38: Once the skills are installed, installing them again without force succeeds, changes nothing and
  reports every skill as up to date or as a link left in place.\<close>

theorem skills_reinstall_is_no_op:
  assumes "opens d dir home" and "tree (nodes d)" and "no_backup_links home d (BUNDLED_SKILLS bundled)"
    and "may_read d = (\<lambda>_. True)" and "install_all bundled dir False d = (Inr outs, d')"
  shows "\<exists>outs'. install_all bundled dir False d' = (Inr outs', d') \<and> (\<forall>out \<in> set outs'. no_op (snd out))"
proof -
  note each = assms(5) [unfolded install_all_def]
  note e = install_each_effect [OF each assms(1,2) bundled_names(2,1) assms(3,4)]
  show ?thesis
    unfolding install_all_def using install_each_settled [OF _ bundled_names(2)] e by blast
qed

theorem skills_reinstall_is_no_op_witness:
  "\<exists>outs. install_all (\<lambda>_. ''new'') ''/h/skills'' False
       (snd (install_all (\<lambda>_. ''new'') ''/h/skills'' False (sample_files sample_nodes))) =
     (Inr outs, snd (install_all (\<lambda>_. ''new'') ''/h/skills'' False (sample_files sample_nodes))) \<and>
     (\<forall>out \<in> set outs. no_op (snd out))"
proof -
  obtain outs where "install_all (\<lambda>_. ''new'') ''/h/skills'' False (sample_files sample_nodes) =
      (Inr outs, snd (install_all (\<lambda>_. ''new'') ''/h/skills'' False (sample_files sample_nodes)))"
    using sample_all by (metis prod.collapse)
  from skills_reinstall_is_no_op [OF sample_opens sample_disk_tree sample_no_backup_links sample_files_simps(2) this]
  show ?thesis .
qed

end
