(* ===== verification/Install.thy ===== *)
theory Install
  imports Skill Settings Ids
begin

text \<open>
  \<open>bins/cbc/src/install.rs\<close>: \<open>cbc install-daemon\<close> writes a launchd agent and a log-rotation rule, loads the
  agent and goes on to the settings and the skills; with it the subcommands of \<open>main.rs\<close> that run the
  settings editor and the skill installer, the messages of \<open>settings.rs\<close>, and the wiring of the hooks to
  the process table. What the process asks of its surroundings is an argument: the running executable,
  \<open>which\<close>, \<open>HOME\<close>, the answers of \<open>launchctl\<close>, the terminal. The settings editor's own part of the disk is the
  flat one of \<open>Settings\<close>.
\<close>

section \<open>The launchd agent\<close>

type_synonym u16 = "16 word"

definition show_port :: "u16 \<Rightarrow> string" where
  "show_port p = show_nat (unat p)"

definition LABEL :: string where "LABEL = ''com.chatbotchat.server''"

record InstallConfig =
  ic_server_binary :: string
  ic_port :: u16
  ic_log_dir :: string
  ic_plist_dir :: string

text \<open>\<open>Path::parent\<close>: trailing slashes and single dots do not count, the last component goes.\<close>

function strip_back :: "string \<Rightarrow> string" where
  "strip_back r = (case r of
       [] \<Rightarrow> []
     | c # r' \<Rightarrow>
         if c = CHR ''/'' \<and> r' \<noteq> [] then strip_back r'
         else if c = CHR ''.'' \<and> starts_with ''/'' r' then strip_back r'
         else r)"
  by pat_completeness auto

termination
  by (relation "measure length") auto

declare strip_back.simps [simp del]

definition path_parent :: "string \<Rightarrow> string option" where
  "path_parent path =
     (let r = strip_back (rev path)
      in if r = [] \<or> r = ''/'' then None
         else Some (rev (strip_back (dropWhile (\<lambda>c. c \<noteq> CHR ''/'') r))))"

definition server_binary_beside :: "Disk \<Rightarrow> string \<Rightarrow> string option" where
  "server_binary_beside d cbc_exe = (case path_parent cbc_exe of
       None \<Rightarrow> None
     | Some p \<Rightarrow> (let candidate = path_join p ''chatbotchat-server''
                 in if is_file d candidate then Some candidate else None))"

text \<open>Whether the command ran and succeeded, and what it printed; \<open>None\<close> when it could not be started.\<close>

definition which_on_path :: "(bool \<times> string) option \<Rightarrow> string option" where
  "which_on_path output = (case output of
       None \<Rightarrow> None
     | Some (success, stdout) \<Rightarrow>
         if \<not> success then None
         else (let path = trim stdout in if path = [] then None else Some path))"

definition choose_server_binary :: "string option \<Rightarrow> string option \<Rightarrow> failure + string" where
  "choose_server_binary beside on_path = (case beside of
       Some p \<Rightarrow> Inr p
     | None \<Rightarrow> (case on_path of
           Some p \<Rightarrow> Inr p
         | None \<Rightarrow> Inl [''could not locate the chatbotchat-server binary next to cbc or on PATH; '' @
             ''install it (cargo install --path bins/chatbotchat-server) or put it on PATH first'']))"

definition resolve_server_binary :: "Disk \<Rightarrow> (bool \<times> string) option \<Rightarrow> string \<Rightarrow> failure + string" where
  "resolve_server_binary d which cbc_exe =
     choose_server_binary (server_binary_beside d cbc_exe) (which_on_path which)"

definition replace_char :: "char \<Rightarrow> string \<Rightarrow> string \<Rightarrow> string" where
  "replace_char c t s = concat (map (\<lambda>x. if x = c then t else [x]) s)"

definition xml_escape :: "string \<Rightarrow> string" where
  "xml_escape s =
     replace_char (CHR ''>'') ''&gt;'' (replace_char (CHR ''<'') ''&lt;'' (replace_char (CHR ''&'') ''&amp;'' s))"

definition stdout_log :: "InstallConfig \<Rightarrow> string" where
  "stdout_log cfg = path_join (ic_log_dir cfg) ''chatbotchat.log''"

definition stderr_log :: "InstallConfig \<Rightarrow> string" where
  "stderr_log cfg = path_join (ic_log_dir cfg) ''chatbotchat.err.log''"

definition render_plist :: "InstallConfig \<Rightarrow> string" where
  "render_plist cfg =
     (let binary = xml_escape (ic_server_binary cfg);
          out = xml_escape (stdout_log cfg);
          err = xml_escape (stderr_log cfg)
      in concat (map writeln [
        ''<?xml version='' @ [CHR 0x22] @ ''1.0'' @ [CHR 0x22] @ '' encoding='' @ [CHR 0x22] @ ''UTF-8'' @ [CHR 0x22] @ ''?>'',
        ''<!DOCTYPE plist PUBLIC '' @ [CHR 0x22] @ ''-//Apple//DTD PLIST 1.0//EN'' @ [CHR 0x22] @ '' '' @ [CHR 0x22] @ ''http://www.apple.com/DTDs/PropertyList-1.0.dtd'' @ [CHR 0x22] @ ''>'',
        ''<plist version='' @ [CHR 0x22] @ ''1.0'' @ [CHR 0x22] @ ''>'',
        ''<dict>'',
        ''    <key>Label</key>'',
        ''    <string>'' @ LABEL @ ''</string>'',
        [],
        ''    <key>ProgramArguments</key>'',
        ''    <array>'',
        ''        <string>'' @ binary @ ''</string>'',
        ''        <string>--port</string>'',
        ''        <string>'' @ show_port (ic_port cfg) @ ''</string>'',
        ''    </array>'',
        [],
        ''    <key>RunAtLoad</key>'',
        ''    <true/>'',
        [],
        ''    <key>KeepAlive</key>'',
        ''    <true/>'',
        [],
        ''    <key>ProcessType</key>'',
        ''    <string>Background</string>'',
        [],
        ''    <key>ExitTimeOut</key>'',
        ''    <integer>25</integer>'',
        [],
        ''    <key>StandardOutPath</key>'',
        ''    <string>'' @ out @ ''</string>'',
        [],
        ''    <key>StandardErrorPath</key>'',
        ''    <string>'' @ err @ ''</string>'',
        ''</dict>'',
        ''</plist>'']))"

definition render_newsyslog_conf :: "InstallConfig \<Rightarrow> string" where
  "render_newsyslog_conf cfg =
     (let rule = (\<lambda>log. writeln (log @ [tabulator] @ ''644'' @ [tabulator] @ ''5'' @ [tabulator] @ ''5120'' @ [tabulator] @ ''*''))
      in writeln ''# chatbotchat log rotation for newsyslog(8).'' @
         writeln ''# Install: sudo cp this file to /etc/newsyslog.d/chatbotchat.conf'' @
         writeln ''# Fields: logfilename mode count size(KB) when'' @
         rule (stdout_log cfg) @ rule (stderr_log cfg))"

definition write_newsyslog_conf :: "InstallConfig \<Rightarrow> Disk \<Rightarrow> (failure + string) \<times> Disk" where
  "write_newsyslog_conf cfg d =
     then_do (because_of (''creating '' @ ic_log_dir cfg) (create_dir_all (ic_log_dir cfg) d)) (\<lambda>_ d.
       (let path = path_join (ic_log_dir cfg) ''chatbotchat.newsyslog.conf''
        in then_do (because_of (''writing '' @ path) (write_text path (render_newsyslog_conf cfg) d))
             (\<lambda>_ d. (Inr path, d))))"

definition write_plist :: "InstallConfig \<Rightarrow> Disk \<Rightarrow> (failure + string) \<times> Disk" where
  "write_plist cfg d =
     then_do (because_of (''creating '' @ ic_plist_dir cfg) (create_dir_all (ic_plist_dir cfg) d)) (\<lambda>_ d.
       then_do (because_of (''creating '' @ ic_log_dir cfg) (create_dir_all (ic_log_dir cfg) d)) (\<lambda>_ d.
         (let path = path_join (ic_plist_dir cfg) (LABEL @ ''.plist'')
          in then_do (because_of (''writing '' @ path) (write_text path (render_plist cfg) d))
               (\<lambda>_ d. (Inr path, d)))))"

section \<open>Loading it\<close>

text \<open>What a \<open>launchctl\<close> command answers: could not be run, with the system's text, or its success. The
  commands are given in the order they are issued.\<close>

type_synonym launchctl = "string list \<Rightarrow> string + bool"

definition load_launchagent :: "launchctl \<Rightarrow> string \<Rightarrow> (failure + unit) \<times> string list list" where
  "load_launchagent ctl plist_path =
     (let unload = [''unload'', plist_path]; load = [''load'', ''-w'', plist_path]; listing = [''list'', LABEL]
      in case ctl load of
           Inl e \<Rightarrow> (Inl [''running launchctl load'', e], [unload, load])
         | Inr False \<Rightarrow> (Inl [''launchctl load failed for '' @ plist_path], [unload, load])
         | Inr True \<Rightarrow> (case ctl listing of
               Inl e \<Rightarrow> (Inl [''running launchctl list'', e], [unload, load, listing])
             | Inr False \<Rightarrow> (Inl [LABEL @ '' did not register after load '' @ em_dash @
                 '' the daemon may have failed to start; check ~/Library/Logs/chatbotchat.err.log''],
                 [unload, load, listing])
             | Inr True \<Rightarrow> (Inr (), [unload, load, listing])))"

definition print_next_steps :: "InstallConfig \<Rightarrow> string \<Rightarrow> string \<Rightarrow> Effect list" where
  "print_next_steps cfg plist_path newsyslog_conf =
     [println (''Installed launchd agent: '' @ plist_path),
      println (''Daemon: '' @ ic_server_binary cfg @ '' --port '' @ show_port (ic_port cfg)),
      println (''Logs:   '' @ stdout_log cfg),
      println (''        '' @ stderr_log cfg),
      println [],
      println ''Register the MCP tools globally for Claude Code (one time, all sessions):'',
      println (''  claude mcp add --scope user chatbotchat -e CBC_SERVER=http://127.0.0.1:'' @
        show_port (ic_port cfg) @ '' -- cbc mcp''),
      println [],
      println ''Auto-approve the bus so cbc_send doesn't stall for per-call approval:'',
      println ''  cbc allow-tools'',
      println [],
      println ''Enable log rotation (needs sudo; one time):'',
      println (''  sudo cp '' @ newsyslog_conf @ '' /etc/newsyslog.d/chatbotchat.conf''),
      println [],
      println (''Verify:  launchctl list | grep '' @ LABEL),
      println (''Stop:    launchctl unload '' @ plist_path)]"

section \<open>The settings editor's messages\<close>

definition settings_path :: "string option \<Rightarrow> failure + string" where
  "settings_path home = (case home of
       None \<Rightarrow> Inl [''HOME not set; cannot locate Claude Code settings'']
     | Some h \<Rightarrow> Inr (path_join (path_join h ''.claude'') ''settings.json''))"

definition print_allow_outcome :: "string \<Rightarrow> Settings.Outcome \<Rightarrow> Effect list" where
  "print_allow_outcome path out = (case out of
       Settings.AlreadyPresent \<Rightarrow>
         [println (''chatbotchat MCP tools are already auto-approved in '' @ path @ ''; nothing to do.'')]
     | _ \<Rightarrow>
         [println (''Granted the chatbotchat MCP tools auto-approval in Claude Code settings:'' @ [newline] @ ''  '' @ path)] @
         (if out = Settings.Added then [println (''(backed up the previous file to '' @ path @ ''.bak)'')] else []) @
         [println ''Restart any open Claude Code session to pick it up.''])"

definition in_quotes :: "string \<Rightarrow> string" where
  "in_quotes s = [CHR 0x22] @ s @ [CHR 0x22]"

definition print_manual_snippet :: "Effect list" where
  "print_manual_snippet =
     [println ''Add this to your Claude Code settings (~/.claude/settings.json) by hand:'',
      println (''  { '' @ in_quotes ''permissions'' @ '': { '' @ in_quotes ''allow'' @ '': ['' @
        in_quotes CBC_ALLOW_RULE @ ''] } }'')]"

definition print_hook_outcome :: "string \<Rightarrow> Settings.Outcome \<Rightarrow> Effect list" where
  "print_hook_outcome path out = (case out of
       Settings.AlreadyPresent \<Rightarrow>
         [println (''CBC SessionStart + Stop hooks already registered in '' @ path @ ''; nothing to do.'')]
     | _ \<Rightarrow>
         [println (''Registered the CBC SessionStart + Stop hooks in Claude Code settings:'' @ [newline] @ ''  '' @ path)] @
         (if out = Settings.Added then [println (''(backed up the previous file to '' @ path @ ''.bak)'')] else []) @
         [println (''Restart any open Claude Code session to pick them up.'' @ [newline] @
           ''SessionStart relaunches your CBC polls on compact/resume; Stop reconciles '' @
           ''them to exactly one per declared room at every turn-end.'')])"

definition manual_hook :: "string \<Rightarrow> string \<Rightarrow> string" where
  "manual_hook event command = in_quotes event @ '': [{'' @ in_quotes ''hooks'' @ '': [{'' @ in_quotes ''type'' @ '':'' @
     in_quotes ''command'' @ '','' @ in_quotes ''command'' @ '':'' @ in_quotes command @ ''}]}]''"

definition print_manual_hook_snippet :: "Effect list" where
  "print_manual_hook_snippet =
     [println ''Add this to your Claude Code settings (~/.claude/settings.json) by hand:'',
      println (''  {'' @ in_quotes ''hooks'' @ '': {'' @ manual_hook ''SessionStart'' CBC_SESSION_START_COMMAND @ '', '' @
        manual_hook ''Stop'' CBC_STOP_COMMAND @ ''}}'')]"

section \<open>The subcommands\<close>

record InstallWorld =
  iw_current_exe :: "string + string"
  iw_which :: "(bool \<times> string) option"
  iw_home :: "string option"
  iw_launchctl :: launchctl
  iw_terminal :: bool
  iw_line :: "string option"
  iw_settings :: DiskWorld
  iw_chain :: "string \<Rightarrow> string"
  iw_bundled :: "string \<Rightarrow> string"

text \<open>The contexts of an error, as \<open>{:#}\<close> prints them.\<close>

fun show_failure :: "failure \<Rightarrow> string" where
  "show_failure [] = []"
| "show_failure [e] = e"
| "show_failure (e # es) = e @ '': '' @ show_failure es"

text \<open>The settings file edited, or the reason; \<open>iw_chain\<close> is the full text of an error of the editor.\<close>

definition edit_settings ::
  "(DiskWorld \<Rightarrow> string \<Rightarrow> disk \<Rightarrow> (string + Settings.Outcome) \<times> disk) \<Rightarrow> InstallWorld \<Rightarrow> string \<Rightarrow> disk \<Rightarrow>
   (string + Settings.Outcome) \<times> disk" where
  "edit_settings apply_rule iw path sd =
     (case apply_rule (iw_settings iw) path sd of
        (Inl e, sd) \<Rightarrow> (Inl (iw_chain iw e), sd)
      | (Inr out, sd) \<Rightarrow> (Inr out, sd))"

definition run_allow_tools :: "InstallWorld \<Rightarrow> disk \<Rightarrow> (failure + Effect list) \<times> disk" where
  "run_allow_tools iw sd = (case settings_path (iw_home iw) of
       Inl e \<Rightarrow> (Inl e, sd)
     | Inr path \<Rightarrow> (case edit_settings apply_allow_rule iw path sd of
           (Inr out, sd) \<Rightarrow> (Inr (print_allow_outcome path out), sd)
         | (Inl e, sd) \<Rightarrow>
             (Inr (eprintln (''Could not edit '' @ path @ '' automatically: '' @ e) # print_manual_snippet), sd)))"

definition run_install_hooks :: "InstallWorld \<Rightarrow> disk \<Rightarrow> (failure + Effect list) \<times> disk" where
  "run_install_hooks iw sd = (case settings_path (iw_home iw) of
       Inl e \<Rightarrow> (Inl e, sd)
     | Inr path \<Rightarrow> (case edit_settings apply_hook_rule iw path sd of
           (Inr out, sd) \<Rightarrow> (Inr (print_hook_outcome path out), sd)
         | (Inl e, sd) \<Rightarrow>
             (Inr (eprintln (''Could not edit '' @ path @ '' automatically: '' @ e) # print_manual_hook_snippet), sd)))"

definition run_install_skill :: "InstallWorld \<Rightarrow> bool \<Rightarrow> string option \<Rightarrow> Disk \<Rightarrow> (failure + Effect list) \<times> Disk" where
  "run_install_skill iw force explicit d =
     (case (case explicit of Some dir \<Rightarrow> Inr dir | None \<Rightarrow> skills_dir (iw_home iw)) of
        Inl e \<Rightarrow> (Inl e, d)
      | Inr dir \<Rightarrow>
          then_do (in_context (''installing the cbc skills into '' @ dir) (install_all (iw_bundled iw) dir force d))
            (\<lambda>outs d. (Inr (print_outcomes dir outs), d)))"

definition install_bundled_skill :: "InstallWorld \<Rightarrow> Disk \<Rightarrow> Effect list \<times> Disk" where
  "install_bundled_skill iw d =
     (let hint = (\<lambda>e. [println [], eprintln (''Could not install the cbc skills automatically: '' @ show_failure e),
          eprintln ''Run `cbc install-skill` yourself once it's resolved.''])
      in case skills_dir (iw_home iw) of
           Inl e \<Rightarrow> (hint e, d)
         | Inr dir \<Rightarrow> (case install_all (iw_bundled iw) dir False d of
               (Inr outs, d) \<Rightarrow> (println [] # print_outcomes dir outs, d)
             | (Inl e, d) \<Rightarrow> (hint e, d)))"

definition says_yes :: "string \<Rightarrow> bool" where
  "says_yes line = (map to_ascii_lowercase (trim line) \<in> {''y'', ''yes''})"

definition maybe_prompt_allow_tools :: "InstallWorld \<Rightarrow> disk \<Rightarrow> Effect list \<times> disk" where
  "maybe_prompt_allow_tools iw sd =
     (let prompt = Out ([newline] @
            ''Auto-approve the chatbotchat MCP tools now (edits ~/.claude/settings.json)? [y/N] '');
          degrade = (\<lambda>e. eprintln (''Could not edit settings automatically: '' @ e) # print_manual_snippet)
      in if \<not> iw_terminal iw then ([], sd)
         else (case iw_line iw of
             None \<Rightarrow> ([prompt], sd)
           | Some line \<Rightarrow>
               if \<not> says_yes line then
                 ([prompt, println ''Skipped. Run `cbc allow-tools` anytime to do this.''], sd)
               else (case settings_path (iw_home iw) of
                   Inl e \<Rightarrow> (prompt # degrade (show_failure e), sd)
                 | Inr path \<Rightarrow> (case edit_settings apply_allow_rule iw path sd of
                       (Inr out, sd) \<Rightarrow> (prompt # print_allow_outcome path out, sd)
                     | (Inl e, sd) \<Rightarrow> (prompt # degrade e, sd)))))"

definition install_config :: "InstallWorld \<Rightarrow> u16 \<Rightarrow> string option \<Rightarrow> Disk \<Rightarrow> failure + InstallConfig" where
  "install_config iw port plist_dir_override d =
     (case iw_current_exe iw of
        Inl e \<Rightarrow> Inl [''locating the running cbc binary'', e]
      | Inr cbc_exe \<Rightarrow> (case resolve_server_binary d (iw_which iw) cbc_exe of
            Inl e \<Rightarrow> Inl e
          | Inr server_binary \<Rightarrow> (case iw_home iw of
                None \<Rightarrow> Inl [''HOME not set; cannot place the launchd agent'']
              | Some home \<Rightarrow> Inr
                  \<lparr>ic_server_binary = server_binary, ic_port = port,
                   ic_log_dir = path_join (path_join home ''Library'') ''Logs'',
                   ic_plist_dir = (case plist_dir_override of
                       Some dir \<Rightarrow> dir
                     | None \<Rightarrow> path_join (path_join home ''Library'') ''LaunchAgents'')\<rparr>)))"

text \<open>The result, what is printed, the \<open>launchctl\<close> commands, and the two parts of the disk.\<close>

record InstallRun =
  ir_result :: "failure + unit"
  ir_printed :: "Effect list"
  ir_commands :: "string list list"
  ir_disk :: Disk
  ir_settings :: disk

definition run_install_daemon :: "InstallWorld \<Rightarrow> u16 \<Rightarrow> string option \<Rightarrow> Disk \<Rightarrow> disk \<Rightarrow> InstallRun" where
  "run_install_daemon iw port plist_dir_override d sd =
     (let failed = (\<lambda>e cmds d. \<lparr>ir_result = Inl e, ir_printed = [], ir_commands = cmds, ir_disk = d, ir_settings = sd\<rparr>)
      in case install_config iw port plist_dir_override d of
           Inl e \<Rightarrow> failed e [] d
         | Inr cfg \<Rightarrow> (case write_plist cfg d of
               (Inl e, d) \<Rightarrow> failed e [] d
             | (Inr plist_path, d) \<Rightarrow> (case write_newsyslog_conf cfg d of
                   (Inl e, d) \<Rightarrow> failed e [] d
                 | (Inr newsyslog_conf, d) \<Rightarrow> (case load_launchagent (iw_launchctl iw) plist_path of
                       (Inl e, cmds) \<Rightarrow> failed e cmds d
                     | (Inr _, cmds) \<Rightarrow>
                         (let (asked, sd) = maybe_prompt_allow_tools iw sd;
                              (skills, d) = install_bundled_skill iw d
                          in \<lparr>ir_result = Inr (),
                              ir_printed = print_next_steps cfg plist_path newsyslog_conf @ asked @ skills,
                              ir_commands = cmds, ir_disk = d, ir_settings = sd\<rparr>)))))"

section \<open>The hooks, wired to the process table\<close>

text \<open>The process table is read anew for every count and every kill, so it is a function of the room and
  the identity asked about; the pids sent a \<open>SIGTERM\<close>, in order, and what is printed.\<close>

definition hook_session_start :: "HookWorld \<Rightarrow> string \<Rightarrow> (string \<Rightarrow> string option \<Rightarrow> string option) \<Rightarrow> u32 list \<times> string" where
  "hook_session_start hw raw ps =
     (case run_session_start hw raw of
        (kills, text) \<Rightarrow> (concat (map (\<lambda>(room, identity). kill_all_polls (ps room identity) room identity) kills), text))"

definition hook_stop ::
  "HookWorld \<Rightarrow> string \<Rightarrow> (string \<Rightarrow> string option \<Rightarrow> string option) \<Rightarrow> (string \<Rightarrow> string option \<Rightarrow> string option) \<Rightarrow>
   (string \<Rightarrow> time option) \<Rightarrow> time \<Rightarrow> u32 list \<times> string" where
  "hook_stop hw raw ps_planning ps_killing mtime now =
     (case run_stop hw raw
         (\<lambda>room identity. count_polls (ps_planning room identity) room identity)
         (\<lambda>room identity. False)
         (\<lambda>cbc_dir room identity. recently_polled mtime now cbc_dir room identity POLL_ALIVE_WINDOW) of
        (kills, text) \<Rightarrow>
          (concat (map (\<lambda>order. kill_surplus_polls (ps_killing (ko_room_id order) (ko_identity order))
             (ko_room_id order) (ko_identity order)) kills), text))"

text \<open>The breadcrumb of a bounded poll; every error is swallowed.\<close>

definition touch_poll_alive :: "string \<Rightarrow> string \<Rightarrow> string option \<Rightarrow> Disk \<Rightarrow> Disk" where
  "touch_poll_alive cbc_dir room identity d =
     (case create_dir_all (path_join cbc_dir ''.poll-alive'') d of
        (Inl _, d) \<Rightarrow> d
      | (Inr _, d) \<Rightarrow> snd (write_text (poll_alive_marker cbc_dir room identity) [] d))"

end
