(* ===== verification/InstallSpec.thy ===== *)
theory InstallSpec
  imports Install SkillSpec
begin

text \<open>
  What the daemon's installer promises: the agent it writes reads back, through an XML reader, as the
  configuration it was given, whatever characters the paths have; and the settings are edited only with
  the user's consent.
\<close>

section \<open>Reading the agent back\<close>

lemma strip_prefix_shorter: "strip_prefix p s = Some t \<Longrightarrow> p \<noteq> [] \<Longrightarrow> length t < length s"
  by (auto simp: strip_prefix_Some)

text \<open>The text of an element's content, with the three entities decoded.\<close>

function unescape :: "string \<Rightarrow> string" where
  "unescape s = (case s of
       [] \<Rightarrow> []
     | c # cs \<Rightarrow>
         (case strip_prefix ''&amp;'' s of Some t \<Rightarrow> CHR ''&'' # unescape t
          | None \<Rightarrow> (case strip_prefix ''&lt;'' s of Some t \<Rightarrow> CHR ''<'' # unescape t
          | None \<Rightarrow> (case strip_prefix ''&gt;'' s of Some t \<Rightarrow> CHR ''>'' # unescape t
          | None \<Rightarrow> c # unescape cs))))"
  by pat_completeness auto

termination
  by (relation "measure length") (auto dest: strip_prefix_shorter)

declare unescape.simps [simp del]

definition entity :: "char \<Rightarrow> string" where
  "entity c = (if c = CHR ''&'' then ''&amp;'' else if c = CHR ''<'' then ''&lt;''
     else if c = CHR ''>'' then ''&gt;'' else [c])"

lemma xml_escape_eq: "xml_escape s = concat (map entity s)"
  by (induction s) (simp_all add: xml_escape_def replace_char_def entity_def)

lemma unescape_entity: "unescape (entity c @ s) = c # unescape s"
  by (subst unescape.simps) (auto simp: entity_def strip_prefix_def starts_with_def)

lemma unescape_escape: "unescape (xml_escape s) = s"
proof (induction s)
  case Nil
  show ?case by (subst unescape.simps) (simp add: xml_escape_eq)
next
  case (Cons c s)
  then show ?case by (simp add: xml_escape_eq unescape_entity)
qed

lemma escape_no_tag: "CHR ''<'' \<notin> set (xml_escape s)"
  by (induction s) (auto simp: xml_escape_eq entity_def)

lemma unescape_plain: "CHR ''&'' \<notin> set s \<Longrightarrow> unescape s = s"
proof (induction s)
  case Nil
  show ?case by (subst unescape.simps) simp
next
  case (Cons c s)
  then show ?case by (subst unescape.simps) (auto simp: strip_prefix_def starts_with_def)
qed

text \<open>The contents of the \<open>string\<close> elements, in order.\<close>

lemma split_once_shorter: "split_once p s = Some (a, b) \<Longrightarrow> p \<noteq> [] \<Longrightarrow> length b < length s"
proof (induction s arbitrary: a)
  case (Cons c s)
  then show ?case by (auto split: option.splits dest: strip_prefix_shorter intro: less_SucI)
qed simp

function string_elements :: "string \<Rightarrow> string list" where
  "string_elements s = (case split_once ''<string>'' s of
       None \<Rightarrow> []
     | Some (_, rest) \<Rightarrow> (case split_once ''</string>'' rest of
           None \<Rightarrow> []
         | Some (content, rest) \<Rightarrow> unescape content # string_elements rest))"
  by pat_completeness auto

termination
  by (relation "measure length") (auto dest!: split_once_shorter)

declare string_elements.simps [simp del]

lemma split_once_text: "CHR ''<'' \<notin> set e \<Longrightarrow> split_once ''</string>'' (e @ ''</string>'' @ b) = Some (e, b)"
  by (induction e) (auto simp: strip_prefix_def starts_with_def)

lemma split_once_first:
  assumes "split_once p (a @ butlast p) = None" and "p \<noteq> []"
  shows "split_once p (a @ p @ b) = Some (a, b)"
  using assms(1)
proof (induction a)
  case Nil
  then show ?case using assms(2) by (cases p) (simp_all add: strip_prefix_def starts_with_def)
next
  case (Cons c a)
  have "\<not> starts_with p (c # a @ p @ b)"
  proof
    assume "starts_with p (c # a @ p @ b)"
    moreover have "take (length p) (c # a @ p @ b) = take (length p) (c # a @ butlast p)"
      using assms(2) by (cases p rule: rev_cases) (simp_all add: take_Cons')
    ultimately have "starts_with p (c # a @ butlast p)" by (simp add: starts_with_def)
    then show False using Cons.prems by (simp add: strip_prefix_def)
  qed
  then show ?case using Cons by (auto simp: strip_prefix_def split: if_splits)
qed

lemma string_elements_step:
  assumes "split_once ''<string>'' (a @ ''<string'') = None" and "CHR ''<'' \<notin> set e"
  shows "string_elements (a @ ''<string>'' @ e @ ''</string>'' @ rest) = unescape e # string_elements rest"
proof -
  have "split_once ''<string>'' (a @ ''<string>'' @ e @ ''</string>'' @ rest) = Some (a, e @ ''</string>'' @ rest)"
    by (rule split_once_first) (use assms(1) in simp_all)
  then show ?thesis
    using split_once_text [OF assms(2), of rest] by (subst string_elements.simps) simp
qed

text \<open>The text around the elements.\<close>

definition plist_part0 :: string where
  "plist_part0 =
     ''<?xml version='' @ [CHR 0x22] @ ''1.0'' @ [CHR 0x22] @ '' encoding='' @ [CHR 0x22] @
     ''UTF-8'' @ [CHR 0x22] @ ''?>'' @ [newline] @ ''<!DOCTYPE plist PUBLIC '' @ [CHR 0x22] @
     ''-//Apple//DTD PLIST 1.0//EN'' @ [CHR 0x22] @ '' '' @ [CHR 0x22] @ ''http://www.apple.com/DTDs/PropertyList-1.0.dtd'' @
     [CHR 0x22] @ ''>'' @ [newline] @ ''<plist version='' @ [CHR 0x22] @ ''1.0'' @ [CHR 0x22] @
     ''>'' @ [newline] @ ''<dict>'' @ [newline] @ ''    <key>Label</key>'' @ [newline] @
     ''    ''"

definition plist_part1 :: string where
  "plist_part1 =
     [newline] @ [newline] @ ''    <key>ProgramArguments</key>'' @ [newline] @ ''    <array>'' @
     [newline] @ ''        ''"

definition plist_part2 :: string where
  "plist_part2 =
     [newline] @ ''        ''"

definition plist_part3 :: string where
  "plist_part3 =
     [newline] @ ''        ''"

definition plist_part4 :: string where
  "plist_part4 =
     [newline] @ ''    </array>'' @ [newline] @ [newline] @ ''    <key>RunAtLoad</key>'' @
     [newline] @ ''    <true/>'' @ [newline] @ [newline] @ ''    <key>KeepAlive</key>'' @
     [newline] @ ''    <true/>'' @ [newline] @ [newline] @ ''    <key>ProcessType</key>'' @
     [newline] @ ''    ''"

definition plist_part5 :: string where
  "plist_part5 =
     [newline] @ [newline] @ ''    <key>ExitTimeOut</key>'' @ [newline] @ ''    <integer>25</integer>'' @
     [newline] @ [newline] @ ''    <key>StandardOutPath</key>'' @ [newline] @ ''    ''"

definition plist_part6 :: string where
  "plist_part6 =
     [newline] @ [newline] @ ''    <key>StandardErrorPath</key>'' @ [newline] @ ''    ''"

definition plist_part7 :: string where
  "plist_part7 =
     [newline] @ ''</dict>'' @ [newline] @ ''</plist>'' @ [newline]"

lemmas plist_parts = plist_part0_def plist_part1_def plist_part2_def plist_part3_def plist_part4_def plist_part5_def plist_part6_def plist_part7_def

lemma render_plist_parts:
  "render_plist cfg =
     plist_part0 @ ''<string>'' @ LABEL @ ''</string>'' @
     plist_part1 @ ''<string>'' @ xml_escape (ic_server_binary cfg) @ ''</string>'' @
     plist_part2 @ ''<string>'' @ ''--port'' @ ''</string>'' @
     plist_part3 @ ''<string>'' @ show_port (ic_port cfg) @ ''</string>'' @
     plist_part4 @ ''<string>'' @ ''Background'' @ ''</string>'' @
     plist_part5 @ ''<string>'' @ xml_escape (stdout_log cfg) @ ''</string>'' @
     plist_part6 @ ''<string>'' @ xml_escape (stderr_log cfg) @ ''</string>'' @
     plist_part7"
  by (simp add: render_plist_def writeln_def plist_parts Let_def)

lemma plist_parts_plain:
"split_once ''<string>'' (plist_part0 @ ''<string'') = None"
   "split_once ''<string>'' (plist_part1 @ ''<string'') = None"
   "split_once ''<string>'' (plist_part2 @ ''<string'') = None"
   "split_once ''<string>'' (plist_part3 @ ''<string'') = None"
   "split_once ''<string>'' (plist_part4 @ ''<string'') = None"
   "split_once ''<string>'' (plist_part5 @ ''<string'') = None"
   "split_once ''<string>'' (plist_part6 @ ''<string'') = None"
  by code_simp+

lemma plist_end: "string_elements plist_part7 = []"
  by (subst string_elements.simps) (simp add: plist_parts strip_prefix_def starts_with_def)

lemma show_nat_no_tags: "c \<in> set (show_nat n) \<Longrightarrow> c \<noteq> CHR ''<'' \<and> c \<noteq> CHR ''&''"
proof (induction n rule: show_nat.induct)
  case (1 n)
  have "digit_char k \<noteq> CHR ''<'' \<and> digit_char k \<noteq> CHR ''&''" if "k < 10" for k
  proof -
    have "of_char (digit_char k) = 48 + k" using that by (simp add: digit_char_def)
    then show ?thesis using that by auto
  qed
  with 1 show ?case by (auto simp: show_nat.simps [of n] split: if_splits)
qed

lemma show_port_plain: "CHR ''<'' \<notin> set (show_port p)" "CHR ''&'' \<notin> set (show_port p)"
  using show_nat_no_tags [of _ "unat p"] by (auto simp: show_port_def)

section \<open>Consent\<close>

lemma prompt_changes_nothing:
  assumes "\<not> (iw_terminal iw \<and> (\<exists>line. iw_line iw = Some line \<and> says_yes line))"
  shows "snd (maybe_prompt_allow_tools iw sd) = sd"
  using assms by (auto simp: maybe_prompt_allow_tools_def Let_def split: option.splits)

lemma load_launchagent_ok:
  assumes "load_launchagent ctl path = (Inr u, cmds)"
  shows "ctl [''load'', ''-w'', path] = Inr True \<and> ctl [''list'', LABEL] = Inr True \<and>
    cmds = [[''unload'', path], [''load'', ''-w'', path], [''list'', LABEL]]"
  using assms by (auto simp: load_launchagent_def Let_def split: sum.splits bool.splits)

lemma install_fails:
  assumes "ir_result (run_install_daemon iw port dir d sd) = Inl e"
  shows "ir_printed (run_install_daemon iw port dir d sd) = [] \<and> ir_settings (run_install_daemon iw port dir d sd) = sd"
  using assms by (auto simp: run_install_daemon_def Let_def split: sum.splits prod.splits)

lemma install_succeeds:
  assumes "ir_result (run_install_daemon iw port dir d sd) = Inr u"
  obtains cfg path d1 conf d2 where "install_config iw port dir d = Inr cfg" and "write_plist cfg d = (Inr path, d1)"
    and "write_newsyslog_conf cfg d1 = (Inr conf, d2)" and "iw_launchctl iw [''load'', ''-w'', path] = Inr True"
    and "iw_launchctl iw [''list'', LABEL] = Inr True"
    and "ir_commands (run_install_daemon iw port dir d sd) =
      [[''unload'', path], [''load'', ''-w'', path], [''list'', LABEL]]"
    and "ir_settings (run_install_daemon iw port dir d sd) = snd (maybe_prompt_allow_tools iw sd)"
proof -
  obtain cfg where c: "install_config iw port dir d = Inr cfg"
    using assms by (auto simp: run_install_daemon_def Let_def split: sum.splits)
  obtain path d1 where w: "write_plist cfg d = (Inr path, d1)"
    using assms c by (auto simp: run_install_daemon_def Let_def split: sum.splits prod.splits)
  obtain conf d2 where n: "write_newsyslog_conf cfg d1 = (Inr conf, d2)"
    using assms c w by (auto simp: run_install_daemon_def Let_def split: sum.splits prod.splits)
  obtain v cmds where l: "load_launchagent (iw_launchctl iw) path = (Inr v, cmds)"
    using assms c w n by (auto simp: run_install_daemon_def Let_def split: sum.splits prod.splits)
  show ?thesis
    by (rule that [OF c w n]) (use load_launchagent_ok [OF l] l c w n in
      \<open>simp_all add: run_install_daemon_def Let_def split: prod.splits\<close>)
qed

section \<open>The properties\<close>

definition sample_install_world :: InstallWorld where
  "sample_install_world = \<lparr>iw_current_exe = Inr ''/h/bin/cbc'', iw_which = Some (True, ''/opt/chatbotchat-server''),
     iw_home = Some ''/h'', iw_launchctl = (\<lambda>_. Inr True), iw_terminal = True, iw_line = Some ''yes'',
     iw_settings = sample_disk, iw_chain = id, iw_bundled = (\<lambda>_. ''new'')\<rparr>"


text \<open>C40: \<open>cbc install-daemon\<close> edits the settings only after a yes typed at a terminal, and only once both
  files were written and \<open>launchctl\<close> has loaded the agent and lists it; a run that fails prints nothing
  and leaves the settings alone.\<close>

theorem settings_need_consent:
  assumes "ir_settings (run_install_daemon iw port dir d sd) \<noteq> sd"
  shows "ir_result (run_install_daemon iw port dir d sd) = Inr () \<and>
    iw_terminal iw \<and> (\<exists>line. iw_line iw = Some line \<and> says_yes line) \<and>
    (\<exists>cfg path d1 conf d2. install_config iw port dir d = Inr cfg \<and> write_plist cfg d = (Inr path, d1) \<and>
       write_newsyslog_conf cfg d1 = (Inr conf, d2) \<and>
       ir_commands (run_install_daemon iw port dir d sd) =
         [[''unload'', path], [''load'', ''-w'', path], [''list'', LABEL]] \<and>
       iw_launchctl iw [''load'', ''-w'', path] = Inr True \<and> iw_launchctl iw [''list'', LABEL] = Inr True)"
proof (cases "ir_result (run_install_daemon iw port dir d sd)")
  case (Inl e)
  then show ?thesis using install_fails assms by blast
next
  case (Inr u)
  then show ?thesis
  proof (cases rule: install_succeeds)
    case (1 cfg path d1 conf d2)
    then have "snd (maybe_prompt_allow_tools iw sd) \<noteq> sd" using assms by simp
    then have "iw_terminal iw \<and> (\<exists>line. iw_line iw = Some line \<and> says_yes line)"
      using prompt_changes_nothing by blast
    then show ?thesis using 1 Inr by auto
  qed
qed

lemma sample_consent:
  "map_option (\<lambda>_. ()) (ir_settings (run_install_daemon sample_install_world 5 None
     (sample_files [([], Dir), ([''h''], Dir)]) Map.empty) ''/h/.claude/settings.json'') = Some ()"
  by code_simp

theorem settings_need_consent_witness:
  "let r = run_install_daemon sample_install_world 5 None (sample_files [([], Dir), ([''h''], Dir)]) Map.empty
   in ir_settings r \<noteq> Map.empty \<and> ir_result r = Inr () \<and>
     (\<exists>path. ir_commands r = [[''unload'', path], [''load'', ''-w'', path], [''list'', LABEL]])"
proof -
  let ?r = "run_install_daemon sample_install_world 5 None (sample_files [([], Dir), ([''h''], Dir)]) Map.empty"
  have changed: "ir_settings ?r \<noteq> Map.empty" using sample_consent by (metis option.distinct(1) option.simps(8))
  then show ?thesis using settings_need_consent [OF changed] by (auto simp: Let_def)
qed

end
