(* ===== verification/Server.thy ===== *)
theory Server
  imports System Install
begin

text \<open>
  \<open>bins/chatbotchat-server\<close>: how the daemon starts. The database path is resolved (and its directory made),
  the database opened, the port bound, and then the router and the sweeper run over the state. The
  arguments are parsed already; opening the database, binding and \<open>lsof\<close> are arguments. What starts is the
  system of \<open>System\<close>: registries empty, the tables as the database has them, the sweeper as its one program.
\<close>

record Args =
  arg_port :: u16
  arg_db :: "string option"

definition default_args :: Args where
  "default_args = \<lparr>arg_port = 8484, arg_db = None\<rparr>"

definition port_conflict_message :: "u16 \<Rightarrow> u32 option \<Rightarrow> string" where
  "port_conflict_message port pid =
     (let pid_note = (case pid of Some p \<Rightarrow> '' (PID '' @ show_u32 p @ '')'' | None \<Rightarrow> [])
      in ''could not bind 127.0.0.1:'' @ show_port port @ '' '' @ em_dash @ '' another instance may already be '' @
         ''running'' @ pid_note @ ''. Use --port <N> to run on a different port (e.g. --port 8485).'')"

definition conflicting_pid :: "(bool \<times> string) option \<Rightarrow> u32 option" where
  "conflicting_pid lsof = (case lsof of
       None \<Rightarrow> None
     | Some (success, stdout) \<Rightarrow>
         if \<not> success then None
         else (case lines stdout of [] \<Rightarrow> None | line # _ \<Rightarrow> parse_u32 (trim line)))"

definition resolve_db_path :: "string option \<Rightarrow> string option \<Rightarrow> Disk \<Rightarrow> (failure + string) \<times> Disk" where
  "resolve_db_path home explicit d =
     (case (case explicit of
          Some p \<Rightarrow> Inr p
        | None \<Rightarrow> (case home of
              None \<Rightarrow> Inl [''HOME not set; pass --db explicitly'']
            | Some h \<Rightarrow> Inr (path_join (path_join h ''.chatbotchat'') ''state.db''))) of
        Inl e \<Rightarrow> (Inl e, d)
      | Inr path \<Rightarrow> (case path_parent path of
            None \<Rightarrow> (Inr path, d)
          | Some dir \<Rightarrow>
              then_do (because_of (''creating data dir '' @ dir) (create_dir_all dir d)) (\<lambda>_ d. (Inr path, d))))"

record Host =
  ho_home :: "string option"
  ho_connect :: "string \<Rightarrow> string + Db"
  ho_bind :: "string \<Rightarrow> string + unit"
  ho_lsof :: "u16 \<Rightarrow> (bool \<times> string) option"

definition app_state :: "Host \<Rightarrow> string \<Rightarrow> failure + AppState \<times> Db" where
  "app_state host db_url = (case ho_connect host db_url of
       Inl e \<Rightarrow> Inl [''connecting to database at '' @ db_url, e]
     | Inr d \<Rightarrow> Inr (AppState_new, d))"

definition serve_system :: "(time \<Rightarrow> string) \<Rightarrow> nat \<Rightarrow> time \<Rightarrow> Db \<Rightarrow> World \<times> (World, unit) prog list" where
  "serve_system fmt ticks now d = (world_of d now, [detach (run_sweeper fmt ticks)])"

text \<open>The address served, the configuration and the system, or why the process ends.\<close>

definition server_main ::
  "(time \<Rightarrow> string) \<Rightarrow> nat \<Rightarrow> time \<Rightarrow> Host \<Rightarrow> Args \<Rightarrow> Disk \<Rightarrow>
   (failure + string \<times> AppState \<times> World \<times> (World, unit) prog list) \<times> Disk" where
  "server_main fmt ticks now host args d =
     then_do (resolve_db_path (ho_home host) (arg_db args) d) (\<lambda>db_path d.
       (case app_state host (''sqlite://'' @ db_path) of
          Inl e \<Rightarrow> (Inl e, d)
        | Inr (st, tables) \<Rightarrow>
            (let addr = ''127.0.0.1:'' @ show_port (arg_port args)
             in case ho_bind host addr of
                  Inl e \<Rightarrow> (Inl [port_conflict_message (arg_port args) (conflicting_pid (ho_lsof host (arg_port args))), e], d)
                | Inr _ \<Rightarrow> (Inr (addr, st, serve_system fmt ticks now tables), d))))"

section \<open>A start over an existing database\<close>

lemma serve_system_ok:
  assumes "wf_db d"
  shows "server.pool_ok (serve_system fmt ticks now d)"
proof -
  have "db_ok (world_of d now)" using assms by (simp add: db_ok_def world_of_def)
  then show ?thesis
    using daemon_keeps [OF daemon.intros(14)] by (simp add: serve_system_def server.pool_ok_def)
qed

text \<open>What a start that succeeds runs, and on which tables.\<close>

lemma server_main_starts:
  assumes "server_main fmt ticks now host args d = (Inr (addr, st, s), d')"
  shows "\<exists>db_path tables. ho_connect host (''sqlite://'' @ db_path) = Inr tables \<and>
    s = serve_system fmt ticks now tables \<and> st = AppState_new"
  using assms
  by (auto simp: server_main_def then_do_def app_state_def Let_def split: sum.splits prod.splits)

lemma evolved_database:
  assumes "evolves old new" and "wf_db new"
  shows "\<forall>r \<in> set (rooms new). count_capped_messages (r_id r) new \<le> j_hard_cap (config r)"
    and "\<exists>ms. messages new = messages old @ ms"
    and "\<forall>r \<in> set (rooms old). \<exists>r' \<in> set (rooms new). r_id r' = r_id r \<and>
      (is_terminal (r_state r) \<longrightarrow> r_state r' = r_state r \<or> r_state r' = Archived)"
proof -
  show "\<forall>r \<in> set (rooms new). count_capped_messages (r_id r) new \<le> j_hard_cap (config r)"
    using assms(2) by (simp add: wf_db_def wf_caps_def)
  show "\<exists>ms. messages new = messages old @ ms"
    using assms(1) by (auto simp: evolves_def)
  show "\<forall>r \<in> set (rooms old). \<exists>r' \<in> set (rooms new). r_id r' = r_id r \<and>
      (is_terminal (r_state r) \<longrightarrow> r_state r' = r_state r \<or> r_state r' = Archived)"
  proof
    fix r assume "r \<in> set (rooms old)"
    with assms(1) obtain r' where "r' \<in> set (rooms new)" "room_evolves r r'" unfolding evolves_def by blast
    then show "\<exists>r' \<in> set (rooms new). r_id r' = r_id r \<and>
        (is_terminal (r_state r) \<longrightarrow> r_state r' = r_state r \<or> r_state r' = Archived)"
      by (intro bexI [of _ r']) (auto simp: room_evolves_def dest: lc_steps_from_terminal)
  qed
qed

definition sample_host :: "Db \<Rightarrow> Host" where
  "sample_host tables = \<lparr>ho_home = Some ''/h'', ho_connect = (\<lambda>_. Inr tables), ho_bind = (\<lambda>_. Inr ()), ho_lsof = (\<lambda>_. None)\<rparr>"

definition sample_home :: Disk where
  "sample_home = \<lparr>nodes = map_of [([], Dir), ([''h''], Dir)], working_dir = [], may_read = (\<lambda>_. True),
     may_write = (\<lambda>_. True), os_text = (\<lambda>_. []), fits = (\<lambda>_ _. None)\<rparr>"

lemma sample_db_path: "fst (resolve_db_path (Some ''/h'') None sample_home) = Inr ''/h/.chatbotchat/state.db''"
  by code_simp

lemma sample_start:
  "server_main fmt ticks now (sample_host tables) default_args sample_home =
     (Inr (''127.0.0.1:8484'', AppState_new, serve_system fmt ticks now tables),
      snd (resolve_db_path (Some ''/h'') None sample_home))"
proof -
  obtain d' where "resolve_db_path (Some ''/h'') None sample_home = (Inr ''/h/.chatbotchat/state.db'', d')"
    using sample_db_path by (metis prod.collapse)
  moreover have "''127.0.0.1:'' @ show_port 8484 = ''127.0.0.1:8484''"
  proof -
    have "unat (8484 :: u16) = 8484" by simp
    then have "show_port 8484 = show_nat 8484" by (simp add: show_port_def)
    moreover have "show_nat 8484 = ''8484''" by (simp add: show_nat.simps digit_char_def, simp add: char_of_def bit_Suc_0_iff)
    ultimately show ?thesis by simp
  qed
  ultimately show ?thesis
    by (simp add: server_main_def sample_host_def default_args_def then_do_def app_state_def)
qed



end
