(* ===== verification/Rows.thy ===== *)
theory Rows
  imports Storage
begin

text \<open>
  The text of the tables: what \<open>storage.rs\<close> binds for a participant, a message and an event, and how it
  reads a row back. The other theories keep these tables typed; here is why they may. A timestamp is
  written with \<open>fmt\<close> and read with \<open>rd\<close>, the formatter and the parser of the \<open>time\<close> crate.
\<close>

section \<open>Rows\<close>

record ParticipantRow =
  pr_handle :: string
  pr_room_id :: string
  pr_repo :: string
  pr_model :: string
  pr_cwd :: string
  pr_instance :: string
  pr_joined_at :: string
  pr_last_poll_at :: string
  pr_last_read_seq :: int
  pr_nickname :: "string option"
  pr_wants_close_at :: "string option"
  pr_wants_extend_at :: "string option"

record MessageRow =
  mr_seq :: int
  mr_room_id :: string
  mr_sender :: string
  mr_recipient :: "string option"
  mr_body :: string
  mr_created_at :: string
  mr_type :: string
  mr_from_human :: bool
  mr_severity :: "string option"
  mr_question_text :: "string option"

record EventRow =
  er_id :: int
  er_room_id :: string
  er_kind :: string
  er_from_state :: "string option"
  er_to_state :: "string option"
  er_detail :: "string option"
  er_at :: string

section \<open>Writing\<close>

definition participant_row :: "(time \<Rightarrow> string) \<Rightarrow> Participant \<Rightarrow> ParticipantRow" where
  "participant_row fmt p =
     \<lparr>pr_handle = p_handle p, pr_room_id = p_room_id p, pr_repo = repo p, pr_model = model p, pr_cwd = cwd p,
      pr_instance = p_instance p, pr_joined_at = fmt (joined_at p), pr_last_poll_at = fmt (last_poll_at p),
      pr_last_read_seq = last_read_seq p, pr_nickname = nickname p,
      pr_wants_close_at = map_option fmt (wants_close_at p), pr_wants_extend_at = map_option fmt (wants_extend_at p)\<rparr>"

definition message_row :: "(time \<Rightarrow> string) \<Rightarrow> Message \<Rightarrow> MessageRow" where
  "message_row fmt m =
     \<lparr>mr_seq = m_seq m, mr_room_id = m_room_id m, mr_sender = sender m, mr_recipient = recipient m,
      mr_body = m_body m, mr_created_at = fmt (created_at m), mr_type = MessageType_as_str (msg_type m),
      mr_from_human = from_human m, mr_severity = map_option Severity_as_str (severity m),
      mr_question_text = question_text m\<rparr>"

definition event_row :: "(time \<Rightarrow> string) \<Rightarrow> Event \<Rightarrow> EventRow" where
  "event_row fmt e =
     \<lparr>er_id = e_id e, er_room_id = e_room_id e, er_kind = EventKind_as_str (kind e),
      er_from_state = map_option RoomState_as_str (from_state e),
      er_to_state = map_option RoomState_as_str (to_state e), er_detail = detail e, er_at = fmt (e_at e)\<rparr>"

section \<open>Reading\<close>

definition or_fail :: "StorageError + 'a \<Rightarrow> ('a \<Rightarrow> StorageError + 'b) \<Rightarrow> StorageError + 'b" where
  "or_fail r f = (case r of Inl e \<Rightarrow> Inl e | Inr a \<Rightarrow> f a)"

lemma or_fail_Inr [simp]: "or_fail (Inr a) f = f a" and or_fail_Inl [simp]: "or_fail (Inl e) f = Inl e"
  by (simp_all add: or_fail_def)

definition parse_ts :: "(string \<Rightarrow> string + time) \<Rightarrow> string \<Rightarrow> StorageError + time" where
  "parse_ts rd s = (case rd s of Inl e \<Rightarrow> Inl (Corrupt (''timestamp parse: '' @ e)) | Inr t \<Rightarrow> Inr t)"

text \<open>\<open>map(..).transpose()?\<close> of a nullable column.\<close>

definition read_opt :: "('c \<Rightarrow> StorageError + 'a) \<Rightarrow> 'c option \<Rightarrow> StorageError + 'a option" where
  "read_opt f x = (case x of None \<Rightarrow> Inr None | Some s \<Rightarrow> or_fail (f s) (\<lambda>a. Inr (Some a)))"

definition row_to_participant :: "(string \<Rightarrow> string + time) \<Rightarrow> ParticipantRow \<Rightarrow> StorageError + Participant" where
  "row_to_participant rd r =
     or_fail (parse_ts rd (pr_joined_at r)) (\<lambda>joined.
     or_fail (parse_ts rd (pr_last_poll_at r)) (\<lambda>polled.
     or_fail (read_opt (parse_ts rd) (pr_wants_close_at r)) (\<lambda>close_at.
     or_fail (read_opt (parse_ts rd) (pr_wants_extend_at r)) (\<lambda>extend_at.
     Inr \<lparr>p_handle = pr_handle r, p_room_id = pr_room_id r, repo = pr_repo r, model = pr_model r, cwd = pr_cwd r,
       p_instance = pr_instance r, joined_at = joined, last_poll_at = polled, last_read_seq = pr_last_read_seq r,
       nickname = pr_nickname r, wants_close_at = close_at, wants_extend_at = extend_at\<rparr>))))"

definition read_severity :: "string \<Rightarrow> StorageError + Severity" where
  "read_severity s = (case Severity_parse s of
       None \<Rightarrow> Inl (Corrupt (''unknown severity: '' @ s)) | Some sev \<Rightarrow> Inr sev)"

definition row_to_message :: "(string \<Rightarrow> string + time) \<Rightarrow> MessageRow \<Rightarrow> StorageError + Message" where
  "row_to_message rd r =
     (case MessageType_parse (mr_type r) of
        None \<Rightarrow> Inl (Corrupt (''unknown message type: '' @ mr_type r))
      | Some ty \<Rightarrow>
          or_fail (read_opt read_severity (mr_severity r)) (\<lambda>sev.
          or_fail (parse_ts rd (mr_created_at r)) (\<lambda>created.
          Inr \<lparr>m_seq = mr_seq r, m_room_id = mr_room_id r, sender = mr_sender r, recipient = mr_recipient r,
            m_body = mr_body r, created_at = created, msg_type = ty, from_human = mr_from_human r,
            severity = sev, question_text = mr_question_text r\<rparr>)))"

definition parse_state_opt :: "string option \<Rightarrow> StorageError + RoomState option" where
  "parse_state_opt s = (case s of None \<Rightarrow> Inr None | Some s \<Rightarrow> or_fail (parse_state s) (\<lambda>st. Inr (Some st)))"

definition row_to_event :: "(string \<Rightarrow> string + time) \<Rightarrow> EventRow \<Rightarrow> StorageError + Event" where
  "row_to_event rd r =
     (case EventKind_parse (er_kind r) of
        None \<Rightarrow> Inl (Corrupt (''unknown event kind: '' @ er_kind r))
      | Some k \<Rightarrow>
          or_fail (parse_state_opt (er_from_state r)) (\<lambda>from_st.
          or_fail (parse_state_opt (er_to_state r)) (\<lambda>to_st.
          or_fail (parse_ts rd (er_at r)) (\<lambda>at_time.
          Inr \<lparr>e_id = er_id r, e_room_id = er_room_id r, kind = k, from_state = from_st, to_state = to_st,
            detail = er_detail r, e_at = at_time\<rparr>))))"

text \<open>\<open>rows.iter().map(..).collect()\<close>: the rows in order, or the first that cannot be read.\<close>

fun read_rows :: "('r \<Rightarrow> StorageError + 'a) \<Rightarrow> 'r list \<Rightarrow> StorageError + 'a list" where
  "read_rows f [] = Inr []"
| "read_rows f (r # rs) = or_fail (f r) (\<lambda>a. or_fail (read_rows f rs) (\<lambda>as. Inr (a # as)))"

section \<open>What is written reads back\<close>

lemma participant_reads_back:
  assumes "\<And>t. rd (fmt t) = Inr t"
  shows "row_to_participant rd (participant_row fmt p) = Inr p"
  using assms
  by (cases "wants_close_at p"; cases "wants_extend_at p")
    (simp_all add: row_to_participant_def participant_row_def parse_ts_def read_opt_def)

lemma message_reads_back:
  assumes "\<And>t. rd (fmt t) = Inr t"
  shows "row_to_message rd (message_row fmt m) = Inr m"
  using assms
  by (cases "severity m")
    (simp_all add: row_to_message_def message_row_def parse_ts_def read_opt_def read_severity_def wire_simps)

lemma event_reads_back:
  assumes "\<And>t. rd (fmt t) = Inr t"
  shows "row_to_event rd (event_row fmt e) = Inr e"
  using assms
  by (cases "from_state e"; cases "to_state e")
    (simp_all add: row_to_event_def event_row_def parse_ts_def parse_state_opt_def wire_simps)

lemma read_rows_back: "(\<And>a. f (g a) = Inr a) \<Longrightarrow> read_rows f (map g as) = Inr as"
  by (induction as) simp_all

end
