(* ===== verification/Spec2Isabelle.thy ===== *)
theory Spec2Isabelle
  imports MessageSpec ConsensusSpec ExtendSpec InboxSpec WaitSpec System Guidance PollSpec HookSpec Settings RoomSpec
    ClientSpec McpSpec CliSpec Wire WakeSpec WaitTypes SkillSpec InstallSpec Server Rows
begin

text \<open>
  chatbotchat lets two or more coding agents talk to each other in rooms kept by a local daemon. An
  agent opens a room, its peers join it, they post messages and read them with a long poll; agents
  signal that they are away, vote to close a room or to raise its message cap, and a sweeper ages
  rooms that nobody uses. An agent uses the daemon through \<open>cbc\<close>: a command line whose \<open>cbc poll\<close>
  holds the line in the background, hooks that check at the end of a turn that it does, and an editor
  that installs both in the agent's settings, installers of skills and of the daemon, and an MCP server
  with a tool per request. This development models the daemon (\<open>chatbotchat-core\<close>, the bodies of
  \<open>chatbotchat-protocol\<close>, the start in \<open>chatbotchat-server\<close>) as functions and as programs over one
  explicit world, and the client (\<open>chatbotchat-client\<close>) and \<open>cbc\<close> as functions.

  \<^bold>\<open>Parts and how they interact.\<close> A request handler (\<open>http.rs\<close>) reads and writes the database
  (\<open>storage.rs\<close>), one SQL statement or transaction at a time, asks the pure decision functions
  (\<open>lifecycle.rs\<close>, \<open>identity.rs\<close>, \<open>ids.rs\<close>), rings the room's channel (\<open>waiter.rs\<close>) and, in a
  wait, holds a presence guard (\<open>presence.rs\<close>) while it is parked. The sweeper (\<open>sweeper.rs\<close>)
  runs next to the handlers. A tool of \<open>mcp.rs\<close> or a subcommand of \<open>main.rs\<close> takes the caller's
  identity from its surroundings (\<open>context.rs\<close>), makes one call of the client, which is one request of
  the router, and renders the answer.

  \<^bold>\<open>Theories.\<close>
  \<^item> Prelude: time, \<open>u32\<close>, decimal text, the list functions a SQL statement is made of.
  \<^item> Prog: programs \<open>prog\<close> with atomic actions, blocking and sequencing; \<open>run\<close> of one program alone;
    \<open>sys_step\<close>, the interleaving of a pool of programs with an environment that may start, advance
    and cancel them; the locale \<open>rely\<close>, which lifts a guarantee of every program to every
    reachable state.
  \<^item> Domain, Ids, Lifecycle, Identity, Protocol: the data and the pure functions, in the order of
    \<open>room.rs\<close>, \<open>participant.rs\<close>, \<open>message.rs\<close>, \<open>event.rs\<close>, \<open>ids.rs\<close>, \<open>lifecycle.rs\<close>,
    \<open>identity.rs\<close> and the protocol crate. The locales \<open>wire_words\<close> and \<open>quorum_policy\<close> state what
    the enumerations and the vote counts rely on, and are interpreted on every instance.
  \<^item> Storage, StorageInv: the four tables and every storage operation, the table invariant \<open>wf_db\<close>
    with the relation \<open>evolves\<close> between earlier and later tables, and the proof that every operation
    keeps both.
  \<^item> Rows: the columns a row is written to and read from, and that what is written reads back, so that
    the tables may be kept typed.
  \<^item> Presence: the registry of parked polls, refined by a registry that never forgets.
  \<^item> World, Waiter: the world (tables, channels, presence, wall clock, monotonic clock) with its
    actions, the claim of the next unread message, the wait loop and the polling backoff.
  \<^item> Api, HttpRooms, HttpMessages, HttpConsensus, HttpWait, Sweeper: error mapping, views and every
    handler, and the sweep. Every program has a \<open>keeps\<close> lemma: it upholds the storage contract.
  \<^item> Samples: concrete tables for examples.
  \<^item> System: the daemon as a pool of all handlers and the sweeper, and what holds in every reachable
    state.
  \<^item> MessageSpec, ConsensusSpec, ExtendSpec, InboxSpec, WaitSpec: the outcome of single requests on
    every branch, the consensus rules, the inbox as a queue (locale \<open>queue_source\<close>), the answers of
    a wait.
  \<^item> Text, Json: the string functions of the standard library that \<open>cbc\<close> uses, and JSON values with
    objects as ordered maps (locale \<open>ordered_map\<close>).
  \<^item> Guidance, Poll, PollSpec: the texts of \<open>wait_status.rs\<close>, the poll loop of \<open>main.rs\<close> with what it
    prints and sleeps, and the proofs that it returns, when, and with what.
  \<^item> Hook, HookSpec: the state files, the matching of processes, the plan of the stop hook and the
    relaunch of the session-start hook (\<open>hook.rs\<close>), and that what the hooks suggest, count and kill
    are the same polls.
  \<^item> Settings: the two merges of \<open>settings.rs\<close> (locale \<open>json_edit\<close>) and the edit of the file.
  \<^item> RoomSpec: opening and joining on every branch. WakeSpec: a parked wait beside a changing world
    (\<open>drive\<close> of Prog), and that a send wakes it. WaitTypes: a typing judgement on programs, and the
    answers a wait can give in any environment.
  \<^item> Client, ClientSpec: the requests, timeouts and decoders of the client crate, the router's table and
    \<open>serve\<close>, and that every call reaches its handler.
  \<^item> Context: repository, directory and instance of a caller (\<open>context.rs\<close>).
  \<^item> Render, Wire: the JSON of the responses, the markdown transcript, and the decoders a client uses.
  \<^item> Mcp, McpSpec: the tools of \<open>mcp.rs\<close> with their guidance. Cli, CliSpec: the subcommands of \<open>main.rs\<close>
    that talk to the daemon, and that a tool and its subcommand leave the daemon in the same state.
  \<^item> Files: a file system with symbolic links and permissions, paths resolved as POSIX does, and the
    operations of \<open>std::fs\<close> in use. Skill, SkillSpec: the skill installer (\<open>skill.rs\<close>) over it.
  \<^item> Install, InstallSpec: the daemon's installer (\<open>install.rs\<close>), the subcommands that run the installers
    and the hooks, and the messages of \<open>settings.rs\<close>; an XML reader for the agent it writes.
  \<^item> Server: the start of the daemon (\<open>chatbotchat-server\<close>), and what survives a restart.

  \<^bold>\<open>Correspondence.\<close> Time is an integer count of nanoseconds. A Rust \<open>Result\<close> is a sum, \<open>Inl\<close> the
  error; a panic is the blocked program \<open>Hang\<close>. An \<open>await\<close> on the database is one atomic action of
  the tables: SQLite serialises writers, and the transactions of \<open>storage.rs\<close> take the write lock
  first. The wall clock may be set back, the monotonic one may not. Timestamps are stored as RFC 3339
  text and SQL compares text; the formatter of the \<open>time\<close> crate is the argument \<open>fmt\<close>, its calendar
  the argument \<open>civil_of\<close>. The random session suffixes of a join are the argument \<open>sess\<close>. The
  numbers in the JSON text of a room's configuration are unbounded for SQLite and 32 bits wide for
  the program, and the model keeps that difference. Counts of table rows (\<open>usize\<close>, \<open>i64\<close>) are
  unbounded; strings are lists of characters, in \<open>cbc\<close> of UTF-8 bytes, and white space is ASCII. The
  hooks take the directory, the process table as \<open>ps\<close> prints it, the times of the marker files and the
  JSON parser as arguments and return the kills and the text; the poll loop takes the stream of the
  server's answers.

  \<^bold>\<open>Fuel.\<close> The claim and the wait loop repeat only when another program changed the world in
  between, so they take the number of rounds as an argument and block when it runs out. A program that
  runs alone needs one round for a claim and for a wait that has something to answer, and the lemmas
  about \<open>run\<close> hold for every positive number. The properties of reachable states hold for any fuel.
  The poll loop takes the number of calls it may make; \<open>poll_always_returns\<close> gives a number that is
  enough, computed from its bounds.

  A wait that parks needs one round more than the message that wakes it. A walk through the file
  system follows at most forty links, as the kernels do.

  \<^bold>\<open>Interfaces to code outside the repository.\<close> The URL parser is the argument \<open>path\<close>, assumed to be
  faithful only on plain segments; a body that \<open>axum\<close> cannot extract is answered by \<open>dn_reject\<close>; the text
  of a transport error, the reason phrases, the JSON printer and parser are arguments. So are \<open>launchctl\<close>,
  \<open>which\<close>, \<open>lsof\<close>, the terminal, opening the database and binding the port. Objects that are decoded have
  distinct keys. A write to a file may fail before it or part way.

  \<^bold>\<open>Not modelled.\<close> The parsing of the command line (\<open>clap\<close>), the internals of \<open>axum\<close>, \<open>reqwest\<close>, \<open>serde\<close>
  and \<open>rmcp\<close> with the tool schemas, connecting to SQLite and its migrations, logging, the shutdown of
  the server, and the texts of the bundled skills.
\<close>

end
